theory Spec2Isabelle
  imports Main "HOL-Library.AList"
begin

section \<open>JavaScript values and strings\<close>

text \<open>
  The grants model engine lives in \<^verbatim>\<open>lib/utils.js\<close>. Its inputs are untyped
  JavaScript values; the engine itself tests them with \<^verbatim>\<open>Array.isArray\<close>,
  \<^verbatim>\<open>typeof\<close> and truthiness. A value is therefore a string, an array of strings,
  or anything else; of anything else only its truthiness is ever read
  (\<^verbatim>\<open>undefined\<close>, \<^verbatim>\<open>null\<close>, \<^verbatim>\<open>0\<close>, \<^verbatim>\<open>false\<close> are \<open>JOther False\<close>; a non-zero number or
  an object is \<open>JOther True\<close>). Strings are lists of 8-bit characters, the Latin-1
  part of JavaScript's UTF-16 code units.
\<close>

datatype jsval = JStr string | JArr "string list" | JOther bool

fun truthy :: "jsval \<Rightarrow> bool" where
  "truthy (JStr s) = (s \<noteq> [])"
| "truthy (JArr xs) = True"
| "truthy (JOther b) = b"

text \<open>White space as \<^verbatim>\<open>String.prototype.trim\<close> and the regular expression class
  \<^verbatim>\<open>\s\<close> see it: TAB, LF, VT, FF, CR, SPACE and NBSP.\<close>

definition isSpace :: "char \<Rightarrow> bool" where
  "isSpace c = (c \<in> set [CHR 0x09, CHR 0x0A, CHR 0x0B, CHR 0x0C, CHR 0x0D, CHR 0x20, CHR 0xA0])"

definition trim :: "string \<Rightarrow> string" where
  "trim s = rev (dropWhile isSpace (rev (dropWhile isSpace s)))"

definition toLowerChar :: "char \<Rightarrow> char" where
  "toLowerChar c =
     (let n = (of_char c :: nat)
      in if (65 \<le> n \<and> n \<le> 90) \<or> (192 \<le> n \<and> n \<le> 222 \<and> n \<noteq> 215)
         then char_of (n + 32) else c)"

definition toLowerCase :: "string \<Rightarrow> string" where
  "toLowerCase s = map toLowerChar s"

text \<open>\<^verbatim>\<open>s.split(':')\<close>: the pieces between colons; never the empty list.\<close>

fun splitColon :: "string \<Rightarrow> string list" where
  "splitColon [] = [[]]"
| "splitColon (c # cs) =
     (if c = CHR '':'' then [] # splitColon cs
      else (c # hd (splitColon cs)) # tl (splitColon cs))"

text \<open>
  \<^verbatim>\<open>s.split(/\s*[;,]\s*/)\<close>. The expression matches at a position exactly when
  the white space starting there is followed by \<^verbatim>\<open>;\<close> or \<^verbatim>\<open>,\<close> (a shorter run of
  white space is followed by white space, so backtracking finds nothing else), and it
  then consumes the white space after the separator as well. \<open>matchSep\<close> returns
  the text after the match. The split scans from the left, cuts at every match and
  resumes after it; the expression never matches the empty string.
\<close>

definition isSep :: "char \<Rightarrow> bool" where
  "isSep c = (c = CHR '';'' \<or> c = CHR '','')"

definition matchSep :: "string \<Rightarrow> string option" where
  "matchSep s =
     (case dropWhile isSpace s of
        [] \<Rightarrow> None
      | c # r \<Rightarrow> if isSep c then Some (dropWhile isSpace r) else None)"

lemma matchSep_shorter: "matchSep s = Some r \<Longrightarrow> length r < length s"
proof -
  assume m: "matchSep s = Some r"
  then obtain c t where d: "dropWhile isSpace s = c # t" and r: "r = dropWhile isSpace t"
    by (auto simp: matchSep_def split: list.splits if_splits)
  have "length r \<le> length t"
    unfolding r by (rule length_dropWhile_le)
  moreover have "length (c # t) \<le> length s"
    unfolding d [symmetric] by (rule length_dropWhile_le)
  ultimately show ?thesis by simp
qed

function splitSeps :: "string \<Rightarrow> string \<Rightarrow> string list" where
  "splitSeps cur [] = [cur]"
| "splitSeps cur (c # s) =
     (case matchSep (c # s) of
        Some r \<Rightarrow> cur # splitSeps [] r
      | None \<Rightarrow> splitSeps (cur @ [c]) s)"
  by pat_completeness auto
termination
  by (relation "measure (\<lambda>(cur, s). length s)") (auto dest: matchSep_shorter)

section \<open>Generic utilities\<close>

definition toStringArray :: "jsval \<Rightarrow> string list" where
  "toStringArray v =
     (case v of
        JArr xs \<Rightarrow> xs
      | JStr s \<Rightarrow> splitSeps [] (trim s)
      | JOther b \<Rightarrow> [])"

text \<open>\<open>isFilledStringArray\<close> on an array: no item is empty after trimming. (Array
  items are strings by type here, so the \<^verbatim>\<open>typeof s !== 'string'\<close> test is void.)\<close>

definition isFilledStringArray :: "string list \<Rightarrow> bool" where
  "isFilledStringArray arr = list_all (\<lambda>s. trim s \<noteq> []) arr"

definition isEmptyArray :: "jsval \<Rightarrow> bool" where
  "isEmptyArray v = (case v of JArr xs \<Rightarrow> xs = [] | _ \<Rightarrow> False)"

definition pushUniq :: "'a list \<Rightarrow> 'a \<Rightarrow> 'a list" where
  "pushUniq arr item = (if item \<in> set arr then arr else arr @ [item])"

definition uniqConcat :: "'a list \<Rightarrow> 'a list \<Rightarrow> 'a list" where
  "uniqConcat arrA arrB = foldl pushUniq arrA arrB"

section \<open>Errors\<close>

text \<open>
  Every failure of the engine is an \<^verbatim>\<open>AccessControlError\<close> told apart by its
  message; one constructor per message. \<open>NonExistentExtenders\<close> is the message
  \<^verbatim>\<open>Cannot inherit non-existent role(s)\<close>, which the specification files under the
  kind RoleNotFound together with \<^verbatim>\<open>Role not found\<close>. \<open>TypeError\<close> is the
  JavaScript run-time error (reading a property of \<^verbatim>\<open>undefined\<close>, calling what is
  not a function, writing to a frozen object in strict mode). \<open>Locked\<close> is the message \<^verbatim>\<open>ERR_LOCK\<close>, which
  \<^verbatim>\<open>utils.js\<close> exports for its callers.
\<close>

datatype error =
    InvalidName
  | ReservedName
  | InvalidRoles
  | InvalidResources
  | InvalidResource
  | InvalidAction
  | InvalidPossession
  | RoleNotFound
  | SelfExtension
  | CrossInheritance
  | InvalidExtenders
  | NonExistentExtenders
  | EmptyOrInvalidGrants
  | LockFailed
  | Locked
  | TypeError

section \<open>The grants table\<close>

text \<open>
  A JavaScript object is an association list in insertion order; \<open>map_of\<close> reads an
  own property and \<open>AList.update\<close> writes one (in place when the key exists, appended
  otherwise). A role entry holds its resources and, under the reserved key
  \<^verbatim>\<open>$extend\<close>, the list of roles it inherits from.

  The table and its role entries are plain objects: a name they do not hold
  themselves is looked up in \<^verbatim>\<open>Object.prototype\<close>, taken to be as the engine
  provides it. It answers the names of \<open>protoNames\<close>, each with a function, and
  \<^verbatim>\<open>__proto__\<close> with the prototype itself: all of them truthy. The functions that
  write to the table are modelled with these names. Hierarchy resolution and query
  evaluation are modelled on the entries of the table: a name that is not a key of
  the table is read there as \<^verbatim>\<open>undefined\<close>.
\<close>

type_synonym attrs = "string list"

type_synonym resourceEntry = "(string \<times> attrs) list"

record roleEntry =
  r_extend :: "string list option"
  r_resources :: "(string \<times> resourceEntry) list"

type_synonym grants = "(string \<times> roleEntry) list"

definition emptyRole :: roleEntry where
  "emptyRole = \<lparr>r_extend = None, r_resources = []\<rparr>"

definition protoNames :: "string list" where
  "protoNames = [''constructor'', ''__defineGetter__'', ''__defineSetter__'', ''hasOwnProperty'',
                 ''__lookupGetter__'', ''__lookupSetter__'', ''isPrototypeOf'',
                 ''propertyIsEnumerable'', ''toString'', ''valueOf'', ''__proto__'',
                 ''toLocaleString'']"

text \<open>
  \<^verbatim>\<open>o.hasOwnProperty(key)\<close> is a method call, and the method is itself looked up on
  \<^verbatim>\<open>o\<close>. Once \<^verbatim>\<open>o\<close> holds an entry named \<^verbatim>\<open>hasOwnProperty\<close> (a role or a
  resource of that name), the entry, an object, is found in place of the inherited
  function, and calling it throws a \<^verbatim>\<open>TypeError\<close>.
\<close>

definition hasOwnProperty :: "(string \<times> 'a) list \<Rightarrow> string \<Rightarrow> error + bool" where
  "hasOwnProperty obj key =
     (if map_of obj ''hasOwnProperty'' \<noteq> None then Inl TypeError
      else Inr (map_of obj key \<noteq> None))"

definition RESERVED_KEYWORDS :: "string list" where
  "RESERVED_KEYWORDS = [''*'', ''!'', ''$'', ''$extend'']"

text \<open>The enum \<^verbatim>\<open>Action\<close> of \<^verbatim>\<open>src/enums/Action.ts\<close>.\<close>

definition actions :: "string list" where
  "actions = [''create'', ''read'', ''update'', ''delete'']"

text \<open>Modelled from the spec: the list \<^verbatim>\<open>possessions\<close> and the constant
  \<^verbatim>\<open>Possession.ANY\<close> of the enums module, which is not among the sources; the
  specification gives possession \<open>\<in> {own, any}\<close> and the default "any".\<close>

definition possessions :: "string list" where
  "possessions = [''own'', ''any'']"

definition Possession_ANY :: string where
  "Possession_ANY = ''any''"

section \<open>Validation and normalization\<close>

definition validName :: "string \<Rightarrow> bool \<Rightarrow> error + bool" where
  "validName name throwOnInvalid =
     (if trim name = [] then (if \<not> throwOnInvalid then Inr False else Inl InvalidName)
      else if name \<in> set RESERVED_KEYWORDS
        then (if \<not> throwOnInvalid then Inr False else Inl ReservedName)
      else Inr True)"

text \<open>
  \<open>normalizeActionPossession\<close> reads \<^verbatim>\<open>info.action\<close> and \<^verbatim>\<open>info.possession\<close>
  (declared \<^verbatim>\<open>string | undefined\<close>, here \<open>string option\<close>) and yields the
  normalized pair it writes back into \<^verbatim>\<open>info\<close>.
\<close>

definition jsOr :: "string option \<Rightarrow> string option \<Rightarrow> string option" where
  \<comment> \<open>\<^verbatim>\<open>a || b\<close> on strings that may be undefined: the empty string is falsy.\<close>
  "jsOr a b = (case a of None \<Rightarrow> b | Some p \<Rightarrow> if p \<noteq> [] then Some p else b)"

definition truthyStr :: "string option \<Rightarrow> bool" where
  "truthyStr v = (case v of None \<Rightarrow> False | Some s \<Rightarrow> s \<noteq> [])"

definition at1 :: "string list \<Rightarrow> string option" where
  \<comment> \<open>\<^verbatim>\<open>s[1]\<close>, undefined when the array has fewer than two items.\<close>
  "at1 s = (if 2 \<le> length s then Some (s ! 1) else None)"

definition normalizeActionPossession :: "string option \<Rightarrow> string option \<Rightarrow> error + (string \<times> string)" where
  "normalizeActionPossession action possession =
     (case action of
        None \<Rightarrow> Inl InvalidAction
      | Some a \<Rightarrow>
          (let s = splitColon a;
               act = toLowerCase (trim (hd s))
           in if act \<notin> set actions then Inl InvalidAction
              else (case jsOr possession (at1 s) of
                      None \<Rightarrow> Inr (act, Possession_ANY)
                    | Some p \<Rightarrow>
                        (if p = [] then Inr (act, Possession_ANY)
                         else if toLowerCase (trim p) \<notin> set possessions then Inl InvalidPossession
                         else Inr (act, toLowerCase (trim p))))))"

record queryInfo =
  q_role :: jsval
  q_resource :: jsval
  q_action :: "string option"
  q_possession :: "string option"

text \<open>The clone that \<open>normalizeQueryInfo\<close> returns, with the types its fields have
  by then.\<close>

record normQuery =
  nq_role :: "string list"
  nq_resource :: string
  nq_action :: string
  nq_possession :: string

definition normalizeQueryInfo :: "queryInfo \<Rightarrow> error + normQuery" where
  "normalizeQueryInfo query =
     (let role = toStringArray (q_role query)
      in if \<not> isFilledStringArray role then Inl InvalidRoles
         else case q_resource query of
                JStr r \<Rightarrow>
                  if trim r = [] then Inl InvalidResource
                  else (case normalizeActionPossession (q_action query) (q_possession query) of
                          Inl e \<Rightarrow> Inl e
                        | Inr (act, poss) \<Rightarrow>
                            Inr \<lparr>nq_role = role, nq_resource = trim r,
                                 nq_action = act, nq_possession = poss\<rparr>)
              | _ \<Rightarrow> Inl InvalidResource)"

record accessInfo =
  a_role :: jsval
  a_resource :: jsval
  a_action :: "string option"
  a_possession :: "string option"
  a_attributes :: jsval
  a_denied :: bool

text \<open>The clone that \<open>normalizeAccessInfo\<close> returns. Without \<open>all\<close> the action
  and possession stay as given, possibly undefined.\<close>

record normAccess =
  na_role :: "string list"
  na_resource :: "string list"
  na_action :: "string option"
  na_possession :: "string option"
  na_attributes :: attrs

definition normalizeAccessInfo :: "accessInfo \<Rightarrow> bool \<Rightarrow> error + normAccess" where
  "normalizeAccessInfo access all =
     (let role = toStringArray (a_role access)
      in if role = [] \<or> \<not> isFilledStringArray role then Inl InvalidRoles
         else
           let resource = toStringArray (a_resource access)
           in if resource = [] \<or> \<not> isFilledStringArray resource then Inl InvalidResources
              else
                let attributes =
                      (if a_denied access \<or> a_attributes access = JArr [] then []
                       else if \<not> truthy (a_attributes access) then [''*'']
                       else toStringArray (a_attributes access))
                in if all
                   then (case normalizeActionPossession (a_action access) (a_possession access) of
                           Inl e \<Rightarrow> Inl e
                         | Inr (act, poss) \<Rightarrow>
                             Inr \<lparr>na_role = role, na_resource = resource, na_action = Some act,
                                  na_possession = Some poss, na_attributes = attributes\<rparr>)
                   else Inr \<lparr>na_role = role, na_resource = resource, na_action = a_action access,
                             na_possession = a_possession access, na_attributes = attributes\<rparr>)"

section \<open>Role hierarchy\<close>

text \<open>
  \<open>getRoleHierarchyOf\<close> recurses into every extender. JavaScript runs out of stack on
  a table whose \<^verbatim>\<open>$extend\<close> lists loop without coming back to the role first asked
  for; the first argument here is the number of nested calls allowed, and \<open>None\<close> is
  the call that needs more. \<open>hierarchyLoop\<close>
  is the body of \<^verbatim>\<open>role.$extend.forEach\<close>, with \<open>rec\<close> the recursive call.
  \<^verbatim>\<open>_rootRole\<close> is undefined (\<open>None\<close>) on the outermost call.
\<close>

fun hierarchyLoop ::
  "(string \<Rightarrow> (error + string list) option) \<Rightarrow> grants \<Rightarrow> string \<Rightarrow> string option
     \<Rightarrow> string list \<Rightarrow> string list \<Rightarrow> (error + string list) option" where
  "hierarchyLoop rec g roleName rootRole arr [] = Some (Inr arr)"
| "hierarchyLoop rec g roleName rootRole arr (exRoleName # rest) =
     (if map_of g exRoleName = None then Some (Inl RoleNotFound)
      else if exRoleName = roleName then Some (Inl SelfExtension)
      else if truthyStr rootRole \<and> rootRole = Some exRoleName then Some (Inl CrossInheritance)
      else (case rec exRoleName of
              None \<Rightarrow> None
            | Some (Inl e) \<Rightarrow> Some (Inl e)
            | Some (Inr ext) \<Rightarrow> hierarchyLoop rec g roleName rootRole (uniqConcat arr ext) rest))"

fun getRoleHierarchyOf ::
  "nat \<Rightarrow> grants \<Rightarrow> string \<Rightarrow> string option \<Rightarrow> (error + string list) option" where
  "getRoleHierarchyOf 0 g roleName rootRole = None"
| "getRoleHierarchyOf (Suc n) g roleName rootRole =
     (case map_of g roleName of
        None \<Rightarrow> Some (Inl RoleNotFound)
      | Some role \<Rightarrow>
          (case r_extend role of
             None \<Rightarrow> Some (Inr [roleName])
           | Some exts \<Rightarrow>
               if exts = [] then Some (Inr [roleName])
               else hierarchyLoop
                      (\<lambda>exRoleName. getRoleHierarchyOf n g exRoleName (jsOr rootRole (Some roleName)))
                      g roleName rootRole [roleName] exts))"

fun flatLoop ::
  "nat \<Rightarrow> grants \<Rightarrow> string list \<Rightarrow> string list \<Rightarrow> (error + string list) option" where
  "flatLoop n g arr [] = Some (Inr arr)"
| "flatLoop n g arr (roleName # rest) =
     (case getRoleHierarchyOf n g roleName None of
        None \<Rightarrow> None
      | Some (Inl e) \<Rightarrow> Some (Inl e)
      | Some (Inr h) \<Rightarrow> flatLoop n g (uniqConcat arr h) rest)"

definition getFlatRoles :: "nat \<Rightarrow> grants \<Rightarrow> jsval \<Rightarrow> (error + string list) option" where
  "getFlatRoles n g roles =
     (let arrRoles = toStringArray (if truthy roles then roles else JArr [])
      in if arrRoles = [] then Some (Inl InvalidRoles)
         else flatLoop n g (uniqConcat [] arrRoles) arrRoles)"

text \<open>The \<^verbatim>\<open>for\<close> loop of \<open>getNonExistentRoles\<close>, with the roles found missing so far.\<close>

fun nonExistentLoop :: "grants \<Rightarrow> string list \<Rightarrow> string list \<Rightarrow> error + string list" where
  "nonExistentLoop g non [] = Inr non"
| "nonExistentLoop g non (role # rest) =
     (case hasOwnProperty g role of
        Inl e \<Rightarrow> Inl e
      | Inr own \<Rightarrow> nonExistentLoop g (if \<not> own then non @ [role] else non) rest)"

definition getNonExistentRoles :: "grants \<Rightarrow> string list \<Rightarrow> error + string list" where
  "getNonExistentRoles g roles = (if roles = [] then Inr [] else nonExistentLoop g [] roles)"

text \<open>\<open>getCrossExtendingRole\<close>: \<open>crossInherited\<close> is \<^verbatim>\<open>false\<close> (\<open>None\<close>) or the
  extender found; the loop tests it for truthiness, so an extender named by the empty
  string does not stop it.\<close>

fun crossLoop ::
  "nat \<Rightarrow> grants \<Rightarrow> string \<Rightarrow> string option \<Rightarrow> string list \<Rightarrow> (error + string option) option" where
  "crossLoop n g roleName crossInherited [] = Some (Inr crossInherited)"
| "crossLoop n g roleName crossInherited (e # rest) =
     (if truthyStr crossInherited \<or> roleName = e then Some (Inr crossInherited)
      else (case getRoleHierarchyOf n g e None of
              None \<Rightarrow> None
            | Some (Inl err) \<Rightarrow> Some (Inl err)
            | Some (Inr inheritedByExtender) \<Rightarrow>
                crossLoop n g roleName
                  (if roleName \<in> set inheritedByExtender then Some e else crossInherited) rest))"

definition getCrossExtendingRole ::
  "nat \<Rightarrow> grants \<Rightarrow> string \<Rightarrow> string list \<Rightarrow> (error + string option) option" where
  "getCrossExtendingRole n g roleName extenders = crossLoop n g roleName None extenders"

section \<open>Writing to the table\<close>

text \<open>
  The writers mutate the table in place and may throw half way, so they return the
  table as it then is together with the way the call ended: it returned, or it raised
  an error. \<open>fz\<close> tells whether the table has been deep-frozen: \<^verbatim>\<open>utils.js\<close> is an
  ES module, hence strict code, where an assignment to a property of a frozen object
  throws a \<^verbatim>\<open>TypeError\<close>.

  Two assignments of the writers reach past the entries of the table, and neither
  raises an error. An assignment to \<^verbatim>\<open>__proto__\<close> on an object that holds no
  entry of that name replaces the prototype of the object instead of adding an entry
  (on a frozen object it throws a \<^verbatim>\<open>TypeError\<close>). And \<^verbatim>\<open>extendRole\<close>, whose
  test \<^verbatim>\<open>!grants[roleName]\<close> an inherited name passes, goes on to assign
  \<^verbatim>\<open>$extend\<close> on the inherited object, which is not part of the table and is not
  frozen with it. After either, what the table inherits is no longer what
  \<open>protoNames\<close> describes; the call is followed up to that assignment and ends with
  the outcome \<open>OffTable\<close> and the table as it is at that moment.
\<close>

datatype outcome = Returned | Raised error | OffTable

fun extendLoop ::
  "nat \<Rightarrow> bool \<Rightarrow> string list \<Rightarrow> grants \<Rightarrow> string list \<Rightarrow> (grants \<times> outcome) option" where
  "extendLoop n fz arrExtRoles g [] = Some (g, Returned)"
| "extendLoop n fz arrExtRoles g (roleName # rest) =
     (if map_of g roleName = None \<and> roleName \<notin> set protoNames then Some (g, Raised RoleNotFound)
      else if roleName \<in> set arrExtRoles then Some (g, Raised SelfExtension)
      else (case getCrossExtendingRole n g roleName arrExtRoles of
              None \<Rightarrow> None
            | Some (Inl e) \<Rightarrow> Some (g, Raised e)
            | Some (Inr crossInherited) \<Rightarrow>
                if truthyStr crossInherited then Some (g, Raised CrossInheritance)
                else (case validName roleName True of
                        Inl e \<Rightarrow> Some (g, Raised e)
                      | Inr _ \<Rightarrow>
                          (case map_of g roleName of
                             None \<Rightarrow> Some (g, OffTable)
                           | Some r \<Rightarrow>
                               if fz then Some (g, Raised TypeError)
                               else extendLoop n fz arrExtRoles
                                      (AList.update roleName
                                         (r\<lparr>r_extend :=
                                              Some (case r_extend r of
                                                      Some old \<Rightarrow> uniqConcat old arrExtRoles
                                                    | None \<Rightarrow> arrExtRoles)\<rparr>) g)
                                      rest))))"

definition extendRole ::
  "nat \<Rightarrow> bool \<Rightarrow> grants \<Rightarrow> jsval \<Rightarrow> jsval \<Rightarrow> (grants \<times> outcome) option" where
  "extendRole n fz g roles extenderRoles =
     (let roles' = toStringArray roles
      in if roles' = [] then Some (g, Raised InvalidRoles)
         else if isEmptyArray extenderRoles then Some (g, Returned)
         else
           let arrExtRoles = toStringArray extenderRoles
           in if arrExtRoles = [] then Some (g, Raised InvalidExtenders)
              else (case getNonExistentRoles g arrExtRoles of
                      Inl e \<Rightarrow> Some (g, Raised e)
                    | Inr nonExistentExtRoles \<Rightarrow>
                        if nonExistentExtRoles \<noteq> [] then Some (g, Raised NonExistentExtenders)
                        else extendLoop n fz arrExtRoles g roles'))"

text \<open>\<^verbatim>\<open>x + ':' + y\<close> on strings that may be undefined. The result holds a colon,
  so it is none of \<open>protoNames\<close>, and writing it to a resource entry adds or replaces
  an entry.\<close>

definition strOf :: "string option \<Rightarrow> string" where
  "strOf v = (case v of None \<Rightarrow> ''undefined'' | Some s \<Rightarrow> s)"

text \<open>
  The body of \<^verbatim>\<open>accessInfo.resource.forEach\<close>. \<open>validName\<close> throws on a name it
  does not accept, so the test \<^verbatim>\<open>!grantItem.hasOwnProperty(res)\<close> is reached with an
  accepted name only, which is never \<^verbatim>\<open>$extend\<close>: the own property asked for is a
  resource entry.
\<close>

fun commitResources ::
  "bool \<Rightarrow> string \<Rightarrow> attrs \<Rightarrow> roleEntry \<Rightarrow> string list \<Rightarrow> roleEntry \<times> outcome" where
  "commitResources fz ap attributes grantItem [] = (grantItem, Returned)"
| "commitResources fz ap attributes grantItem (res # rest) =
     (case validName res True of
        Inl e \<Rightarrow> (grantItem, Raised e)
      | Inr _ \<Rightarrow>
          (case hasOwnProperty (r_resources grantItem) res of
             Inl e \<Rightarrow> (grantItem, Raised e)
           | Inr own \<Rightarrow>
               if \<not> own \<and> fz then (grantItem, Raised TypeError)
               else if \<not> own \<and> res = ''__proto__'' then (grantItem, OffTable)
               else
                 let grantItem1 =
                       (if \<not> own
                        then grantItem\<lparr>r_resources := AList.update res [] (r_resources grantItem)\<rparr>
                        else grantItem)
                 in if fz then (grantItem1, Raised TypeError)
                    else (case map_of (r_resources grantItem1) res of
                            None \<Rightarrow> (grantItem1, Raised TypeError)
                          | Some resource \<Rightarrow>
                              commitResources fz ap attributes
                                (grantItem1\<lparr>r_resources :=
                                    AList.update res (AList.update ap attributes resource)
                                      (r_resources grantItem1)\<rparr>)
                                rest)))"

fun commitRoles ::
  "bool \<Rightarrow> string \<Rightarrow> attrs \<Rightarrow> string list \<Rightarrow> grants \<Rightarrow> string list \<Rightarrow> grants \<times> outcome" where
  "commitRoles fz ap attributes resource g [] = (g, Returned)"
| "commitRoles fz ap attributes resource g (role # rest) =
     (case validName role True of
        Inl e \<Rightarrow> (g, Raised e)
      | Inr _ \<Rightarrow>
          (case hasOwnProperty g role of
             Inl e \<Rightarrow> (g, Raised e)
           | Inr own \<Rightarrow>
               if \<not> own \<and> fz then (g, Raised TypeError)
               else if \<not> own \<and> role = ''__proto__'' then (g, OffTable)
               else
                 let g1 = (if \<not> own then AList.update role emptyRole g else g)
                 in (case map_of g1 role of
                       None \<Rightarrow> (g1, Raised TypeError)
                     | Some grantItem \<Rightarrow>
                         (case commitResources fz ap attributes grantItem resource of
                            (grantItem', out) \<Rightarrow>
                              if out = Returned
                              then commitRoles fz ap attributes resource
                                     (AList.update role grantItem' g1) rest
                              else (AList.update role grantItem' g1, out)))))"

definition commitToGrants :: "bool \<Rightarrow> grants \<Rightarrow> accessInfo \<Rightarrow> bool \<Rightarrow> grants \<times> outcome" where
  "commitToGrants fz g access normalizeAll =
     (case normalizeAccessInfo access normalizeAll of
        Inl e \<Rightarrow> (g, Raised e)
      | Inr accessInfo \<Rightarrow>
          commitRoles fz (strOf (na_action accessInfo) @ '':'' @ strOf (na_possession accessInfo))
            (na_attributes accessInfo) (na_resource accessInfo) g (na_role accessInfo))"

section \<open>Query evaluation\<close>

text \<open>
  What \<^verbatim>\<open>role[query.resource]\<close> reads: a resource entry, the \<^verbatim>\<open>$extend\<close> array when
  the queried resource is that very key, or \<^verbatim>\<open>undefined\<close>.
\<close>

datatype roleProp = Undefined | ExtendArray "string list" | Resource resourceEntry

definition roleProperty :: "roleEntry \<Rightarrow> string \<Rightarrow> roleProp" where
  "roleProperty role key =
     (if key = ''$extend''
      then (case r_extend role of None \<Rightarrow> Undefined | Some xs \<Rightarrow> ExtendArray xs)
      else (case map_of (r_resources role) key of None \<Rightarrow> Undefined | Some re \<Rightarrow> Resource re))"

text \<open>The body of \<^verbatim>\<open>roles.forEach\<close> in \<open>getUnionAttrsOfRoles\<close> for one role: the
  list it pushes onto \<^verbatim>\<open>attrsList\<close>, if it pushes one.\<close>

definition roleAttrs :: "grants \<Rightarrow> normQuery \<Rightarrow> string \<Rightarrow> error + attrs option" where
  "roleAttrs g query roleName =
     (case map_of g roleName of
        None \<Rightarrow> (if nq_resource query \<noteq> [] then Inl TypeError else Inr None)
      | Some role \<Rightarrow>
          if nq_resource query \<noteq> []
          then (case roleProperty role (nq_resource query) of
                  Undefined \<Rightarrow> Inl TypeError
                | ExtendArray xs \<Rightarrow> Inr (Some [])
                | Resource resource \<Rightarrow>
                    (case map_of resource (nq_action query @ '':'' @ nq_possession query) of
                       Some a \<Rightarrow> Inr (Some a)
                     | None \<Rightarrow>
                         (case map_of resource (nq_action query @ '':any'') of
                            Some a \<Rightarrow> Inr (Some a)
                          | None \<Rightarrow> Inr (Some []))))
          else Inr None)"

fun collectAttrs :: "grants \<Rightarrow> normQuery \<Rightarrow> attrs list \<Rightarrow> string list \<Rightarrow> error + attrs list" where
  "collectAttrs g query attrsList [] = Inr attrsList"
| "collectAttrs g query attrsList (roleName # rest) =
     (case roleAttrs g query roleName of
        Inl e \<Rightarrow> Inl e
      | Inr None \<Rightarrow> collectAttrs g query attrsList rest
      | Inr (Some a) \<Rightarrow> collectAttrs g query (attrsList @ [a]) rest)"

text \<open>\<open>globUnion\<close> stands for \<^verbatim>\<open>Notation.Glob.union\<close> of the external glob matcher.\<close>

definition unionAll :: "(attrs \<Rightarrow> attrs \<Rightarrow> attrs) \<Rightarrow> attrs list \<Rightarrow> attrs" where
  "unionAll globUnion attrsList =
     (case attrsList of [] \<Rightarrow> [] | a # rest \<Rightarrow> foldl globUnion a rest)"

definition getUnionAttrsOfRoles ::
  "(attrs \<Rightarrow> attrs \<Rightarrow> attrs) \<Rightarrow> nat \<Rightarrow> grants \<Rightarrow> queryInfo \<Rightarrow> (error + attrs) option" where
  "getUnionAttrsOfRoles globUnion n g query =
     (case normalizeQueryInfo query of
        Inl e \<Rightarrow> Some (Inl e)
      | Inr query' \<Rightarrow>
          (case getFlatRoles n g (JArr (nq_role query')) of
             None \<Rightarrow> None
           | Some (Inl e) \<Rightarrow> Some (Inl e)
           | Some (Inr roles) \<Rightarrow>
               (case collectAttrs g query' [] roles of
                  Inl e \<Rightarrow> Some (Inl e)
                | Inr attrsList \<Rightarrow> Some (Inr (unionAll globUnion attrsList)))))"

section \<open>Locking\<close>

text \<open>
  The \<^verbatim>\<open>AccessControl\<close> instance that \<open>lockAC\<close> receives: its grants table, whether
  that object graph is frozen, and its flag \<^verbatim>\<open>_isLocked\<close>.

  Modelled from the spec: the getter \<^verbatim>\<open>isLocked\<close> of the class \<^verbatim>\<open>AccessControl\<close>,
  which is not among the sources, reads the immutability flag that \<open>lockAC\<close> sets.
\<close>

record accessControl =
  ac_grants :: grants
  ac_frozen :: bool
  ac_isLocked :: bool

definition isLocked :: "accessControl \<Rightarrow> bool" where
  "isLocked ac = ac_isLocked ac"

text \<open>\<open>deepFreeze\<close> freezes every object and array reachable from the table, then
  the table, and returns it (a truthy value).\<close>

definition deepFreeze :: "accessControl \<Rightarrow> accessControl \<times> bool" where
  "deepFreeze ac = (ac\<lparr>ac_frozen := True\<rparr>, True)"

definition lockAC :: "accessControl \<Rightarrow> error + accessControl" where
  "lockAC ac =
     (if ac_grants ac = [] then Inl EmptyOrInvalidGrants
      else
        let locked = (isLocked ac \<and> ac_frozen ac);
            (ac1, locked1) = (if \<not> locked then deepFreeze ac else (ac, locked))
        in if \<not> locked1 then Inl LockFailed
           else Inr (ac1\<lparr>ac_isLocked := locked1\<rparr>))"

section \<open>Example tables and queries\<close>

definition videoOwn :: grants where
  "videoOwn = [(''u'', \<lparr>r_extend = None, r_resources = [(''video'', [(''create:own'', [''*''])])]\<rparr>)]"

definition videoAny :: grants where
  "videoAny = [(''u'', \<lparr>r_extend = None, r_resources = [(''video'', [(''create:any'', [''*''])])]\<rparr>)]"

definition videoNone :: grants where
  "videoNone = [(''u'', \<lparr>r_extend = None, r_resources = [(''video'', [])]\<rparr>)]"

definition createQuery :: "string \<Rightarrow> string \<Rightarrow> queryInfo" where
  "createQuery res poss = \<lparr>q_role = JStr ''u'', q_resource = JStr res,
                           q_action = Some ''create'', q_possession = Some poss\<rparr>"

section \<open>The inheritance relation\<close>

text \<open>The roles a role names in its \<^verbatim>\<open>$extend\<close> list, and the relation "extends
  directly" over role names.\<close>

definition extendsOf :: "grants \<Rightarrow> string \<Rightarrow> string list" where
  "extendsOf g r =
     (case map_of g r of
        None \<Rightarrow> []
      | Some role \<Rightarrow> (case r_extend role of None \<Rightarrow> [] | Some exts \<Rightarrow> exts))"

definition extendsRel :: "grants \<Rightarrow> (string \<times> string) set" where
  "extendsRel g = {(a, b). b \<in> set (extendsOf g a)}"

text \<open>
  The order in which a depth-first walk lists a role and what it inherits: the role,
  then the listing of each extender in turn, keeping the first occurrence of every
  name. The first argument bounds the depth.
\<close>

fun depthFirstOrder :: "nat \<Rightarrow> grants \<Rightarrow> string \<Rightarrow> string list" where
  "depthFirstOrder 0 g r = [r]"
| "depthFirstOrder (Suc n) g r =
     uniqConcat [] (r # concat (map (depthFirstOrder n g) (extendsOf g r)))"

text \<open>
  Breadth order in the words of the specification: the role, then its direct
  extenders, then theirs, level by level, without repetition.
\<close>

fun spec_breadthOrder :: "nat \<Rightarrow> grants \<Rightarrow> string list \<Rightarrow> string list \<Rightarrow> string list" where
  "spec_breadthOrder 0 g seen frontier = seen"
| "spec_breadthOrder (Suc n) g seen frontier =
     (let next = uniqConcat [] (filter (\<lambda>e. e \<notin> set seen) (concat (map (extendsOf g) frontier)))
      in if next = [] then seen else spec_breadthOrder n g (seen @ next) next)"

text \<open>\<open>A\<close> extends \<open>B\<close> and \<open>C\<close>, and \<open>B\<close> extends \<open>D\<close>; and the chain
  \<open>A\<close>, \<open>B\<close>, \<open>C\<close>.\<close>

definition forkTable :: grants where
  "forkTable = [(''A'', \<lparr>r_extend = Some [''B'', ''C''], r_resources = []\<rparr>),
                (''B'', \<lparr>r_extend = Some [''D''], r_resources = []\<rparr>),
                (''C'', emptyRole), (''D'', emptyRole)]"

definition chainTable :: grants where
  "chainTable = [(''A'', \<lparr>r_extend = Some [''B''], r_resources = []\<rparr>),
                 (''B'', \<lparr>r_extend = Some [''C''], r_resources = []\<rparr>),
                 (''C'', emptyRole)]"

text \<open>The statement \<^verbatim>\<open>{role: 'u', resource: 'video', action: 'create:any',
  attributes: ['*']}\<close>, an instance that is not locked, and the errors a commit can
  end in.\<close>

definition grantStmt :: accessInfo where
  "grantStmt = \<lparr>a_role = JStr ''u'', a_resource = JStr ''video'', a_action = Some ''create:any'',
                 a_possession = None, a_attributes = JArr [''*''], a_denied = False\<rparr>"

definition unlockedAC :: accessControl where
  "unlockedAC = \<lparr>ac_grants = videoAny, ac_frozen = False, ac_isLocked = False\<rparr>"

definition commitErrors :: "error set" where
  "commitErrors = {InvalidRoles, InvalidResources, InvalidAction, InvalidPossession,
                   InvalidName, ReservedName, TypeError}"

section \<open>Rules written by a commit\<close>

text \<open>
  \<open>ruleOf\<close> reads \<^verbatim>\<open>grants[role][res][ap]\<close>. \<open>setRule\<close> is what one round of the
  inner loop of \<open>commitToGrants\<close> does to a role entry that is not frozen, and
  \<open>ruleSet\<close>, \<open>roleDone\<close> say that the rule for a resource, or for every resource of
  the statement, is in place. \<open>validNames\<close> holds when \<open>validName\<close> accepts every
  name of a list.
\<close>

definition ruleOf :: "grants \<Rightarrow> string \<Rightarrow> string \<Rightarrow> string \<Rightarrow> attrs option" where
  "ruleOf g role res ap =
     (case map_of g role of
        None \<Rightarrow> None
      | Some grantItem \<Rightarrow>
          (case map_of (r_resources grantItem) res of None \<Rightarrow> None | Some re \<Rightarrow> map_of re ap))"

definition setRule :: "string \<Rightarrow> attrs \<Rightarrow> roleEntry \<Rightarrow> string \<Rightarrow> roleEntry" where
  "setRule ap attributes grantItem res =
     grantItem\<lparr>r_resources :=
       AList.update res
         (AList.update ap attributes
            (case map_of (r_resources grantItem) res of None \<Rightarrow> [] | Some re \<Rightarrow> re))
         (r_resources grantItem)\<rparr>"

definition ruleSet :: "string \<Rightarrow> attrs \<Rightarrow> roleEntry \<Rightarrow> string \<Rightarrow> bool" where
  "ruleSet ap attributes grantItem res =
     (case map_of (r_resources grantItem) res of
        None \<Rightarrow> False
      | Some re \<Rightarrow> map_of re ap = Some attributes)"

definition roleDone :: "string \<Rightarrow> attrs \<Rightarrow> string list \<Rightarrow> grants \<Rightarrow> string \<Rightarrow> bool" where
  "roleDone ap attributes resource g role =
     (case map_of g role of
        None \<Rightarrow> False
      | Some grantItem \<Rightarrow> list_all (ruleSet ap attributes grantItem) resource)"

text \<open>
  \<open>itemOf\<close> is the role entry \<open>commitRoles\<close> works on for a role: the entry the
  table holds, or the empty one it creates. \<open>itemRule\<close> reads
  \<^verbatim>\<open>grantItem[res][ap]\<close>.
\<close>

definition itemOf :: "grants \<Rightarrow> string \<Rightarrow> roleEntry" where
  "itemOf g role = (case map_of g role of None \<Rightarrow> emptyRole | Some grantItem \<Rightarrow> grantItem)"

definition itemRule :: "roleEntry \<Rightarrow> string \<Rightarrow> string \<Rightarrow> attrs option" where
  "itemRule grantItem res ap =
     (case map_of (r_resources grantItem) res of None \<Rightarrow> None | Some re \<Rightarrow> map_of re ap)"

definition validNames :: "string list \<Rightarrow> bool" where
  "validNames names = list_all (\<lambda>name. validName name True = Inr True) names"

text \<open>
  Names and tables that leave the tests of \<open>commitToGrants\<close> to the inherited
  \<^verbatim>\<open>hasOwnProperty\<close>: a list of names is plain when none of them is
  \<^verbatim>\<open>hasOwnProperty\<close> or \<^verbatim>\<open>__proto__\<close>, and a table is unshadowed when none of
  its roles and none of their resources is called \<^verbatim>\<open>hasOwnProperty\<close>.
\<close>

definition plainNames :: "string list \<Rightarrow> bool" where
  "plainNames names = (''hasOwnProperty'' \<notin> set names \<and> ''__proto__'' \<notin> set names)"

definition unshadowed :: "grants \<Rightarrow> bool" where
  "unshadowed g =
     list_all (\<lambda>(role, grantItem). role \<noteq> ''hasOwnProperty''
                 \<and> map_of (r_resources grantItem) ''hasOwnProperty'' = None) g"

text \<open>The errors \<open>normalizeAccessInfo\<close> raises, before \<open>commitToGrants\<close> enters its
  loops.\<close>

definition normalizationErrors :: "error set" where
  "normalizationErrors = {InvalidRoles, InvalidResources, InvalidAction, InvalidPossession}"

text \<open>
  Statements and tables of the examples: \<open>grantStmt\<close> for the roles \<open>u\<close> and
  \<^verbatim>\<open>$\<close>, for \<^verbatim>\<open>$\<close> and \<open>u\<close>, for the roles \<^verbatim>\<open>hasOwnProperty\<close> and \<open>u\<close>,
  and with the action \<^verbatim>\<open>fly\<close>; what \<open>normalizeAccessInfo\<close> makes of \<open>grantStmt\<close>;
  the table with the rule of \<open>grantStmt\<close> under the role \<^verbatim>\<open>hasOwnProperty\<close>; the
  table where \<open>u\<close> may create the title of a video; and \<open>forkTable\<close> after \<open>C\<close>
  has been given the extender \<open>D\<close>.
\<close>

definition twoRoleStmt :: accessInfo where
  "twoRoleStmt = grantStmt\<lparr>a_role := JArr [''u'', ''$'']\<rparr>"

definition reservedFirstStmt :: accessInfo where
  "reservedFirstStmt = grantStmt\<lparr>a_role := JArr [''$'', ''u'']\<rparr>"

definition shadowStmt :: accessInfo where
  "shadowStmt = grantStmt\<lparr>a_role := JArr [''hasOwnProperty'', ''u'']\<rparr>"

definition flyStmt :: accessInfo where
  "flyStmt = grantStmt\<lparr>a_action := Some ''fly''\<rparr>"

definition grantStmtN :: normAccess where
  "grantStmtN = \<lparr>na_role = [''u''], na_resource = [''video''], na_action = Some ''create'',
                  na_possession = Some ''any'', na_attributes = [''*'']\<rparr>"

definition shadowTable :: grants where
  "shadowTable = [(''hasOwnProperty'',
                   \<lparr>r_extend = None, r_resources = [(''video'', [(''create:any'', [''*''])])]\<rparr>)]"

definition videoTitle :: grants where
  "videoTitle = [(''u'', \<lparr>r_extend = None, r_resources = [(''video'', [(''create:any'', [''title''])])]\<rparr>)]"

definition forkPartly :: grants where
  "forkPartly = [(''A'', \<lparr>r_extend = Some [''B'', ''C''], r_resources = []\<rparr>),
                 (''B'', \<lparr>r_extend = Some [''D''], r_resources = []\<rparr>),
                 (''C'', \<lparr>r_extend = Some [''D''], r_resources = []\<rparr>), (''D'', emptyRole)]"


text \<open>\<open>forkTable\<close> after \<open>C\<close> has been given the extenders \<open>D\<close>, \<open>D\<close>.\<close>

definition forkDup :: grants where
  "forkDup = [(''A'', \<lparr>r_extend = Some [''B'', ''C''], r_resources = []\<rparr>),
              (''B'', \<lparr>r_extend = Some [''D''], r_resources = []\<rparr>),
              (''C'', \<lparr>r_extend = Some [''D'', ''D''], r_resources = []\<rparr>), (''D'', emptyRole)]"

text \<open>
  A name as callers write it between separators: not empty, no white space at either
  end, no \<^verbatim>\<open>;\<close> or \<^verbatim>\<open>,\<close> inside. A separator: optional white space, one of
  \<^verbatim>\<open>;\<close> and \<^verbatim>\<open>,\<close>, optional white space. \<open>joinNames\<close> writes a first name and then
  separator and name in turn.
\<close>

definition cleanName :: "string \<Rightarrow> bool" where
  "cleanName n = (n \<noteq> [] \<and> \<not> isSpace (hd n) \<and> \<not> isSpace (last n) \<and> list_all (\<lambda>c. \<not> isSep c) n)"

definition isSeparator :: "string \<Rightarrow> bool" where
  "isSeparator sep =
     (case dropWhile isSpace sep of
        [] \<Rightarrow> False
      | c # w \<Rightarrow> isSep c \<and> list_all isSpace w)"

fun joinNames :: "string \<Rightarrow> (string \<times> string) list \<Rightarrow> string" where
  "joinNames n [] = n"
| "joinNames n ((sep, m) # rest) = n @ sep @ joinNames m rest"

text \<open>The errors a query can be rejected with before any role is looked up.\<close>

definition queryErrors :: "error set" where
  "queryErrors = {InvalidRoles, InvalidResource, InvalidAction, InvalidPossession}"

section \<open>Query evaluation over a store\<close>

text \<open>
  The same query evaluation with the objects where JavaScript has them: in a store,
  reached by reference. A store is the list of its cells, an address is an index, and a
  new object takes the next index. A query object holds its role as a string, as a
  reference to an array, or as something else; the grants object maps role names to
  role entries, a role entry holds the reference of its \<^verbatim>\<open>$extend\<close> array and maps
  resource names to resource entries, and a resource entry maps \<open>action:possession\<close>
  to the reference of an attribute array. Reading a cell that is not of the expected
  kind yields the empty object of that kind. The functions below are those of the
  query path again, now taking and returning the store; each allocation and each
  assignment of the source is a step on it.
\<close>

datatype hval = HStr string | HRef nat | HOther bool

record hquery =
  hq_role :: hval
  hq_resource :: hval
  hq_action :: "string option"
  hq_possession :: "string option"

datatype cell =
    Unused
  | Arr "string list"
  | Query hquery
  | Grants "(string \<times> nat) list"
  | Role "nat option" "(string \<times> nat) list"
  | Rules "(string \<times> nat) list"

type_synonym store = "cell list"

definition cellAt :: "store \<Rightarrow> nat \<Rightarrow> cell" where
  "cellAt h a = (if a < length h then h ! a else Unused)"

definition alloc :: "cell \<Rightarrow> store \<Rightarrow> nat \<times> store" where
  "alloc c h = (length h, h @ [c])"

definition arrayAt :: "store \<Rightarrow> nat \<Rightarrow> string list" where
  "arrayAt h a = (case cellAt h a of Arr xs \<Rightarrow> xs | _ \<Rightarrow> [])"

definition queryAt :: "store \<Rightarrow> nat \<Rightarrow> hquery" where
  "queryAt h a =
     (case cellAt h a of
        Query q \<Rightarrow> q
      | _ \<Rightarrow> \<lparr>hq_role = HOther False, hq_resource = HOther False, hq_action = None,
               hq_possession = None\<rparr>)"

definition grantsAt :: "store \<Rightarrow> nat \<Rightarrow> (string \<times> nat) list" where
  "grantsAt h a = (case cellAt h a of Grants rs \<Rightarrow> rs | _ \<Rightarrow> [])"

definition extendAt :: "store \<Rightarrow> nat \<Rightarrow> nat option" where
  "extendAt h a = (case cellAt h a of Role e rs \<Rightarrow> e | _ \<Rightarrow> None)"

definition resourcesAt :: "store \<Rightarrow> nat \<Rightarrow> (string \<times> nat) list" where
  "resourcesAt h a = (case cellAt h a of Role e rs \<Rightarrow> rs | _ \<Rightarrow> [])"

definition rulesAt :: "store \<Rightarrow> nat \<Rightarrow> (string \<times> nat) list" where
  "rulesAt h a = (case cellAt h a of Rules ks \<Rightarrow> ks | _ \<Rightarrow> [])"

text \<open>\<^verbatim>\<open>arr.push(item)\<close> unless the item is there already: a write to the array
  itself.\<close>

definition st_pushUniq :: "nat \<Rightarrow> string \<Rightarrow> store \<Rightarrow> store" where
  "st_pushUniq arr item h =
     (if item \<in> set (arrayAt h arr) then h else h[arr := Arr (arrayAt h arr @ [item])])"

fun st_pushAll :: "nat \<Rightarrow> string list \<Rightarrow> store \<Rightarrow> store" where
  "st_pushAll arr [] h = h"
| "st_pushAll arr (b # bs) h = st_pushAll arr bs (st_pushUniq arr b h)"

text \<open>\<open>uniqConcat\<close>: \<^verbatim>\<open>arrA.concat()\<close> is a new array, and the pushes go to it.\<close>

definition st_uniqConcat :: "nat \<Rightarrow> nat \<Rightarrow> store \<Rightarrow> nat \<times> store" where
  "st_uniqConcat arrA arrB h =
     (let (arr, h1) = alloc (Arr (arrayAt h arrA)) h
      in (arr, st_pushAll arr (arrayAt h1 arrB) h1))"

text \<open>\<open>toStringArray\<close> returns the very array it is given, and a new array for a
  string or anything else.\<close>

definition st_toStringArray :: "hval \<Rightarrow> store \<Rightarrow> nat \<times> store" where
  "st_toStringArray v h =
     (case v of
        HRef a \<Rightarrow> (a, h)
      | HStr s \<Rightarrow> alloc (Arr (splitSeps [] (trim s))) h
      | HOther b \<Rightarrow> alloc (Arr []) h)"

definition st_normalizeActionPossession :: "nat \<Rightarrow> store \<Rightarrow> (error + unit) \<times> store" where
  "st_normalizeActionPossession info h =
     (case hq_action (queryAt h info) of
        None \<Rightarrow> (Inl InvalidAction, h)
      | Some a \<Rightarrow>
          (let s = splitColon a;
               act = toLowerCase (trim (hd s))
           in if act \<notin> set actions then (Inl InvalidAction, h)
              else
                let h1 = h[info := Query ((queryAt h info)\<lparr>hq_action := Some act\<rparr>)]
                in (case jsOr (hq_possession (queryAt h1 info)) (at1 s) of
                      None \<Rightarrow>
                        (Inr (), h1[info := Query ((queryAt h1 info)\<lparr>hq_possession := Some Possession_ANY\<rparr>)])
                    | Some p \<Rightarrow>
                        (if p = []
                         then (Inr (), h1[info := Query ((queryAt h1 info)\<lparr>hq_possession := Some Possession_ANY\<rparr>)])
                         else if toLowerCase (trim p) \<notin> set possessions
                           then (Inl InvalidPossession, h1)
                         else (Inr (), h1[info := Query ((queryAt h1 info)\<lparr>hq_possession := Some (toLowerCase (trim p))\<rparr>)])))))"

text \<open>\<open>normalizeQueryInfo\<close>: \<^verbatim>\<open>Object.assign({}, query)\<close> is a new object with the
  fields of the caller's; every assignment after it goes to the new object.\<close>

definition st_normalizeQueryInfo :: "nat \<Rightarrow> store \<Rightarrow> (error + nat) \<times> store" where
  "st_normalizeQueryInfo query h =
     (let (clone, h1) = alloc (Query (queryAt h query)) h;
          (role, h2) = st_toStringArray (hq_role (queryAt h1 clone)) h1;
          h3 = h2[clone := Query ((queryAt h2 clone)\<lparr>hq_role := HRef role\<rparr>)]
      in if \<not> isFilledStringArray (arrayAt h3 role) then (Inl InvalidRoles, h3)
         else (case hq_resource (queryAt h3 clone) of
                 HStr r \<Rightarrow>
                   if trim r = [] then (Inl InvalidResource, h3)
                   else
                     let h4 = h3[clone := Query ((queryAt h3 clone)\<lparr>hq_resource := HStr (trim r)\<rparr>)]
                     in (case st_normalizeActionPossession clone h4 of
                           (Inl e, h5) \<Rightarrow> (Inl e, h5)
                         | (Inr u, h5) \<Rightarrow> (Inr clone, h5))
               | _ \<Rightarrow> (Inl InvalidResource, h3)))"

fun st_hierarchyLoop ::
  "(string \<Rightarrow> store \<Rightarrow> ((error + nat) \<times> store) option) \<Rightarrow> nat \<Rightarrow> string \<Rightarrow> string option
     \<Rightarrow> nat \<Rightarrow> string list \<Rightarrow> store \<Rightarrow> ((error + nat) \<times> store) option" where
  "st_hierarchyLoop rec grants roleName rootRole arr [] h = Some (Inr arr, h)"
| "st_hierarchyLoop rec grants roleName rootRole arr (exRoleName # rest) h =
     (if map_of (grantsAt h grants) exRoleName = None then Some (Inl RoleNotFound, h)
      else if exRoleName = roleName then Some (Inl SelfExtension, h)
      else if truthyStr rootRole \<and> rootRole = Some exRoleName then Some (Inl CrossInheritance, h)
      else (case rec exRoleName h of
              None \<Rightarrow> None
            | Some (Inl e, h1) \<Rightarrow> Some (Inl e, h1)
            | Some (Inr ext, h1) \<Rightarrow>
                (let (arr', h2) = st_uniqConcat arr ext h1
                 in st_hierarchyLoop rec grants roleName rootRole arr' rest h2)))"

fun st_getRoleHierarchyOf ::
  "nat \<Rightarrow> nat \<Rightarrow> string \<Rightarrow> string option \<Rightarrow> store \<Rightarrow> ((error + nat) \<times> store) option" where
  "st_getRoleHierarchyOf 0 grants roleName rootRole h = None"
| "st_getRoleHierarchyOf (Suc n) grants roleName rootRole h =
     (case map_of (grantsAt h grants) roleName of
        None \<Rightarrow> Some (Inl RoleNotFound, h)
      | Some role \<Rightarrow>
          (let (arr, h1) = alloc (Arr [roleName]) h
           in (case extendAt h1 role of
                 None \<Rightarrow> Some (Inr arr, h1)
               | Some ext \<Rightarrow>
                   if arrayAt h1 ext = [] then Some (Inr arr, h1)
                   else st_hierarchyLoop
                          (\<lambda>exRoleName. st_getRoleHierarchyOf n grants exRoleName
                                           (jsOr rootRole (Some roleName)))
                          grants roleName rootRole arr (arrayAt h1 ext) h1)))"

fun st_flatLoop ::
  "nat \<Rightarrow> nat \<Rightarrow> nat \<Rightarrow> string list \<Rightarrow> store \<Rightarrow> ((error + nat) \<times> store) option" where
  "st_flatLoop n grants arr [] h = Some (Inr arr, h)"
| "st_flatLoop n grants arr (roleName # rest) h =
     (case st_getRoleHierarchyOf n grants roleName None h of
        None \<Rightarrow> None
      | Some (Inl e, h1) \<Rightarrow> Some (Inl e, h1)
      | Some (Inr hier, h1) \<Rightarrow>
          (let (arr', h2) = st_uniqConcat arr hier h1
           in st_flatLoop n grants arr' rest h2))"

definition hTruthy :: "hval \<Rightarrow> bool" where
  "hTruthy v = (case v of HStr s \<Rightarrow> s \<noteq> [] | HRef a \<Rightarrow> True | HOther b \<Rightarrow> b)"

definition st_getFlatRoles :: "nat \<Rightarrow> nat \<Rightarrow> hval \<Rightarrow> store \<Rightarrow> ((error + nat) \<times> store) option" where
  "st_getFlatRoles n grants roles h =
     (let (roles', h0) = (if hTruthy roles then (roles, h)
                          else (let (e, h') = alloc (Arr []) h in (HRef e, h')));
          (arrRoles, h1) = st_toStringArray roles' h0
      in if arrayAt h1 arrRoles = [] then Some (Inl InvalidRoles, h1)
         else
           let (empty, h2) = alloc (Arr []) h1;
               (arr, h3) = st_uniqConcat empty arrRoles h2
           in st_flatLoop n grants arr (arrayAt h3 arrRoles) h3)"

text \<open>One round of \<^verbatim>\<open>roles.forEach\<close> in \<open>getUnionAttrsOfRoles\<close>: the attribute array
  found, or the literal \<^verbatim>\<open>[]\<close>, is copied by \<^verbatim>\<open>.concat()\<close> and the copy is pushed.
  (The resource of the normalized clone is a string that is not empty.)\<close>

definition st_roleAttrs :: "nat \<Rightarrow> nat \<Rightarrow> string \<Rightarrow> store \<Rightarrow> (error + nat option) \<times> store" where
  "st_roleAttrs grants query roleName h =
     (case hq_resource (queryAt h query) of
        HStr res \<Rightarrow>
          if res = [] then (Inr None, h)
          else (case map_of (grantsAt h grants) roleName of
                  None \<Rightarrow> (Inl TypeError, h)
                | Some role \<Rightarrow>
                    if res = ''$extend''
                    then (case extendAt h role of
                            None \<Rightarrow> (Inl TypeError, h)
                          | Some ext \<Rightarrow>
                              (let (lit, h1) = alloc (Arr []) h;
                                   (copy, h2) = alloc (Arr (arrayAt h1 lit)) h1
                               in (Inr (Some copy), h2)))
                    else (case map_of (resourcesAt h role) res of
                            None \<Rightarrow> (Inl TypeError, h)
                          | Some resource \<Rightarrow>
                              (let ap = strOf (hq_action (queryAt h query)) @ '':''
                                          @ strOf (hq_possession (queryAt h query));
                                   anyKey = strOf (hq_action (queryAt h query)) @ '':any''
                               in (case map_of (rulesAt h resource) ap of
                                     Some a \<Rightarrow>
                                       (let (copy, h1) = alloc (Arr (arrayAt h a)) h
                                        in (Inr (Some copy), h1))
                                   | None \<Rightarrow>
                                       (case map_of (rulesAt h resource) anyKey of
                                          Some a \<Rightarrow>
                                            (let (copy, h1) = alloc (Arr (arrayAt h a)) h
                                             in (Inr (Some copy), h1))
                                        | None \<Rightarrow>
                                            (let (lit, h1) = alloc (Arr []) h;
                                                 (copy, h2) = alloc (Arr (arrayAt h1 lit)) h1
                                             in (Inr (Some copy), h2)))))))
      | _ \<Rightarrow> (Inr None, h))"

fun st_collectAttrs ::
  "nat \<Rightarrow> nat \<Rightarrow> nat list \<Rightarrow> string list \<Rightarrow> store \<Rightarrow> (error + nat list) \<times> store" where
  "st_collectAttrs grants query attrsList [] h = (Inr attrsList, h)"
| "st_collectAttrs grants query attrsList (roleName # rest) h =
     (case st_roleAttrs grants query roleName h of
        (Inl e, h1) \<Rightarrow> (Inl e, h1)
      | (Inr None, h1) \<Rightarrow> st_collectAttrs grants query attrsList rest h1
      | (Inr (Some a), h1) \<Rightarrow> st_collectAttrs grants query (attrsList @ [a]) rest h1)"

text \<open>The glob matcher's \<^verbatim>\<open>union\<close> builds a new array from the two it reads.\<close>

fun st_unionLoop :: "(attrs \<Rightarrow> attrs \<Rightarrow> attrs) \<Rightarrow> nat \<Rightarrow> nat list \<Rightarrow> store \<Rightarrow> nat \<times> store" where
  "st_unionLoop globUnion attrs [] h = (attrs, h)"
| "st_unionLoop globUnion attrs (a # rest) h =
     (let (attrs', h1) = alloc (Arr (globUnion (arrayAt h attrs) (arrayAt h a))) h
      in st_unionLoop globUnion attrs' rest h1)"

definition st_getUnionAttrsOfRoles ::
  "(attrs \<Rightarrow> attrs \<Rightarrow> attrs) \<Rightarrow> nat \<Rightarrow> nat \<Rightarrow> nat \<Rightarrow> store \<Rightarrow> ((error + nat) \<times> store) option" where
  "st_getUnionAttrsOfRoles globUnion n grants query h =
     (case st_normalizeQueryInfo query h of
        (Inl e, h1) \<Rightarrow> Some (Inl e, h1)
      | (Inr query', h1) \<Rightarrow>
          (case st_getFlatRoles n grants (hq_role (queryAt h1 query')) h1 of
             None \<Rightarrow> None
           | Some (Inl e, h2) \<Rightarrow> Some (Inl e, h2)
           | Some (Inr roles, h2) \<Rightarrow>
               (case st_collectAttrs grants query' [] (arrayAt h2 roles) h2 of
                  (Inl e, h3) \<Rightarrow> Some (Inl e, h3)
                | (Inr attrsList, h3) \<Rightarrow>
                    (case attrsList of
                       [] \<Rightarrow> (let (attrs, h4) = alloc (Arr []) h3 in Some (Inr attrs, h4))
                     | a # rest \<Rightarrow>
                         (let (attrs, h4) = st_unionLoop globUnion a rest h3
                          in Some (Inr attrs, h4))))))"

text \<open>A store with the table \<open>videoAny\<close> (cells 0 to 3) and the caller's query for
  \<open>create:own\<close> on \<open>video\<close> by role \<open>u\<close> (cell 4).\<close>

definition videoStore :: store where
  "videoStore =
     [Arr [''*''],
      Rules [(''create:any'', 0)],
      Role None [(''video'', 1)],
      Grants [(''u'', 2)],
      Query \<lparr>hq_role = HStr ''u'', hq_resource = HStr ''video'', hq_action = Some ''create'',
             hq_possession = Some ''own''\<rparr>]"

text \<open>\<open>pres b h h'\<close>: the store has not shrunk and its cells below \<open>b\<close> are as they
  were.\<close>

definition pres :: "nat \<Rightarrow> store \<Rightarrow> store \<Rightarrow> bool" where
  "pres b h h' = (length h \<le> length h' \<and> take b h' = take b h)"

definition fresh :: "nat \<Rightarrow> store \<Rightarrow> (error + nat) \<times> store \<Rightarrow> bool" where
  "fresh b h out = (case out of (res, h') \<Rightarrow>
                      pres b h h' \<and> (case res of Inl e \<Rightarrow> True | Inr a \<Rightarrow> b \<le> a))"

text \<open>\<open>A\<close> extends \<open>B\<close>, and \<open>B\<close> and \<open>C\<close> extend each other.\<close>

definition loopTable :: grants where
  "loopTable = [(''A'', \<lparr>r_extend = Some [''B''], r_resources = []\<rparr>),
                (''B'', \<lparr>r_extend = Some [''C''], r_resources = []\<rparr>),
                (''C'', \<lparr>r_extend = Some [''B''], r_resources = []\<rparr>)]"

section \<open>Evaluation and basic facts\<close>

lemma lower_create: "toLowerCase ''create'' = ''create''"
  by code_simp

lemma lower_own: "toLowerCase ''own'' = ''own''"
  by code_simp

lemma lower_any: "toLowerCase ''any'' = ''any''"
  by code_simp

lemmas string_eval = toStringArray_def trim_def isSpace_def matchSep_def isSep_def
  isFilledStringArray_def

lemmas action_eval = normalizeActionPossession_def jsOr_def at1_def actions_def
  possessions_def Possession_ANY_def lower_create lower_own lower_any

lemma uniqConcat_Nil [simp]: "uniqConcat arr [] = arr"
  by (simp add: uniqConcat_def)

lemma uniqConcat_Cons: "uniqConcat arr (x # xs) = uniqConcat (pushUniq arr x) xs"
  by (simp add: uniqConcat_def)

lemma uniqConcat_single_self: "uniqConcat (uniqConcat [] [r]) [r] = [r]"
  by (simp add: uniqConcat_Cons pushUniq_def)

lemma hierarchy_no_extend:
  assumes "map_of g roleName = Some role" and "r_extend role = None \<or> r_extend role = Some []"
  shows "getRoleHierarchyOf (Suc n) g roleName rootRole = Some (Inr [roleName])"
  using assms by auto

lemma flatRoles_single:
  assumes "map_of g roleName = Some role" and "r_extend role = None \<or> r_extend role = Some []"
  shows "getFlatRoles (Suc n) g (JArr [roleName]) = Some (Inr [roleName])"
  using hierarchy_no_extend [OF assms, of n None]
  by (simp add: getFlatRoles_def toStringArray_def uniqConcat_single_self
           del: getRoleHierarchyOf.simps)

lemma union_single:
  assumes norm: "normalizeQueryInfo query = Inr nq"
      and single: "nq_role nq = [roleName]"
      and role: "map_of g roleName = Some role"
      and noext: "r_extend role = None \<or> r_extend role = Some []"
  shows "getUnionAttrsOfRoles globUnion (Suc n) g query =
           Some (case roleAttrs g nq roleName of
                   Inl e \<Rightarrow> Inl e
                 | Inr None \<Rightarrow> Inr []
                 | Inr (Some a) \<Rightarrow> Inr a)"
  using flatRoles_single [OF role noext, of n] norm single
  by (simp add: getUnionAttrsOfRoles_def unionAll_def split: sum.splits option.splits)

lemma normalized_resource_nonempty:
  "normalizeQueryInfo query = Inr nq \<Longrightarrow> nq_resource nq \<noteq> []"
  by (auto simp: normalizeQueryInfo_def Let_def split: if_splits jsval.splits sum.splits)

lemma normalized_possession:
  "normalizeActionPossession action possession = Inr (act, poss) \<Longrightarrow> poss \<in> set possessions"
  by (auto simp: normalizeActionPossession_def Let_def Possession_ANY_def possessions_def
           split: option.splits if_splits)

lemma normalized_query_possession:
  "normalizeQueryInfo query = Inr nq \<Longrightarrow> nq_possession nq = ''own'' \<or> nq_possession nq = ''any''"
proof -
  assume n: "normalizeQueryInfo query = Inr nq"
  then obtain act poss where
    "normalizeActionPossession (q_action query) (q_possession query) = Inr (act, poss)"
    and "nq_possession nq = poss"
    by (auto simp: normalizeQueryInfo_def Let_def split: if_splits jsval.splits sum.splits)
  then show ?thesis
    using normalized_possession [of "q_action query" "q_possession query" act poss]
    by (simp add: possessions_def)
qed

lemma trim_u: "trim ''u'' = ''u''"
  by (simp add: string_eval)

lemma trim_video: "trim ''video'' = ''video''"
  by (simp add: string_eval)

lemma trim_photo: "trim ''photo'' = ''photo''"
  by (simp add: string_eval)

lemma toStringArray_u: "toStringArray (JStr ''u'') = [''u'']"
  by (simp add: string_eval)

lemma normalize_create:
  "poss = ''own'' \<or> poss = ''any'' \<Longrightarrow>
     normalizeActionPossession (Some ''create'') (Some poss) = Inr (''create'', poss)"
  by (auto simp: action_eval string_eval)

lemma createQuery_norm:
  assumes "poss = ''own'' \<or> poss = ''any''" and "res = ''video'' \<or> res = ''photo''"
  shows "normalizeQueryInfo (createQuery res poss) =
           Inr \<lparr>nq_role = [''u''], nq_resource = res, nq_action = ''create'', nq_possession = poss\<rparr>"
proof -
  have "trim res = res"
    using assms(2) trim_video trim_photo by auto
  then show ?thesis
    using normalize_create [OF assms(1)] assms(2)
    by (auto simp: normalizeQueryInfo_def createQuery_def toStringArray_u
          isFilledStringArray_def trim_u)
qed

lemma set_pushUniq: "set (pushUniq arr x) = insert x (set arr)"
  by (auto simp: pushUniq_def)

lemma set_uniqConcat: "set (uniqConcat arr xs) = set arr \<union> set xs"
  by (induction xs arbitrary: arr) (auto simp: uniqConcat_Cons set_pushUniq)

lemma distinct_pushUniq: "distinct arr \<Longrightarrow> distinct (pushUniq arr x)"
  by (simp add: pushUniq_def)

lemma distinct_uniqConcat: "distinct arr \<Longrightarrow> distinct (uniqConcat arr xs)"
  by (induction xs arbitrary: arr) (auto simp: uniqConcat_Cons distinct_pushUniq)

lemma pushUniq_Cons: "\<exists>ys. pushUniq (a # arr) x = a # ys"
  by (simp add: pushUniq_def)

lemma uniqConcat_Cons_head: "\<exists>ys. uniqConcat (a # arr) xs = a # ys"
proof (induction xs arbitrary: arr)
  case Nil
  then show ?case by simp
next
  case (Cons x xs)
  obtain ys where "pushUniq (a # arr) x = a # ys"
    using pushUniq_Cons [of a arr x] by blast
  then show ?case
    using Cons.IH [of ys] by (simp add: uniqConcat_Cons)
qed

lemma uniqConcat_append: "uniqConcat arr (xs @ ys) = uniqConcat (uniqConcat arr xs) ys"
  by (simp add: uniqConcat_def)

lemma foldl_uniqConcat: "foldl uniqConcat arr hs = uniqConcat arr (concat hs)"
  by (induction hs arbitrary: arr) (simp_all add: uniqConcat_append)

lemma hierarchyLoop_success:
  "hierarchyLoop rec g roleName rootRole arr exts = Some (Inr xs) \<Longrightarrow>
     \<exists>hs. list_all2 (\<lambda>e h. rec e = Some (Inr h)) exts hs \<and> xs = foldl uniqConcat arr hs
        \<and> (\<forall>e \<in> set exts. map_of g e \<noteq> None)"
proof (induction exts arbitrary: arr)
  case Nil
  then show ?case by simp
next
  case (Cons e exts)
  from Cons.prems obtain h where h: "rec e = Some (Inr h)" and ex: "map_of g e \<noteq> None"
    and rest: "hierarchyLoop rec g roleName rootRole (uniqConcat arr h) exts = Some (Inr xs)"
    by (auto split: if_splits option.splits sum.splits)
  from Cons.IH [OF rest] obtain hs where
    "list_all2 (\<lambda>e h. rec e = Some (Inr h)) exts hs" "xs = foldl uniqConcat (uniqConcat arr h) hs"
    "\<forall>e \<in> set exts. map_of g e \<noteq> None"
    by blast
  then have "list_all2 (\<lambda>e h. rec e = Some (Inr h)) (e # exts) (h # hs)
               \<and> xs = foldl uniqConcat arr (h # hs) \<and> (\<forall>e \<in> set (e # exts). map_of g e \<noteq> None)"
    using h ex by simp
  then show ?case by blast
qed

lemma hierarchy_success_cases:
  assumes "getRoleHierarchyOf (Suc n) g r rootRole = Some (Inr xs)"
  shows "map_of g r \<noteq> None \<and>
         (\<exists>hs. list_all2 (\<lambda>e h. getRoleHierarchyOf n g e (jsOr rootRole (Some r)) = Some (Inr h))
                  (extendsOf g r) hs
             \<and> xs = uniqConcat [] (r # concat hs)
             \<and> (\<forall>e \<in> set (extendsOf g r). map_of g e \<noteq> None))"
proof -
  from assms obtain role where role: "map_of g r = Some role"
    by (auto split: option.splits)
  show ?thesis
  proof (cases "extendsOf g r = []")
    case True
    then have "xs = [r]"
      using assms role by (auto simp: extendsOf_def split: option.splits if_splits)
    then show ?thesis
      using True role by (simp add: uniqConcat_Cons pushUniq_def)
  next
    case False
    then have loop: "hierarchyLoop (\<lambda>e. getRoleHierarchyOf n g e (jsOr rootRole (Some r)))
                       g r rootRole [r] (extendsOf g r) = Some (Inr xs)"
      using assms role by (auto simp: extendsOf_def split: option.splits if_splits)
    from hierarchyLoop_success [OF loop] obtain hs where
      hs: "list_all2 (\<lambda>e h. getRoleHierarchyOf n g e (jsOr rootRole (Some r)) = Some (Inr h))
             (extendsOf g r) hs"
      and xs: "xs = foldl uniqConcat [r] hs"
      and ex: "\<forall>e \<in> set (extendsOf g r). map_of g e \<noteq> None"
      by blast
    have "xs = uniqConcat [] (r # concat hs)"
      unfolding xs foldl_uniqConcat by (simp add: uniqConcat_Cons pushUniq_def)
    then show ?thesis
      using hs ex role by blast
  qed
qed

lemma hierarchy_is_depthFirstOrder:
  "getRoleHierarchyOf n g r rootRole = Some (Inr xs) \<Longrightarrow> xs = depthFirstOrder n g r"
proof (induction n arbitrary: r rootRole xs)
  case 0
  then show ?case by simp
next
  case (Suc n)
  from hierarchy_success_cases [OF Suc.prems] obtain hs where
    hs: "list_all2 (\<lambda>e h. getRoleHierarchyOf n g e (jsOr rootRole (Some r)) = Some (Inr h))
           (extendsOf g r) hs"
    and xs: "xs = uniqConcat [] (r # concat hs)"
    by blast
  have "list_all2 (\<lambda>e h. h = depthFirstOrder n g e) (extendsOf g r) hs"
    using hs by (rule list_all2_mono) (auto dest: Suc.IH)
  then have "hs = map (depthFirstOrder n g) (extendsOf g r)"
    by (induction rule: list_all2_induct) auto
  then show ?case
    using xs by simp
qed

lemma hierarchy_head_distinct:
  assumes "getRoleHierarchyOf n g r rootRole = Some (Inr xs)"
  shows "(\<exists>ys. xs = r # ys) \<and> distinct xs"
proof (cases n)
  case 0
  then show ?thesis using assms by simp
next
  case (Suc m)
  with assms obtain hs where xs: "xs = uniqConcat [] (r # concat hs)"
    using hierarchy_success_cases by blast
  have "xs = uniqConcat [r] (concat hs)"
    unfolding xs by (simp add: uniqConcat_Cons pushUniq_def)
  then show ?thesis
    using uniqConcat_Cons_head [of r "[]" "concat hs"] distinct_uniqConcat [of "[r]" "concat hs"]
    by auto
qed

lemma hierarchy_closure:
  "getRoleHierarchyOf n g r rootRole = Some (Inr xs) \<Longrightarrow> set xs = (extendsRel g)\<^sup>* `` {r}"
proof (induction n arbitrary: r rootRole xs)
  case 0
  then show ?case by simp
next
  case (Suc n)
  from hierarchy_success_cases [OF Suc.prems] obtain hs where
    hs: "list_all2 (\<lambda>e h. getRoleHierarchyOf n g e (jsOr rootRole (Some r)) = Some (Inr h))
           (extendsOf g r) hs"
    and xs: "xs = uniqConcat [] (r # concat hs)"
    by blast
  have "list_all2 (\<lambda>e h. set h = (extendsRel g)\<^sup>* `` {e}) (extendsOf g r) hs"
    using hs by (rule list_all2_mono) (auto dest: Suc.IH)
  then have U: "\<Union> (set ` set hs) = (\<Union>e \<in> set (extendsOf g r). (extendsRel g)\<^sup>* `` {e})"
    by (induction rule: list_all2_induct) auto
  have "set xs = insert r (\<Union> (set ` set hs))"
    unfolding xs by (simp add: set_uniqConcat)
  also have "\<dots> = insert r (\<Union>e \<in> set (extendsOf g r). (extendsRel g)\<^sup>* `` {e})"
    by (simp only: U)
  also have "\<dots> = (extendsRel g)\<^sup>* `` {r}"
  proof (intro set_eqI iffI)
    fix x
    assume "x \<in> insert r (\<Union>e \<in> set (extendsOf g r). (extendsRel g)\<^sup>* `` {e})"
    then show "x \<in> (extendsRel g)\<^sup>* `` {r}"
      by (auto simp: extendsRel_def intro: converse_rtrancl_into_rtrancl)
  next
    fix x
    assume "x \<in> (extendsRel g)\<^sup>* `` {r}"
    then have "(r, x) \<in> (extendsRel g)\<^sup>*" by simp
    then show "x \<in> insert r (\<Union>e \<in> set (extendsOf g r). (extendsRel g)\<^sup>* `` {e})"
      by (cases rule: converse_rtranclE) (auto simp: extendsRel_def)
  qed
  finally show ?case .
qed

lemma fork_hierarchy:
  "getRoleHierarchyOf 3 forkTable ''A'' None = Some (Inr [''A'', ''B'', ''D'', ''C''])"
  by code_simp

lemma chain_hierarchy:
  assumes "map_of g a = Some ra" "r_extend ra = Some [b]" "map_of g b = Some rb"
    "r_extend rb = Some [c]" "map_of g c = Some rc" "r_extend rc = None"
    "a \<noteq> b" "b \<noteq> c" "c \<noteq> a"
  shows "getRoleHierarchyOf (Suc (Suc (Suc n))) g a None = Some (Inr [a, b, c])"
  using assms by (auto simp: uniqConcat_Cons pushUniq_def jsOr_def truthyStr_def)

lemma validName_errors:
  "validName name True = Inl e \<Longrightarrow> e = InvalidName \<or> e = ReservedName"
  by (auto simp: validName_def split: if_splits)

lemma normalizeActionPossession_errors:
  "normalizeActionPossession action possession = Inl e \<Longrightarrow> e = InvalidAction \<or> e = InvalidPossession"
  by (auto simp: normalizeActionPossession_def Let_def split: option.splits if_splits)

lemma normalizeAccessInfo_errors:
  "normalizeAccessInfo access all = Inl e \<Longrightarrow>
     e = InvalidRoles \<or> e = InvalidResources \<or> e = InvalidAction \<or> e = InvalidPossession"
  by (auto simp: normalizeAccessInfo_def Let_def split: if_splits sum.splits
           dest: normalizeActionPossession_errors)

lemma normalizeAccessInfo_nonempty:
  "normalizeAccessInfo access all = Inr ai \<Longrightarrow> na_role ai \<noteq> [] \<and> na_resource ai \<noteq> []"
  by (auto simp: normalizeAccessInfo_def Let_def split: if_splits sum.splits)

lemma lockAC_result:
  "lockAC ac = (if ac_grants ac = [] then Inl EmptyOrInvalidGrants
                else Inr (ac\<lparr>ac_frozen := True, ac_isLocked := True\<rparr>))"
  by (auto simp: lockAC_def deepFreeze_def isLocked_def Let_def)

lemma grantStmt_norm: "normalizeAccessInfo grantStmt True = Inr grantStmtN"
  by code_simp











lemma dropWhile_all: "list_all P xs \<Longrightarrow> dropWhile P (xs @ ys) = dropWhile P ys"
  by (induction xs) auto

lemma dropWhile_hd: "ys \<noteq> [] \<Longrightarrow> \<not> P (hd ys) \<Longrightarrow> dropWhile P ys = ys"
  by (cases ys) auto

lemma matchSep_inside_name:
  assumes "n \<noteq> []" and "\<not> isSpace (last n)" and "list_all (\<lambda>c. \<not> isSep c) n"
  shows "matchSep (n @ r) = None"
proof -
  have ex: "\<exists>x \<in> set n. \<not> isSpace x"
    using assms(1,2) last_in_set by blast
  then obtain x where "x \<in> set n" "\<not> isSpace x"
    by blast
  then have d: "dropWhile isSpace (n @ r) = dropWhile isSpace n @ r"
    by (rule dropWhile_append1)
  have ne: "dropWhile isSpace n \<noteq> []"
    using ex by simp
  then obtain c t where ct: "dropWhile isSpace n = c # t"
    by (cases "dropWhile isSpace n") auto
  have "c \<in> set n"
    using ct set_dropWhileD [of c isSpace n] by simp
  then have "\<not> isSep c"
    using assms(3) by (simp add: list_all_iff)
  then show ?thesis
    by (simp add: matchSep_def d ct)
qed

lemma splitSeps_scan_name:
  assumes "n = [] \<or> \<not> isSpace (last n)" and "list_all (\<lambda>c. \<not> isSep c) n"
  shows "splitSeps cur (n @ r) = splitSeps (cur @ n) r"
  using assms
proof (induction n arbitrary: cur)
  case Nil
  then show ?case by simp
next
  case (Cons c n)
  have "matchSep ((c # n) @ r) = None"
    using Cons.prems by (intro matchSep_inside_name) auto
  then have "splitSeps cur ((c # n) @ r) = splitSeps (cur @ [c]) (n @ r)"
    by simp
  also have "\<dots> = splitSeps ((cur @ [c]) @ n) r"
    using Cons.prems by (intro Cons.IH) (auto split: if_splits)
  finally show ?case by simp
qed

lemma matchSep_separator:
  assumes "isSeparator sep" and "r \<noteq> []" and "\<not> isSpace (hd r)"
  shows "matchSep (sep @ r) = Some r"
proof -
  from assms(1) obtain c w where cw: "dropWhile isSpace sep = c # w" and c: "isSep c"
    and w: "list_all isSpace w"
    by (auto simp: isSeparator_def split: list.splits)
  have "\<exists>x \<in> set sep. \<not> isSpace x"
    using cw by (metis dropWhile_eq_Nil_conv list.distinct(1))
  then obtain x where "x \<in> set sep" "\<not> isSpace x"
    by blast
  then have "dropWhile isSpace (sep @ r) = dropWhile isSpace sep @ r"
    by (rule dropWhile_append1)
  then have "dropWhile isSpace (sep @ r) = (c # w) @ r"
    by (simp add: cw)
  moreover have "dropWhile isSpace (w @ r) = r"
    using w assms(2,3) by (simp add: dropWhile_all dropWhile_hd)
  ultimately show ?thesis
    using c by (simp add: matchSep_def)
qed

lemma isSeparator_nonempty: "isSeparator sep \<Longrightarrow> sep \<noteq> []"
  by (auto simp: isSeparator_def)

lemma joinNames_ends:
  assumes "cleanName n" and "list_all (\<lambda>(sep, m). isSeparator sep \<and> cleanName m) rest"
  shows "joinNames n rest \<noteq> [] \<and> \<not> isSpace (hd (joinNames n rest))
         \<and> \<not> isSpace (last (joinNames n rest))"
  using assms
proof (induction rest arbitrary: n)
  case Nil
  then show ?case by (simp add: cleanName_def)
next
  case (Cons p rest)
  obtain sep m where p: "p = (sep, m)" by (cases p)
  have m: "cleanName m" "list_all (\<lambda>(sep, m). isSeparator sep \<and> cleanName m) rest"
    using Cons.prems(2) p by simp_all
  have n: "n \<noteq> []" "\<not> isSpace (hd n)"
    using Cons.prems(1) by (simp_all add: cleanName_def)
  show ?case
    using Cons.IH [OF m] n by (simp add: p)
qed

lemma splitSeps_joinNames:
  assumes "cleanName n" and "list_all (\<lambda>(sep, m). isSeparator sep \<and> cleanName m) rest"
  shows "splitSeps cur (joinNames n rest) = (cur @ n) # map snd rest"
  using assms
proof (induction rest arbitrary: n cur)
  case Nil
  have "splitSeps cur (n @ []) = splitSeps (cur @ n) []"
    using Nil.prems(1) by (intro splitSeps_scan_name) (simp_all add: cleanName_def)
  then show ?case by simp
next
  case (Cons p rest)
  obtain sep m where p: "p = (sep, m)" by (cases p)
  have m: "cleanName m" "list_all (\<lambda>(sep, m). isSeparator sep \<and> cleanName m) rest"
    and sep: "isSeparator sep"
    using Cons.prems(2) p by simp_all
  let ?r = "joinNames m rest"
  have r: "?r \<noteq> []" "\<not> isSpace (hd ?r)"
    using joinNames_ends [OF m] by simp_all
  have "splitSeps cur (n @ (sep @ ?r)) = splitSeps (cur @ n) (sep @ ?r)"
    using Cons.prems(1) by (intro splitSeps_scan_name) (simp_all add: cleanName_def)
  also have "\<dots> = (cur @ n) # splitSeps [] ?r"
  proof -
    obtain c t where ct: "sep @ ?r = c # t"
      using isSeparator_nonempty [OF sep] by (cases "sep @ ?r") auto
    have "matchSep (c # t) = Some ?r"
      unfolding ct [symmetric] using sep r by (rule matchSep_separator)
    then show ?thesis
      unfolding ct by simp
  qed
  also have "splitSeps [] ?r = ([] @ m) # map snd rest"
    using m by (rule Cons.IH)
  finally show ?case by (simp add: p)
qed

lemma trim_padded:
  assumes "s \<noteq> []" and "\<not> isSpace (hd s)" and "\<not> isSpace (last s)"
      and "list_all isSpace pad1" and "list_all isSpace pad2"
  shows "trim (pad1 @ s @ pad2) = s"
proof -
  have 1: "dropWhile isSpace (pad1 @ s @ pad2) = s @ pad2"
    using assms(1,2,4) by (simp add: dropWhile_all dropWhile_hd)
  have "list_all isSpace (rev pad2)"
    using assms(5) by (simp add: list_all_iff)
  moreover have "rev s \<noteq> []" "\<not> isSpace (hd (rev s))"
    using assms(1,3) by (simp_all add: hd_rev)
  ultimately have 2: "dropWhile isSpace (rev pad2 @ rev s) = rev s"
    by (simp add: dropWhile_all dropWhile_hd)
  show ?thesis
    by (simp add: trim_def 1 2)
qed

lemma toStringArray_joinNames:
  assumes "cleanName n" and "list_all (\<lambda>(sep, m). isSeparator sep \<and> cleanName m) rest"
      and "list_all isSpace pad1" and "list_all isSpace pad2"
  shows "toStringArray (JStr (pad1 @ joinNames n rest @ pad2)) = n # map snd rest"
proof -
  have "trim (pad1 @ joinNames n rest @ pad2) = joinNames n rest"
    using joinNames_ends [OF assms(1,2)] assms(3,4) by (intro trim_padded) simp_all
  then show ?thesis
    using splitSeps_joinNames [OF assms(1,2), of "[]"] by (simp add: toStringArray_def)
qed

lemma admin_user: "toStringArray (JStr ''admin, user'') = [''admin'', ''user'']"
  using toStringArray_joinNames [of "''admin''" "[('', '', ''user'')]" "[]" "[]"]
  by (simp add: cleanName_def isSeparator_def isSpace_def isSep_def)

lemma normalizeAccessInfo_role_cong:
  "toStringArray r1 = toStringArray r2 \<Longrightarrow>
     normalizeAccessInfo (access\<lparr>a_role := r1\<rparr>) all = normalizeAccessInfo (access\<lparr>a_role := r2\<rparr>) all"
  by (simp add: normalizeAccessInfo_def Let_def cong: sum.case_cong prod.case_cong if_cong)

lemma normalizeAccessInfo_resource_cong:
  "toStringArray r1 = toStringArray r2 \<Longrightarrow>
     normalizeAccessInfo (access\<lparr>a_resource := r1\<rparr>) all
       = normalizeAccessInfo (access\<lparr>a_resource := r2\<rparr>) all"
  by (simp add: normalizeAccessInfo_def Let_def cong: sum.case_cong prod.case_cong if_cong)

lemma normalizeQueryInfo_role_cong:
  "toStringArray r1 = toStringArray r2 \<Longrightarrow>
     normalizeQueryInfo (query\<lparr>q_role := r1\<rparr>) = normalizeQueryInfo (query\<lparr>q_role := r2\<rparr>)"
  by (simp add: normalizeQueryInfo_def Let_def cong: sum.case_cong prod.case_cong jsval.case_cong if_cong)

lemma normalizeQueryInfo_errors:
  "normalizeQueryInfo query = Inl e \<Longrightarrow> e \<in> queryErrors"
  by (auto simp: normalizeQueryInfo_def queryErrors_def Let_def
           split: if_splits jsval.splits sum.splits dest: normalizeActionPossession_errors)

lemma other_role_query_norm:
  "normalizeQueryInfo (query\<lparr>q_role := JOther b\<rparr>) = Inr nq \<Longrightarrow> nq_role nq = []"
  by (auto simp: normalizeQueryInfo_def toStringArray_def Let_def
           split: if_splits jsval.splits sum.splits)

lemma flatRoles_empty: "getFlatRoles k g (JArr []) = Some (Inl InvalidRoles)"
  by (simp add: getFlatRoles_def toStringArray_def)

lemma other_role_query:
  "\<exists>e. getUnionAttrsOfRoles globUnion k g (query\<lparr>q_role := JOther b\<rparr>) = Some (Inl e)
       \<and> e \<in> queryErrors
       \<and> (\<forall>nq. normalizeQueryInfo (query\<lparr>q_role := JOther b\<rparr>) = Inr nq \<longrightarrow> e = InvalidRoles)"
proof (cases "normalizeQueryInfo (query\<lparr>q_role := JOther b\<rparr>)")
  case (Inl e)
  then show ?thesis
    using normalizeQueryInfo_errors [OF Inl] by (simp add: getUnionAttrsOfRoles_def)
next
  case (Inr nq)
  then have "nq_role nq = []" by (rule other_role_query_norm)
  then show ?thesis
    using Inr by (simp add: getUnionAttrsOfRoles_def flatRoles_empty queryErrors_def)
qed

lemma grantStmt_role: "toStringArray (a_role grantStmt) = [''u'']"
  by (simp add: grantStmt_def toStringArray_u)

lemma pres_refl: "pres b h h"
  by (simp add: pres_def)

lemma pres_trans: "pres b h h1 \<Longrightarrow> pres b h1 h2 \<Longrightarrow> pres b h h2"
  by (simp add: pres_def)

lemma pres_length: "pres b h h' \<Longrightarrow> b \<le> length h \<Longrightarrow> b \<le> length h'"
  by (simp add: pres_def)

lemma pres_alloc: "b \<le> length h \<Longrightarrow> alloc c h = (a, h') \<Longrightarrow> pres b h h' \<and> b \<le> a"
  by (auto simp: pres_def alloc_def)

lemma pres_update: "b \<le> a \<Longrightarrow> pres b h (h[a := c])"
  by (simp add: pres_def)

lemma pres_pushUniq: "b \<le> arr \<Longrightarrow> pres b h (st_pushUniq arr item h)"
  by (simp add: st_pushUniq_def pres_refl pres_update)

lemma pres_pushAll: "b \<le> arr \<Longrightarrow> pres b h (st_pushAll arr xs h)"
proof (induction xs arbitrary: h)
  case Nil
  then show ?case by (simp add: pres_refl)
next
  case (Cons x xs)
  have "pres b h (st_pushUniq arr x h)"
    using Cons.prems by (rule pres_pushUniq)
  moreover have "pres b (st_pushUniq arr x h) (st_pushAll arr xs (st_pushUniq arr x h))"
    using Cons.prems by (rule Cons.IH)
  ultimately show ?case
    by (simp add: pres_trans)
qed

lemma pres_uniqConcat:
  assumes "b \<le> length h" and "st_uniqConcat arrA arrB h = (arr, h')"
  shows "pres b h h' \<and> b \<le> arr"
proof -
  obtain h1 where a: "alloc (Arr (arrayAt h arrA)) h = (arr, h1)"
    and h': "h' = st_pushAll arr (arrayAt h1 arrB) h1"
    using assms(2) by (auto simp: st_uniqConcat_def Let_def split: prod.splits)
  have 1: "pres b h h1 \<and> b \<le> arr"
    using assms(1) a by (rule pres_alloc)
  then have "pres b h1 h'"
    unfolding h' by (intro pres_pushAll) simp
  then show ?thesis
    using 1 pres_trans by blast
qed

lemma pres_toStringArray:
  assumes "b \<le> length h" and "st_toStringArray v h = (a, h')"
  shows "pres b h h'"
proof (cases v)
  case (HStr s)
  then show ?thesis
    using assms pres_alloc [of b h "Arr (splitSeps [] (trim s))" a h']
    by (simp add: st_toStringArray_def)
next
  case (HRef r)
  then show ?thesis
    using assms by (simp add: st_toStringArray_def pres_refl)
next
  case (HOther x)
  then show ?thesis
    using assms pres_alloc [of b h "Arr []" a h'] by (simp add: st_toStringArray_def)
qed

lemma pres_update2: "b \<le> a \<Longrightarrow> pres b h (h[a := c, a := d])"
  by (simp add: pres_def)

lemma pres_normalizeActionPossession:
  assumes "b \<le> info" and "st_normalizeActionPossession info h = (res, h')"
  shows "pres b h h'"
proof -
  have "h' = h \<or> (\<exists>c. h' = h[info := c]) \<or> (\<exists>c d. h' = h[info := c, info := d])"
    using assms(2)
    by (auto simp: st_normalizeActionPossession_def Let_def split: option.splits if_splits)
  then show ?thesis
    using assms(1) pres_refl pres_update pres_update2 by metis
qed

lemma pres_normalizeQueryInfo:
  assumes "b \<le> length h" and "st_normalizeQueryInfo query h = (res, h')"
  shows "pres b h h' \<and> (\<forall>clone. res = Inr clone \<longrightarrow> b \<le> clone)"
proof -
  obtain clone h1 where a: "alloc (Query (queryAt h query)) h = (clone, h1)"
    by (cases "alloc (Query (queryAt h query)) h") auto
  obtain role h2 where t: "st_toStringArray (hq_role (queryAt h1 clone)) h1 = (role, h2)"
    by (cases "st_toStringArray (hq_role (queryAt h1 clone)) h1") auto
  define h3 where "h3 = h2[clone := Query ((queryAt h2 clone)\<lparr>hq_role := HRef role\<rparr>)]"
  have 1: "pres b h h1" and c: "b \<le> clone"
    using pres_alloc [OF assms(1) a] by simp_all
  have b1: "b \<le> length h1" using 1 assms(1) by (rule pres_length)
  have 2: "pres b h1 h2" using b1 t by (rule pres_toStringArray)
  have 3: "pres b h2 h3" unfolding h3_def using c by (rule pres_update)
  have p3: "pres b h h3" by (rule pres_trans [OF 1 pres_trans [OF 2 3]])
  show ?thesis
  proof (cases "\<not> isFilledStringArray (arrayAt h3 role)")
    case True
    then have "res = Inl InvalidRoles" "h' = h3"
      using assms(2) a t by (simp_all add: st_normalizeQueryInfo_def h3_def)
    then show ?thesis using p3 by simp
  next
    case filled: False
    show ?thesis
    proof (cases "hq_resource (queryAt h3 clone)")
      case (HStr r)
      show ?thesis
      proof (cases "trim r = []")
        case True
        then have "res = Inl InvalidResource" "h' = h3"
          using assms(2) a t filled HStr
          by (simp_all add: st_normalizeQueryInfo_def h3_def [symmetric])
        then show ?thesis using p3 by simp
      next
        case False
        define h4 where "h4 = h3[clone := Query ((queryAt h3 clone)\<lparr>hq_resource := HStr (trim r)\<rparr>)]"
        obtain r5 h5 where n: "st_normalizeActionPossession clone h4 = (r5, h5)"
          by (cases "st_normalizeActionPossession clone h4") auto
        have 4: "pres b h3 h4" unfolding h4_def using c by (rule pres_update)
        have 5: "pres b h4 h5" using c n by (rule pres_normalizeActionPossession)
        have eq: "st_normalizeQueryInfo query h =
                    (case r5 of Inl e \<Rightarrow> (Inl e, h5) | Inr u \<Rightarrow> (Inr clone, h5))"
          using a t filled HStr False n
          by (simp add: st_normalizeQueryInfo_def h3_def [symmetric] h4_def [symmetric]
                split: sum.splits)
        have p5: "pres b h h5" by (rule pres_trans [OF p3 pres_trans [OF 4 5]])
        show ?thesis
        proof (cases r5)
          case (Inl e)
          then have "res = Inl e" "h' = h5" using assms(2) eq by simp_all
          then show ?thesis using p5 by simp
        next
          case (Inr u)
          then have "res = Inr clone" "h' = h5" using assms(2) eq by simp_all
          then show ?thesis using p5 c by simp
        qed
      qed
    next
      case (HRef x)
      then have "res = Inl InvalidResource" "h' = h3"
        using assms(2) a t filled
        by (simp_all add: st_normalizeQueryInfo_def h3_def [symmetric])
      then show ?thesis using p3 by simp
    next
      case (HOther x)
      then have "res = Inl InvalidResource" "h' = h3"
        using assms(2) a t filled
        by (simp_all add: st_normalizeQueryInfo_def h3_def [symmetric])
      then show ?thesis using p3 by simp
    qed
  qed
qed

lemma fresh_after: "pres b h h1 \<Longrightarrow> fresh b h1 out \<Longrightarrow> fresh b h out"
  by (auto simp: fresh_def pres_def split: prod.splits sum.splits)

lemma pres_hierarchyLoop:
  assumes rec: "\<And>ex h out. b \<le> length h \<Longrightarrow> rec ex h = Some out \<Longrightarrow> fresh b h out"
  shows "b \<le> length h \<Longrightarrow> b \<le> arr \<Longrightarrow>
           st_hierarchyLoop rec grants roleName rootRole arr exts h = Some out \<Longrightarrow> fresh b h out"
proof (induction exts arbitrary: arr h)
  case Nil
  then show ?case by (auto simp: fresh_def pres_refl)
next
  case (Cons ex rest)
  show ?case
  proof (cases "map_of (grantsAt h grants) ex = None \<or> ex = roleName
                  \<or> (truthyStr rootRole \<and> rootRole = Some ex)")
    case True
    then have "\<exists>e. out = (Inl e, h)"
      using Cons.prems(3) by (auto split: if_splits)
    then show ?thesis by (auto simp: fresh_def pres_refl)
  next
    case False
    then have step: "st_hierarchyLoop rec grants roleName rootRole arr (ex # rest) h =
        (case rec ex h of
           None \<Rightarrow> None
         | Some (Inl e, h1) \<Rightarrow> Some (Inl e, h1)
         | Some (Inr ext, h1) \<Rightarrow>
             (let (arr', h2) = st_uniqConcat arr ext h1
              in st_hierarchyLoop rec grants roleName rootRole arr' rest h2))"
      by auto
    note out = Cons.prems(3) [unfolded step]
    obtain r1 h1 where r: "rec ex h = Some (r1, h1)"
      using out by (cases "rec ex h") auto
    have f1: "fresh b h (r1, h1)"
      using Cons.prems(1) r by (rule rec)
    then have p1: "pres b h h1" by (simp add: fresh_def)
    have b1: "b \<le> length h1" using p1 Cons.prems(1) by (rule pres_length)
    show ?thesis
    proof (cases r1)
      case (Inl e)
      then have "out = (Inl e, h1)"
        using out r by simp
      then show ?thesis using p1 by (simp add: fresh_def)
    next
      case (Inr ext)
      obtain arr' h2 where u: "st_uniqConcat arr ext h1 = (arr', h2)"
        by (cases "st_uniqConcat arr ext h1") auto
      have p2: "pres b h1 h2" and a': "b \<le> arr'"
        using pres_uniqConcat [OF b1 u] by simp_all
      have b2: "b \<le> length h2" using p2 b1 by (rule pres_length)
      have "st_hierarchyLoop rec grants roleName rootRole arr' rest h2 = Some out"
        using out r Inr u by simp
      then have "fresh b h2 out"
        using b2 a' by (intro Cons.IH)
      then show ?thesis
        by (rule fresh_after [OF pres_trans [OF p1 p2]])
    qed
  qed
qed

lemma pres_getRoleHierarchyOf:
  "b \<le> length h \<Longrightarrow> st_getRoleHierarchyOf n grants roleName rootRole h = Some out \<Longrightarrow>
     fresh b h out"
proof (induction n arbitrary: roleName rootRole h out)
  case 0
  then show ?case by simp
next
  case (Suc n)
  show ?case
  proof (cases "map_of (grantsAt h grants) roleName")
    case None
    then have "out = (Inl RoleNotFound, h)"
      using Suc.prems(2) by simp
    then show ?thesis by (simp add: fresh_def pres_refl)
  next
    case (Some role)
    obtain arr h1 where a: "alloc (Arr [roleName]) h = (arr, h1)"
      by (cases "alloc (Arr [roleName]) h") auto
    have p1: "pres b h h1" and ar: "b \<le> arr"
      using pres_alloc [OF Suc.prems(1) a] by simp_all
    have b1: "b \<le> length h1" using p1 Suc.prems(1) by (rule pres_length)
    show ?thesis
    proof (cases "extendAt h1 role = None \<or> (\<exists>ext. extendAt h1 role = Some ext \<and> arrayAt h1 ext = [])")
      case True
      then have "out = (Inr arr, h1)"
        using Suc.prems(2) Some a by (auto split: option.splits)
      then show ?thesis using p1 ar by (simp add: fresh_def)
    next
      case False
      then obtain ext where ext: "extendAt h1 role = Some ext" "arrayAt h1 ext \<noteq> []"
        by auto
      have loop: "st_hierarchyLoop
              (\<lambda>ex. st_getRoleHierarchyOf n grants ex (jsOr rootRole (Some roleName)))
              grants roleName rootRole arr (arrayAt h1 ext) h1 = Some out"
        using Suc.prems(2) Some a ext by simp
      have "fresh b h1 out"
      proof (rule pres_hierarchyLoop [OF _ b1 ar loop])
        fix ex h0 out0
        assume "b \<le> length h0"
          and "st_getRoleHierarchyOf n grants ex (jsOr rootRole (Some roleName)) h0 = Some out0"
        then show "fresh b h0 out0" by (rule Suc.IH)
      qed
      then show ?thesis
        by (rule fresh_after [OF p1])
    qed
  qed
qed

lemma pres_flatLoop:
  "b \<le> length h \<Longrightarrow> b \<le> arr \<Longrightarrow> st_flatLoop n grants arr roles h = Some out \<Longrightarrow>
     fresh b h out"
proof (induction roles arbitrary: arr h)
  case Nil
  then show ?case by (auto simp: fresh_def pres_refl)
next
  case (Cons roleName rest)
  obtain r1 h1 where r: "st_getRoleHierarchyOf n grants roleName None h = Some (r1, h1)"
    using Cons.prems(3) by (auto split: option.splits)
  have "fresh b h (r1, h1)"
    using Cons.prems(1) r by (rule pres_getRoleHierarchyOf)
  then have p1: "pres b h h1" by (simp add: fresh_def)
  have b1: "b \<le> length h1" using p1 Cons.prems(1) by (rule pres_length)
  show ?case
  proof (cases r1)
    case (Inl e)
    then have "out = (Inl e, h1)"
      using Cons.prems(3) r by simp
    then show ?thesis using p1 by (simp add: fresh_def)
  next
    case (Inr hier)
    obtain arr' h2 where u: "st_uniqConcat arr hier h1 = (arr', h2)"
      by (cases "st_uniqConcat arr hier h1") auto
    have p2: "pres b h1 h2" and a': "b \<le> arr'"
      using pres_uniqConcat [OF b1 u] by simp_all
    have b2: "b \<le> length h2" using p2 b1 by (rule pres_length)
    have "st_flatLoop n grants arr' rest h2 = Some out"
      using Cons.prems(3) r Inr u by simp
    then have "fresh b h2 out"
      using b2 a' by (intro Cons.IH)
    then show ?thesis
      by (rule fresh_after [OF pres_trans [OF p1 p2]])
  qed
qed

lemma pres_getFlatRoles:
  assumes "b \<le> length h" and "st_getFlatRoles n grants roles h = Some out"
  shows "fresh b h out"
proof -
  obtain roles' h0 where r0: "(if hTruthy roles then (roles, h)
                          else (let (e, h') = alloc (Arr []) h in (HRef e, h'))) = (roles', h0)"
    by (cases "(if hTruthy roles then (roles, h)
                          else (let (e, h') = alloc (Arr []) h in (HRef e, h')))") auto
  have p0: "pres b h h0"
  proof (cases "hTruthy roles")
    case True
    then show ?thesis using r0 by (simp add: pres_refl)
  next
    case False
    then obtain e where "alloc (Arr []) h = (e, h0)"
      using r0 by (auto simp: Let_def split: prod.splits)
    then show ?thesis using pres_alloc [OF assms(1)] by simp
  qed
  have b0: "b \<le> length h0" using p0 assms(1) by (rule pres_length)
  obtain arrRoles h1 where t: "st_toStringArray roles' h0 = (arrRoles, h1)"
    by (cases "st_toStringArray roles' h0") auto
  have p1: "pres b h0 h1" using b0 t by (rule pres_toStringArray)
  have b1: "b \<le> length h1" using p1 b0 by (rule pres_length)
  have p01: "pres b h h1" using p0 p1 by (rule pres_trans)
  show ?thesis
  proof (cases "arrayAt h1 arrRoles = []")
    case True
    then have "out = (Inl InvalidRoles, h1)"
      using assms(2) r0 t by (simp add: st_getFlatRoles_def)
    then show ?thesis using p01 by (simp add: fresh_def)
  next
    case False
    obtain empty h2 where a: "alloc (Arr []) h1 = (empty, h2)"
      by (cases "alloc (Arr []) h1") auto
    obtain arr h3 where u: "st_uniqConcat empty arrRoles h2 = (arr, h3)"
      by (cases "st_uniqConcat empty arrRoles h2") auto
    have p2: "pres b h1 h2" using pres_alloc [OF b1 a] by simp
    have b2: "b \<le> length h2" using p2 b1 by (rule pres_length)
    have p3: "pres b h2 h3" and ar: "b \<le> arr"
      using pres_uniqConcat [OF b2 u] by simp_all
    have b3: "b \<le> length h3" using p3 b2 by (rule pres_length)
    have "st_flatLoop n grants arr (arrayAt h3 arrRoles) h3 = Some out"
      using assms(2) r0 t False a u by (simp add: st_getFlatRoles_def)
    then have "fresh b h3 out"
      using b3 ar by (intro pres_flatLoop)
    then show ?thesis
      by (rule fresh_after [OF pres_trans [OF p01 pres_trans [OF p2 p3]]])
  qed
qed

lemma roleAttrs_shape:
  assumes "st_roleAttrs grants query roleName h = (res, h')"
  shows "(h' = h \<and> (res = Inr None \<or> res = Inl TypeError))
       \<or> (\<exists>c. h' = h @ [c] \<and> res = Inr (Some (length h)))
       \<or> (\<exists>c d. h' = h @ [c, d] \<and> res = Inr (Some (Suc (length h))))"
  using assms
  by (auto simp: st_roleAttrs_def alloc_def Let_def
           split: hval.splits option.splits if_splits)

lemma pres_roleAttrs:
  assumes "b \<le> length h" and "st_roleAttrs grants query roleName h = (res, h')"
  shows "pres b h h' \<and> (\<forall>a. res = Inr (Some a) \<longrightarrow> b \<le> a)"
  using roleAttrs_shape [OF assms(2)] assms(1)
  by (auto simp: pres_def)

lemma pres_collectAttrs:
  "b \<le> length h \<Longrightarrow> list_all (\<lambda>a. b \<le> a) attrsList \<Longrightarrow>
   st_collectAttrs grants query attrsList roles h = (res, h') \<Longrightarrow>
     pres b h h' \<and> (\<forall>as. res = Inr as \<longrightarrow> list_all (\<lambda>a. b \<le> a) as)"
proof (induction roles arbitrary: attrsList h)
  case Nil
  then show ?case by (auto simp: pres_refl)
next
  case (Cons roleName rest)
  obtain r1 h1 where r: "st_roleAttrs grants query roleName h = (r1, h1)"
    by (cases "st_roleAttrs grants query roleName h") auto
  have p1: "pres b h h1" and a1: "\<forall>a. r1 = Inr (Some a) \<longrightarrow> b \<le> a"
    using pres_roleAttrs [OF Cons.prems(1) r] by simp_all
  have b1: "b \<le> length h1" using p1 Cons.prems(1) by (rule pres_length)
  show ?case
  proof (cases r1)
    case (Inl e)
    then have "res = Inl e" "h' = h1"
      using Cons.prems(3) r by simp_all
    then show ?thesis using p1 by simp
  next
    case (Inr v)
    show ?thesis
    proof (cases v)
      case None
      then have "st_collectAttrs grants query attrsList rest h1 = (res, h')"
        using Cons.prems(3) r Inr by simp
      then have "pres b h1 h' \<and> (\<forall>as. res = Inr as \<longrightarrow> list_all (\<lambda>a. b \<le> a) as)"
        using b1 Cons.prems(2) by (intro Cons.IH)
      then show ?thesis using pres_trans [OF p1] by simp
    next
      case (Some a)
      then have "st_collectAttrs grants query (attrsList @ [a]) rest h1 = (res, h')"
        using Cons.prems(3) r Inr by simp
      moreover have "list_all (\<lambda>a. b \<le> a) (attrsList @ [a])"
        using Cons.prems(2) a1 Inr Some by simp
      ultimately have "pres b h1 h' \<and> (\<forall>as. res = Inr as \<longrightarrow> list_all (\<lambda>a. b \<le> a) as)"
        using b1 by (intro Cons.IH)
      then show ?thesis using pres_trans [OF p1] by simp
    qed
  qed
qed

lemma pres_unionLoop:
  "b \<le> length h \<Longrightarrow> b \<le> attrs \<Longrightarrow> st_unionLoop globUnion attrs rest h = (res, h') \<Longrightarrow>
     pres b h h' \<and> b \<le> res"
proof (induction rest arbitrary: attrs h)
  case Nil
  then show ?case by (auto simp: pres_refl)
next
  case (Cons a rest)
  obtain attrs' h1 where al: "alloc (Arr (globUnion (arrayAt h attrs) (arrayAt h a))) h = (attrs', h1)"
    by (cases "alloc (Arr (globUnion (arrayAt h attrs) (arrayAt h a))) h") auto
  have p1: "pres b h h1" and a1: "b \<le> attrs'"
    using pres_alloc [OF Cons.prems(1) al] by simp_all
  have b1: "b \<le> length h1" using p1 Cons.prems(1) by (rule pres_length)
  have "st_unionLoop globUnion attrs' rest h1 = (res, h')"
    using Cons.prems(3) al by simp
  then have "pres b h1 h' \<and> b \<le> res"
    using b1 a1 by (intro Cons.IH)
  then show ?case using pres_trans [OF p1] by simp
qed

lemma pres_getUnionAttrsOfRoles:
  assumes "b \<le> length h" and "st_getUnionAttrsOfRoles globUnion n grants query h = Some out"
  shows "fresh b h out"
proof -
  obtain r1 h1 where nq: "st_normalizeQueryInfo query h = (r1, h1)"
    by (cases "st_normalizeQueryInfo query h") auto
  have p1: "pres b h h1"
    using pres_normalizeQueryInfo [OF assms(1) nq] by simp
  have b1: "b \<le> length h1" using p1 assms(1) by (rule pres_length)
  show ?thesis
  proof (cases r1)
    case (Inl e)
    then have "out = (Inl e, h1)"
      using assms(2) nq by (simp add: st_getUnionAttrsOfRoles_def)
    then show ?thesis using p1 by (simp add: fresh_def)
  next
    case (Inr query')
    then obtain r2 h2 where fr: "st_getFlatRoles n grants (hq_role (queryAt h1 query')) h1 = Some (r2, h2)"
      using assms(2) nq by (auto simp: st_getUnionAttrsOfRoles_def split: option.splits)
    have "fresh b h1 (r2, h2)"
      using b1 fr by (rule pres_getFlatRoles)
    then have p2: "pres b h1 h2" by (simp add: fresh_def)
    have b2: "b \<le> length h2" using p2 b1 by (rule pres_length)
    have p12: "pres b h h2" by (rule pres_trans [OF p1 p2])
    show ?thesis
    proof (cases r2)
      case (Inl e)
      then have "out = (Inl e, h2)"
        using assms(2) nq Inr fr by (simp add: st_getUnionAttrsOfRoles_def)
      then show ?thesis using p12 by (simp add: fresh_def)
    next
      case roles: (Inr roles)
      obtain r3 h3 where ca: "st_collectAttrs grants query' [] (arrayAt h2 roles) h2 = (r3, h3)"
        by (cases "st_collectAttrs grants query' [] (arrayAt h2 roles) h2") auto
      have p3: "pres b h2 h3" and l3: "\<forall>as. r3 = Inr as \<longrightarrow> list_all (\<lambda>a. b \<le> a) as"
        using pres_collectAttrs [OF b2 _ ca] by simp_all
      have b3: "b \<le> length h3" using p3 b2 by (rule pres_length)
      have p13: "pres b h h3" by (rule pres_trans [OF p12 p3])
      show ?thesis
      proof (cases r3)
        case (Inl e)
        then have "out = (Inl e, h3)"
          using assms(2) nq Inr fr roles ca by (simp add: st_getUnionAttrsOfRoles_def)
        then show ?thesis using p13 by (simp add: fresh_def)
      next
        case attrsList: (Inr attrsList)
        show ?thesis
        proof (cases attrsList)
          case Nil
          obtain attrs h4 where al: "alloc (Arr []) h3 = (attrs, h4)"
            by (cases "alloc (Arr []) h3") auto
          have "out = (Inr attrs, h4)"
            using assms(2) nq Inr fr roles ca attrsList Nil al
            by (simp add: st_getUnionAttrsOfRoles_def)
          moreover have "pres b h3 h4 \<and> b \<le> attrs"
            using b3 al by (rule pres_alloc)
          ultimately show ?thesis
            using pres_trans [OF p13] by (simp add: fresh_def)
        next
          case (Cons a rest)
          obtain attrs h4 where ul: "st_unionLoop globUnion a rest h3 = (attrs, h4)"
            by (cases "st_unionLoop globUnion a rest h3") auto
          have "b \<le> a"
            using l3 attrsList Cons by simp
          then have "pres b h3 h4 \<and> b \<le> attrs"
            using b3 ul by (intro pres_unionLoop)
          moreover have "out = (Inr attrs, h4)"
            using assms(2) nq Inr fr roles ca attrsList Cons ul
            by (simp add: st_getUnionAttrsOfRoles_def)
          ultimately show ?thesis
            using pres_trans [OF p13] by (simp add: fresh_def)
        qed
      qed
    qed
  qed
qed

lemma videoStore_query:
  "st_getUnionAttrsOfRoles (@) 1 3 4 videoStore =
     Some (Inr 11, videoStore @
       [Query \<lparr>hq_role = HRef 6, hq_resource = HStr ''video'', hq_action = Some ''create'',
               hq_possession = Some ''own''\<rparr>,
        Arr [''u''], Arr [], Arr [''u''], Arr [''u''], Arr [''u''], Arr [''*'']])"
  by code_simp

lemma loop_below_root:
  "getRoleHierarchyOf n loopTable ''B'' (Some ''A'') = None
   \<and> getRoleHierarchyOf n loopTable ''C'' (Some ''A'') = None"
proof (induction n)
  case 0
  then show ?case by simp
next
  case (Suc n)
  then show ?case
    by (simp add: loopTable_def jsOr_def truthyStr_def)
qed

lemma loop_never_returns: "getRoleHierarchyOf n loopTable ''A'' None = None"
proof (cases n)
  case 0
  then show ?thesis by simp
next
  case (Suc m)
  have "getRoleHierarchyOf m loopTable ''B'' (Some ''A'') = None"
    using loop_below_root [of m] by simp
  then show ?thesis
    unfolding Suc by (simp add: loopTable_def jsOr_def truthyStr_def)
qed

lemma commitResources_frozen:
  assumes "resource \<noteq> []"
  shows "\<exists>e. commitResources True ap attributes grantItem resource = (grantItem, Raised e)
            \<and> (e = InvalidName \<or> e = ReservedName \<or> e = TypeError)"
proof -
  from assms obtain res rest where r: "resource = res # rest"
    by (cases resource) auto
  show ?thesis
    unfolding r by (auto simp: hasOwnProperty_def split: sum.splits dest: validName_errors)
qed

lemma commitRoles_frozen:
  assumes "roles \<noteq> []" and "resource \<noteq> []"
  shows "\<exists>e. commitRoles True ap attributes resource g roles = (g, Raised e)
            \<and> (e = InvalidName \<or> e = ReservedName \<or> e = TypeError)"
proof -
  from assms obtain role rest where r: "roles = role # rest"
    by (cases roles) auto
  show ?thesis
  proof (cases "validName role True")
    case (Inl e)
    then show ?thesis
      unfolding r using validName_errors [OF Inl] by auto
  next
    case (Inr b)
    show ?thesis
    proof (cases "map_of g ''hasOwnProperty'' = None")
      case False
      then show ?thesis unfolding r using Inr by (simp add: hasOwnProperty_def)
    next
      case True
      show ?thesis
      proof (cases "map_of g role")
        case None
        then show ?thesis unfolding r using Inr True by (simp add: hasOwnProperty_def)
      next
        case (Some grantItem)
        from commitResources_frozen [OF assms(2), of ap attributes grantItem] obtain e where
          e: "commitResources True ap attributes grantItem resource = (grantItem, Raised e)"
             "e = InvalidName \<or> e = ReservedName \<or> e = TypeError"
          by blast
        have "AList.update role grantItem g = g"
          using Some by (rule update_triv)
        then show ?thesis
          unfolding r using Inr True Some e by (simp add: hasOwnProperty_def)
      qed
    qed
  qed
qed

lemma commit_frozen:
  "\<exists>e. commitToGrants True g access all = (g, Raised e) \<and> e \<in> commitErrors"
proof (cases "normalizeAccessInfo access all")
  case (Inl e)
  then show ?thesis
    using normalizeAccessInfo_errors [OF Inl] by (auto simp: commitToGrants_def commitErrors_def)
next
  case (Inr ai)
  from normalizeAccessInfo_nonempty [OF Inr] have ne: "na_role ai \<noteq> []" "na_resource ai \<noteq> []"
    by simp_all
  from commitRoles_frozen [OF ne, of "strOf (na_action ai) @ '':'' @ strOf (na_possession ai)"
      "na_attributes ai" g]
  show ?thesis
    using Inr by (auto simp: commitToGrants_def commitErrors_def)
qed

lemma commitResources_step:
  "commitResources False ap attributes grantItem (res # rest) =
     (case validName res True of
        Inl e \<Rightarrow> (grantItem, Raised e)
      | Inr b \<Rightarrow>
          if map_of (r_resources grantItem) ''hasOwnProperty'' \<noteq> None
          then (grantItem, Raised TypeError)
          else if map_of (r_resources grantItem) res = None \<and> res = ''__proto__''
          then (grantItem, OffTable)
          else commitResources False ap attributes (setRule ap attributes grantItem res) rest)"
  by (auto simp: hasOwnProperty_def setRule_def update_conv' split: sum.splits option.splits)

lemma ruleSet_setRule_same: "ruleSet ap attributes (setRule ap attributes grantItem res) res"
  by (simp add: ruleSet_def setRule_def update_conv')

lemma ruleSet_setRule_other:
  "ruleSet ap attributes grantItem x \<Longrightarrow> ruleSet ap attributes (setRule ap attributes grantItem res) x"
  by (auto simp: ruleSet_def setRule_def update_conv' split: option.splits)

lemma setRule_done:
  "ruleSet ap attributes grantItem res \<Longrightarrow> setRule ap attributes grantItem res = grantItem"
  by (auto simp: ruleSet_def setRule_def update_triv split: option.splits)

lemma setRule_frame:
  "k \<noteq> res \<Longrightarrow> map_of (r_resources (setRule ap attributes grantItem res)) k
                  = map_of (r_resources grantItem) k"
  by (simp add: setRule_def update_conv')

lemma itemRule_setRule:
  "itemRule (setRule ap attributes grantItem res) r a
     = (if r = res \<and> a = ap then Some attributes else itemRule grantItem r a)"
  by (auto simp: itemRule_def setRule_def update_conv' split: option.splits)

lemma commitResources_cases:
  assumes "commitResources False ap attributes grantItem (res # rest) = (grantItem', out)"
  obtains (stop) "grantItem' = grantItem" "out \<noteq> Returned"
      "commitResources False ap attributes grantItem (res # rest) = (grantItem, out)"
    | (go) b where "validName res True = Inr b"
      "map_of (r_resources grantItem) ''hasOwnProperty'' = None"
      "\<not> (map_of (r_resources grantItem) res = None \<and> res = ''__proto__'')"
      "commitResources False ap attributes (setRule ap attributes grantItem res) rest
         = (grantItem', out)"
  using assms
  by (auto simp del: commitResources.simps(2) simp add: commitResources_step
           split: sum.splits if_splits)

lemma commitResources_keeps:
  "commitResources False ap attributes grantItem resource = (grantItem', out) \<Longrightarrow>
     ruleSet ap attributes grantItem x \<Longrightarrow> ruleSet ap attributes grantItem' x"
proof (induction resource arbitrary: grantItem)
  case Nil
  then show ?case by simp
next
  case (Cons res rest)
  from Cons.prems(1) show ?case
  proof (cases rule: commitResources_cases)
    case stop
    then show ?thesis using Cons.prems(2) by simp
  next
    case (go b)
    show ?thesis
      using go(4) Cons.prems(2) by (rule Cons.IH [OF _ ruleSet_setRule_other])
  qed
qed

lemma commitResources_frame:
  "commitResources False ap attributes grantItem resource = (grantItem', out) \<Longrightarrow>
     k \<notin> set resource \<Longrightarrow> map_of (r_resources grantItem') k = map_of (r_resources grantItem) k"
proof (induction resource arbitrary: grantItem)
  case Nil
  then show ?case by simp
next
  case (Cons res rest)
  from Cons.prems(1) show ?case
  proof (cases rule: commitResources_cases)
    case stop
    then show ?thesis by simp
  next
    case (go b)
    have "map_of (r_resources grantItem') k
            = map_of (r_resources (setRule ap attributes grantItem res)) k"
      using go(4) Cons.prems(2) by (intro Cons.IH) simp_all
    then show ?thesis
      using Cons.prems(2) by (simp add: setRule_frame)
  qed
qed

lemma commitResources_sets:
  "commitResources False ap attributes grantItem resource = (grantItem', Returned) \<Longrightarrow>
     list_all (ruleSet ap attributes grantItem') resource
     \<and> list_all (\<lambda>res. \<exists>b. validName res True = Inr b) resource"
proof (induction resource arbitrary: grantItem)
  case Nil
  then show ?case by simp
next
  case (Cons res rest)
  from Cons.prems(1) show ?case
  proof (cases rule: commitResources_cases)
    case stop
    then show ?thesis by simp
  next
    case (go b)
    have "ruleSet ap attributes grantItem' res"
      using go(4) ruleSet_setRule_same by (rule commitResources_keeps)
    then show ?thesis
      using Cons.IH [OF go(4)] go(1) by simp
  qed
qed

lemma commitResources_rules:
  "commitResources False ap attributes grantItem resource = (grantItem', Returned) \<Longrightarrow>
     itemRule grantItem' r a
       = (if r \<in> set resource \<and> a = ap then Some attributes else itemRule grantItem r a)"
proof (induction resource arbitrary: grantItem)
  case Nil
  then show ?case by simp
next
  case (Cons res rest)
  from Cons.prems(1) show ?case
  proof (cases rule: commitResources_cases)
    case stop
    then show ?thesis by simp
  next
    case (go b)
    show ?thesis
      using Cons.IH [OF go(4)] by (simp add: itemRule_setRule)
  qed
qed

lemma commitResources_done:
  "list_all (ruleSet ap attributes grantItem) resource \<Longrightarrow>
   list_all (\<lambda>res. \<exists>b. validName res True = Inr b) resource \<Longrightarrow>
     commitResources False ap attributes grantItem resource
       = (grantItem, if resource \<noteq> [] \<and> map_of (r_resources grantItem) ''hasOwnProperty'' \<noteq> None
                     then Raised TypeError else Returned)"
proof (induction resource)
  case Nil
  then show ?case by simp
next
  case (Cons res rest)
  from Cons.prems obtain b where b: "validName res True = Inr b"
    and own: "map_of (r_resources grantItem) res \<noteq> None"
    and same: "setRule ap attributes grantItem res = grantItem"
    by (auto simp: ruleSet_def setRule_done split: option.splits)
  show ?case
    using Cons b own same
    by (auto simp del: commitResources.simps(2) simp add: commitResources_step)
qed

lemma commitResources_again:
  "commitResources False ap attributes grantItem resource = (grantItem', out) \<Longrightarrow>
     \<exists>out'. commitResources False ap attributes grantItem' resource = (grantItem', out')
        \<and> (out' = out \<or> out' = Raised TypeError)
        \<and> (''hasOwnProperty'' \<notin> set resource \<longrightarrow> out' = out)"
proof (induction resource arbitrary: grantItem)
  case Nil
  then show ?case by simp
next
  case (Cons res rest)
  from Cons.prems(1) show ?case
  proof (cases rule: commitResources_cases)
    case stop
    then show ?thesis by simp
  next
    case (go b)
    from Cons.IH [OF go(4)] obtain out1 where
      o: "commitResources False ap attributes grantItem' rest = (grantItem', out1)"
         "out1 = out \<or> out1 = Raised TypeError"
         "''hasOwnProperty'' \<notin> set rest \<longrightarrow> out1 = out"
      by blast
    have "ruleSet ap attributes grantItem' res"
      using go(4) ruleSet_setRule_same by (rule commitResources_keeps)
    then have d: "setRule ap attributes grantItem' res = grantItem'"
      and own: "map_of (r_resources grantItem') res \<noteq> None"
      by (auto simp: setRule_done ruleSet_def split: option.splits)
    show ?thesis
    proof (cases "map_of (r_resources grantItem') ''hasOwnProperty'' = None")
      case True
      then have "commitResources False ap attributes grantItem' (res # rest) = (grantItem', out1)"
        using go(1) own d o(1)
        by (auto simp del: commitResources.simps(2) simp add: commitResources_step)
      then show ?thesis using o(2,3) by simp
    next
      case False
      then have 1: "commitResources False ap attributes grantItem' (res # rest)
                      = (grantItem', Raised TypeError)"
        using go(1) by (simp del: commitResources.simps(2) add: commitResources_step)
      have "''hasOwnProperty'' \<in> set (res # rest)"
      proof (rule ccontr)
        assume n: "''hasOwnProperty'' \<notin> set (res # rest)"
        have "map_of (r_resources grantItem') ''hasOwnProperty''
                = map_of (r_resources grantItem) ''hasOwnProperty''"
          using Cons.prems(1) n by (rule commitResources_frame)
        then show False using False go(2) by simp
      qed
      then show ?thesis using 1 by simp
    qed
  qed
qed

lemma commitResources_plain:
  "validNames resource \<Longrightarrow> plainNames resource \<Longrightarrow>
   map_of (r_resources grantItem) ''hasOwnProperty'' = None \<Longrightarrow>
     \<exists>grantItem'. commitResources False ap attributes grantItem resource = (grantItem', Returned)
        \<and> map_of (r_resources grantItem') ''hasOwnProperty'' = None"
proof (induction resource arbitrary: grantItem)
  case Nil
  then show ?case by simp
next
  case (Cons res rest)
  have v: "validName res True = Inr True" "validNames rest"
    using Cons.prems(1) by (simp_all add: validNames_def)
  have p: "res \<noteq> ''hasOwnProperty''" "res \<noteq> ''__proto__''" "plainNames rest"
    using Cons.prems(2) by (auto simp: plainNames_def)
  have "map_of (r_resources (setRule ap attributes grantItem res)) ''hasOwnProperty'' = None"
    using p(1) Cons.prems(3) by (simp add: setRule_frame)
  from Cons.IH [OF v(2) p(3) this]
  show ?case
    using v(1) p(2) Cons.prems(3)
    by (simp del: commitResources.simps(2) add: commitResources_step)
qed

lemma commitResources_errors:
  "commitResources False ap attributes grantItem resource = (grantItem', Raised e) \<Longrightarrow>
     e = InvalidName \<or> e = ReservedName \<or> e = TypeError"
proof (induction resource arbitrary: grantItem)
  case Nil
  then show ?case by simp
next
  case (Cons res rest)
  show ?case
  proof (cases "validName res True")
    case (Inl err)
    then show ?thesis
      using Cons.prems validName_errors [OF Inl]
      by (auto simp del: commitResources.simps(2) simp add: commitResources_step)
  next
    case (Inr b)
    then show ?thesis
      using Cons.prems Cons.IH
      by (auto simp del: commitResources.simps(2) simp add: commitResources_step split: if_splits)
  qed
qed

lemma itemOf_update:
  "itemOf (AList.update role grantItem g) x = (if x = role then grantItem else itemOf g x)"
  by (simp add: itemOf_def update_conv')

lemma ruleOf_update:
  "ruleOf (AList.update role grantItem g) x r a
     = (if x = role then itemRule grantItem r a else ruleOf g x r a)"
  by (simp add: ruleOf_def itemRule_def update_conv')

lemma itemRule_itemOf: "itemRule (itemOf g role) r a = ruleOf g role r a"
  by (simp add: itemRule_def itemOf_def ruleOf_def emptyRole_def split: option.splits)

lemma commitRoles_step:
  "commitRoles False ap attributes resource g (role # rest) =
     (case validName role True of
        Inl e \<Rightarrow> (g, Raised e)
      | Inr b \<Rightarrow>
          if map_of g ''hasOwnProperty'' \<noteq> None then (g, Raised TypeError)
          else if map_of g role = None \<and> role = ''__proto__'' then (g, OffTable)
          else (case commitResources False ap attributes (itemOf g role) resource of
                  (grantItem', out) \<Rightarrow>
                    if out = Returned
                    then commitRoles False ap attributes resource (AList.update role grantItem' g) rest
                    else (AList.update role grantItem' g, out)))"
  by (auto simp: hasOwnProperty_def itemOf_def update_conv' split: sum.splits option.splits prod.splits)

lemma commitRoles_cases:
  assumes "commitRoles False ap attributes resource g (role # rest) = (g', out)"
  obtains (stop) "g' = g" "out \<noteq> Returned"
        "out = OffTable \<or> out = Raised TypeError \<or> (\<exists>e. validName role True = Inl e \<and> out = Raised e)"
    | (fail) b grantItem' where "validName role True = Inr b"
        "map_of g ''hasOwnProperty'' = None"
        "\<not> (map_of g role = None \<and> role = ''__proto__'')"
        "commitResources False ap attributes (itemOf g role) resource = (grantItem', out)"
        "out \<noteq> Returned" "g' = AList.update role grantItem' g"
    | (go) b grantItem' where "validName role True = Inr b"
        "map_of g ''hasOwnProperty'' = None"
        "\<not> (map_of g role = None \<and> role = ''__proto__'')"
        "commitResources False ap attributes (itemOf g role) resource = (grantItem', Returned)"
        "commitRoles False ap attributes resource (AList.update role grantItem' g) rest = (g', out)"
proof (cases "validName role True")
  case (Inl e)
  then show ?thesis
    using assms stop by (auto simp del: commitRoles.simps(2) simp add: commitRoles_step)
next
  case (Inr b)
  obtain grantItem' o1 where r: "commitResources False ap attributes (itemOf g role) resource
                                   = (grantItem', o1)"
    by (cases "commitResources False ap attributes (itemOf g role) resource") auto
  show ?thesis
  proof (cases "map_of g ''hasOwnProperty'' = None
                  \<and> \<not> (map_of g role = None \<and> role = ''__proto__'')")
    case False
    have "g' = g \<and> (out = OffTable \<or> out = Raised TypeError)"
      using assms Inr False
      by (auto simp del: commitRoles.simps(2) simp add: commitRoles_step split: if_splits)
    then show ?thesis
      using stop by auto
  next
    case True
    note t1 = True [THEN conjunct1]
    note t2 = True [THEN conjunct2]
    show ?thesis
    proof (cases "o1 = Returned")
      case True
      have "commitRoles False ap attributes resource (AList.update role grantItem' g) rest = (g', out)"
        using assms Inr t1 t2 r True
        by (auto simp del: commitRoles.simps(2) simp add: commitRoles_step)
      then show ?thesis
        by (rule go [OF Inr t1 t2 r [unfolded True]])
    next
      case False
      have e: "g' = AList.update role grantItem' g" "out = o1"
        using assms Inr t1 t2 r False
        by (auto simp del: commitRoles.simps(2) simp add: commitRoles_step)
      show ?thesis
        using False by (intro fail [OF Inr t1 t2 r [folded e(2)] _ e(1)]) (simp add: e(2))
    qed
  qed
qed

lemma roleDone_update_same:
  "list_all (ruleSet ap attributes grantItem) resource \<Longrightarrow>
     roleDone ap attributes resource (AList.update role grantItem g) role"
  by (simp add: roleDone_def update_conv')

lemma roleDone_update_other:
  "roleDone ap attributes resource g x \<Longrightarrow> x \<noteq> role \<Longrightarrow>
     roleDone ap attributes resource (AList.update role grantItem g) x"
  by (simp add: roleDone_def update_conv')

lemma roleDone_item:
  "roleDone ap attributes resource g x \<Longrightarrow>
     map_of g x = Some (itemOf g x) \<and> list_all (ruleSet ap attributes (itemOf g x)) resource"
  by (auto simp: roleDone_def itemOf_def split: option.splits)

lemma roleDone_step:
  assumes "commitResources False ap attributes (itemOf g role) resource = (grantItem', out)"
      and "roleDone ap attributes resource g x"
  shows "roleDone ap attributes resource (AList.update role grantItem' g) x"
proof (cases "x = role")
  case True
  have "list_all (ruleSet ap attributes (itemOf g role)) resource"
    using assms(2) True roleDone_item by blast
  then have "list_all (ruleSet ap attributes grantItem') resource"
    using commitResources_keeps [OF assms(1)] by (auto simp: list_all_iff)
  then show ?thesis
    unfolding True by (rule roleDone_update_same)
next
  case False
  then show ?thesis
    using assms(2) by (intro roleDone_update_other)
qed

lemma commitRoles_keeps:
  "commitRoles False ap attributes resource g roles = (g', out) \<Longrightarrow>
     roleDone ap attributes resource g x \<Longrightarrow> roleDone ap attributes resource g' x"
proof (induction roles arbitrary: g)
  case Nil
  then show ?case by simp
next
  case (Cons role rest)
  from Cons.prems(1) show ?case
  proof (cases rule: commitRoles_cases)
    case stop
    then show ?thesis using Cons.prems(2) by simp
  next
    case (fail b grantItem')
    show ?thesis
      unfolding fail(6) using fail(4) Cons.prems(2) by (rule roleDone_step)
  next
    case (go b grantItem')
    have "roleDone ap attributes resource (AList.update role grantItem' g) x"
      using go(4) Cons.prems(2) by (rule roleDone_step)
    with go(5) show ?thesis by (rule Cons.IH)
  qed
qed

lemma commitRoles_frame:
  "commitRoles False ap attributes resource g roles = (g', out) \<Longrightarrow>
     k \<notin> set roles \<Longrightarrow> map_of g' k = map_of g k"
proof (induction roles arbitrary: g)
  case Nil
  then show ?case by simp
next
  case (Cons role rest)
  from Cons.prems(1) show ?case
  proof (cases rule: commitRoles_cases)
    case stop
    then show ?thesis by simp
  next
    case (fail b grantItem')
    show ?thesis
      unfolding fail(6) using Cons.prems(2) by (simp add: update_conv')
  next
    case (go b grantItem')
    have "map_of g' k = map_of (AList.update role grantItem' g) k"
      using go(5) Cons.prems(2) by (intro Cons.IH) simp_all
    then show ?thesis
      using Cons.prems(2) by (simp add: update_conv')
  qed
qed

lemma commitRoles_item_frame:
  "commitRoles False ap attributes resource g roles = (g', out) \<Longrightarrow>
     k \<notin> set resource \<Longrightarrow>
     map_of (r_resources (itemOf g' x)) k = map_of (r_resources (itemOf g x)) k"
proof (induction roles arbitrary: g)
  case Nil
  then show ?case by simp
next
  case (Cons role rest)
  have step: "map_of (r_resources (itemOf (AList.update role grantItem' g) x)) k
                = map_of (r_resources (itemOf g x)) k"
    if "commitResources False ap attributes (itemOf g role) resource = (grantItem', o1)"
    for grantItem' o1
    using commitResources_frame [OF that Cons.prems(2)] by (simp add: itemOf_update)
  from Cons.prems(1) show ?case
  proof (cases rule: commitRoles_cases)
    case stop
    then show ?thesis by simp
  next
    case (fail b grantItem')
    show ?thesis
      unfolding fail(6) using fail(4) by (rule step)
  next
    case (go b grantItem')
    have "map_of (r_resources (itemOf g' x)) k
            = map_of (r_resources (itemOf (AList.update role grantItem' g) x)) k"
      using go(5) Cons.prems(2) by (rule Cons.IH)
    then show ?thesis
      using step [OF go(4)] by simp
  qed
qed

lemma commitRoles_rules:
  "commitRoles False ap attributes resource g roles = (g', Returned) \<Longrightarrow>
     ruleOf g' x r a
       = (if x \<in> set roles \<and> r \<in> set resource \<and> a = ap then Some attributes else ruleOf g x r a)"
proof (induction roles arbitrary: g)
  case Nil
  then show ?case by simp
next
  case (Cons role rest)
  from Cons.prems(1) show ?case
  proof (cases rule: commitRoles_cases)
    case stop
    then show ?thesis by simp
  next
    case (fail b grantItem')
    then show ?thesis by simp
  next
    case (go b grantItem')
    show ?thesis
      using Cons.IH [OF go(5)] commitResources_rules [OF go(4), of r a]
      by (auto simp: ruleOf_update itemRule_itemOf)
  qed
qed

lemma commitRoles_sets:
  "commitRoles False ap attributes resource g roles = (g', Returned) \<Longrightarrow>
     list_all (roleDone ap attributes resource g') roles"
proof (induction roles arbitrary: g)
  case Nil
  then show ?case by simp
next
  case (Cons role rest)
  from Cons.prems(1) show ?case
  proof (cases rule: commitRoles_cases)
    case stop
    then show ?thesis by simp
  next
    case (fail b grantItem')
    then show ?thesis by simp
  next
    case (go b grantItem')
    have "roleDone ap attributes resource (AList.update role grantItem' g) role"
      using commitResources_sets [OF go(4)] by (intro roleDone_update_same) simp
    then have "roleDone ap attributes resource g' role"
      by (rule commitRoles_keeps [OF go(5)])
    then show ?thesis
      using Cons.IH [OF go(5)] by simp
  qed
qed

lemma unshadowed_table: "unshadowed g \<Longrightarrow> map_of g ''hasOwnProperty'' = None"
  by (auto simp: unshadowed_def list_all_iff map_of_eq_None_iff)

lemma unshadowed_item:
  "unshadowed g \<Longrightarrow> map_of (r_resources (itemOf g role)) ''hasOwnProperty'' = None"
proof (cases "map_of g role")
  case None
  then show ?thesis by (simp add: itemOf_def emptyRole_def)
next
  case (Some grantItem)
  assume u: "unshadowed g"
  have "(role, grantItem) \<in> set g"
    using Some by (rule map_of_SomeD)
  then show ?thesis
    using u Some by (auto simp: unshadowed_def list_all_iff itemOf_def)
qed

lemma unshadowed_update:
  "unshadowed g \<Longrightarrow> role \<noteq> ''hasOwnProperty'' \<Longrightarrow>
   map_of (r_resources grantItem) ''hasOwnProperty'' = None \<Longrightarrow>
     unshadowed (AList.update role grantItem g)"
  by (induction g) (auto simp: unshadowed_def)

lemma commitRoles_plain:
  "validNames roles \<Longrightarrow> validNames resource \<Longrightarrow> plainNames roles \<Longrightarrow> plainNames resource \<Longrightarrow>
   unshadowed g \<Longrightarrow>
     \<exists>g'. commitRoles False ap attributes resource g roles = (g', Returned) \<and> unshadowed g'"
proof (induction roles arbitrary: g)
  case Nil
  then show ?case by simp
next
  case (Cons role rest)
  have v: "validName role True = Inr True" "validNames rest"
    using Cons.prems(1) by (simp_all add: validNames_def)
  have p: "role \<noteq> ''hasOwnProperty''" "role \<noteq> ''__proto__''" "plainNames rest"
    using Cons.prems(3) by (auto simp: plainNames_def)
  obtain grantItem' where
    r: "commitResources False ap attributes (itemOf g role) resource = (grantItem', Returned)"
    and u: "map_of (r_resources grantItem') ''hasOwnProperty'' = None"
    using commitResources_plain [OF Cons.prems(2,4) unshadowed_item [OF Cons.prems(5)]]
    by blast
  have "unshadowed (AList.update role grantItem' g)"
    using Cons.prems(5) p(1) u by (rule unshadowed_update)
  from Cons.IH [OF v(2) Cons.prems(2) p(3) Cons.prems(4) this]
  show ?case
    using v(1) p(2) r unshadowed_table [OF Cons.prems(5)]
    by (simp del: commitRoles.simps(2) add: commitRoles_step)
qed

lemma commitRoles_errors:
  "commitRoles False ap attributes resource g roles = (g', Raised e) \<Longrightarrow>
     e = InvalidName \<or> e = ReservedName \<or> e = TypeError"
proof (induction roles arbitrary: g)
  case Nil
  then show ?case by simp
next
  case (Cons role rest)
  show ?case
  proof (cases "validName role True")
    case (Inl err)
    then show ?thesis
      using Cons.prems validName_errors [OF Inl]
      by (auto simp del: commitRoles.simps(2) simp add: commitRoles_step)
  next
    case (Inr b)
    from Cons.prems show ?thesis
    proof (cases rule: commitRoles_cases)
      case stop
      then show ?thesis
        using Inr by auto
    next
      case (fail b grantItem')
      then show ?thesis using commitResources_errors by blast
    next
      case (go b grantItem')
      then show ?thesis using Cons.IH by blast
    qed
  qed
qed

lemma commitResources_unshadowed:
  "commitResources False ap attributes grantItem resource = (grantItem', Returned) \<Longrightarrow>
     resource \<noteq> [] \<Longrightarrow> map_of (r_resources grantItem) ''hasOwnProperty'' = None"
proof (cases resource)
  case Nil
  assume "resource \<noteq> []"
  then show ?thesis using Nil by simp
next
  case (Cons res rest)
  assume "commitResources False ap attributes grantItem resource = (grantItem', Returned)"
  then have "commitResources False ap attributes grantItem (res # rest) = (grantItem', Returned)"
    unfolding Cons .
  then show ?thesis
    by (cases rule: commitResources_cases) simp_all
qed

lemma commitRoles_again:
  "commitRoles False ap attributes resource g roles = (g', out) \<Longrightarrow>
     \<exists>out'. commitRoles False ap attributes resource g' roles = (g', out')
        \<and> (out' = out \<or> out' = Raised TypeError)
        \<and> (''hasOwnProperty'' \<notin> set roles \<and> ''hasOwnProperty'' \<notin> set resource \<longrightarrow> out' = out)"
proof (induction roles arbitrary: g)
  case Nil
  then show ?case by simp
next
  case (Cons role rest)
  from Cons.prems show ?case
  proof (cases rule: commitRoles_cases)
    case stop
    then show ?thesis using Cons.prems by simp
  next
    case (fail b grantItem')
    let ?g2 = "AList.update role grantItem' g"
    from commitResources_again [OF fail(4)] obtain o1 where
      o: "commitResources False ap attributes grantItem' resource = (grantItem', o1)"
         "o1 = out \<or> o1 = Raised TypeError"
         "''hasOwnProperty'' \<notin> set resource \<longrightarrow> o1 = out"
      by blast
    have ne: "o1 \<noteq> Returned" using o(2) fail(5) by auto
    have io: "itemOf ?g2 role = grantItem'" by (simp add: itemOf_update)
    have own: "map_of ?g2 role = Some grantItem'" by (simp add: update_conv')
    have upd: "AList.update role grantItem' ?g2 = ?g2"
      using own by (rule update_triv)
    show ?thesis
    proof (cases "map_of ?g2 ''hasOwnProperty'' = None")
      case True
      have "commitRoles False ap attributes resource ?g2 (role # rest) = (?g2, o1)"
        using fail(1) True own io o(1) ne upd
        by (auto simp del: commitRoles.simps(2) simp add: commitRoles_step)
      then show ?thesis unfolding fail(6) using o(2,3) by simp
    next
      case False
      have 1: "commitRoles False ap attributes resource ?g2 (role # rest) = (?g2, Raised TypeError)"
        using fail(1) False by (auto simp del: commitRoles.simps(2) simp add: commitRoles_step)
      have "role = ''hasOwnProperty''"
        using False fail(2) by (auto simp: update_conv' split: if_splits)
      then show ?thesis unfolding fail(6) using 1 by simp
    qed
  next
    case (go b grantItem')
    from Cons.IH [OF go(5)] obtain o2 where
      o: "commitRoles False ap attributes resource g' rest = (g', o2)"
         "o2 = out \<or> o2 = Raised TypeError"
         "''hasOwnProperty'' \<notin> set rest \<and> ''hasOwnProperty'' \<notin> set resource \<longrightarrow> o2 = out"
      by blast
    have "roleDone ap attributes resource (AList.update role grantItem' g) role"
      using commitResources_sets [OF go(4)] by (intro roleDone_update_same) simp
    then have rd: "roleDone ap attributes resource g' role"
      by (rule commitRoles_keeps [OF go(5)])
    have own: "map_of g' role = Some (itemOf g' role)"
      and all: "list_all (ruleSet ap attributes (itemOf g' role)) resource"
      using roleDone_item [OF rd] by simp_all
    have valid: "list_all (\<lambda>res. \<exists>b. validName res True = Inr b) resource"
      using commitResources_sets [OF go(4)] by simp
    note d = commitResources_done [OF all valid]
    have upd: "AList.update role (itemOf g' role) g' = g'"
      using own by (rule update_triv)
    show ?thesis
    proof (cases "map_of g' ''hasOwnProperty'' = None")
      case False
      have 1: "commitRoles False ap attributes resource g' (role # rest) = (g', Raised TypeError)"
        using go(1) False by (auto simp del: commitRoles.simps(2) simp add: commitRoles_step)
      have "''hasOwnProperty'' \<in> set (role # rest)"
      proof (rule ccontr)
        assume n: "''hasOwnProperty'' \<notin> set (role # rest)"
        have "map_of g' ''hasOwnProperty'' = map_of g ''hasOwnProperty''"
          using Cons.prems n by (rule commitRoles_frame)
        then show False using False go(2) by simp
      qed
      then show ?thesis using 1 by simp
    next
      case True
      show ?thesis
      proof (cases "resource \<noteq> [] \<and> map_of (r_resources (itemOf g' role)) ''hasOwnProperty'' \<noteq> None")
        case False
        then have "commitResources False ap attributes (itemOf g' role) resource
                     = (itemOf g' role, Returned)"
          using d by auto
        then have "commitRoles False ap attributes resource g' (role # rest) = (g', o2)"
          using go(1) True own upd o(1)
          by (auto simp del: commitRoles.simps(2) simp add: commitRoles_step)
        then show ?thesis using o(2,3) by simp
      next
        case sh: True
        then have "commitResources False ap attributes (itemOf g' role) resource
                     = (itemOf g' role, Raised TypeError)"
          using d by auto
        then have 1: "commitRoles False ap attributes resource g' (role # rest)
                        = (g', Raised TypeError)"
          using go(1) True own upd
          by (auto simp del: commitRoles.simps(2) simp add: commitRoles_step)
        have "''hasOwnProperty'' \<in> set resource"
        proof (rule ccontr)
          assume n: "''hasOwnProperty'' \<notin> set resource"
          have "map_of (r_resources (itemOf g' role)) ''hasOwnProperty''
                  = map_of (r_resources (itemOf g role)) ''hasOwnProperty''"
            using Cons.prems n by (rule commitRoles_item_frame)
          moreover have "map_of (r_resources (itemOf g role)) ''hasOwnProperty'' = None"
            using go(4) sh [THEN conjunct1] by (rule commitResources_unshadowed)
          ultimately show False using sh by simp
        qed
        then show ?thesis using 1 by simp
      qed
    qed
  qed
qed

lemma normalizeAccessInfo_names:
  "normalizeAccessInfo access all = Inr ai \<Longrightarrow>
     na_role ai = toStringArray (a_role access) \<and> na_resource ai = toStringArray (a_resource access)"
  by (auto simp: normalizeAccessInfo_def Let_def split: if_splits sum.splits)

lemma commit_frozen_same: "commitToGrants True g access all = (g', out) \<Longrightarrow> g' = g"
  using commit_frozen [of g access all] by auto

lemma commit_again:
  assumes "commitToGrants fz g access all = (g', out)"
  shows "\<exists>out'. commitToGrants fz g' access all = (g', out')
           \<and> (out' = out \<or> out' = Raised TypeError)
           \<and> (''hasOwnProperty'' \<notin> set (toStringArray (a_role access))
                \<and> ''hasOwnProperty'' \<notin> set (toStringArray (a_resource access)) \<longrightarrow> out' = out)"
proof (cases fz)
  case True
  then have "g' = g"
    using assms commit_frozen_same [of g access all g' out] by simp
  then show ?thesis using assms by simp
next
  case False
  show ?thesis
  proof (cases "normalizeAccessInfo access all")
    case (Inl err)
    then have "g' = g" using assms by (simp add: commitToGrants_def)
    then show ?thesis using assms by simp
  next
    case (Inr ai)
    let ?ap = "strOf (na_action ai) @ '':'' @ strOf (na_possession ai)"
    have "commitRoles False ?ap (na_attributes ai) (na_resource ai) g (na_role ai) = (g', out)"
      using assms False Inr by (simp add: commitToGrants_def)
    from commitRoles_again [OF this]
    show ?thesis
      using False Inr normalizeAccessInfo_names [OF Inr] by (simp add: commitToGrants_def)
  qed
qed

lemma commit_succeeds:
  assumes "normalizeAccessInfo access all = Inr ai"
      and "validNames (na_role ai)" and "validNames (na_resource ai)"
      and "plainNames (na_role ai)" and "plainNames (na_resource ai)"
      and "unshadowed g"
  shows "\<exists>g'. commitToGrants False g access all = (g', Returned)
           \<and> commitToGrants False g' access all = (g', Returned)
           \<and> unshadowed g'
           \<and> (\<forall>role res ap.
                 ruleOf g' role res ap
                   = (if role \<in> set (na_role ai) \<and> res \<in> set (na_resource ai)
                         \<and> ap = strOf (na_action ai) @ '':'' @ strOf (na_possession ai)
                      then Some (na_attributes ai) else ruleOf g role res ap))"
proof -
  let ?ap = "strOf (na_action ai) @ '':'' @ strOf (na_possession ai)"
  let ?c = "\<lambda>g. commitRoles False ?ap (na_attributes ai) (na_resource ai) g (na_role ai)"
  have c: "commitToGrants False g access all = ?c g" for g
    using assms(1) by (simp add: commitToGrants_def)
  obtain g' where 1: "?c g = (g', Returned)" and u: "unshadowed g'"
    using commitRoles_plain [OF assms(2,3,4,5,6)] by blast
  obtain g'' where 2: "?c g' = (g'', Returned)"
    using commitRoles_plain [OF assms(2,3,4,5) u] by blast
  obtain out' where 3: "?c g' = (g', out')"
    using commitRoles_again [OF 1] by blast
  have 4: "?c g' = (g', Returned)"
    using 2 3 by simp
  have "ruleOf g' role res ap
          = (if role \<in> set (na_role ai) \<and> res \<in> set (na_resource ai) \<and> ap = ?ap
             then Some (na_attributes ai) else ruleOf g role res ap)" for role res ap
    using 1 by (rule commitRoles_rules)
  then show ?thesis
    using 1 4 u unfolding c by blast
qed

lemma commit_loop_errors:
  assumes "commitToGrants fz g access all = (g', Raised e)"
      and "normalizeAccessInfo access all = Inr ai"
  shows "e = InvalidName \<or> e = ReservedName \<or> e = TypeError"
proof (cases fz)
  case True
  from normalizeAccessInfo_nonempty [OF assms(2)]
  have ne: "na_role ai \<noteq> []" "na_resource ai \<noteq> []" by simp_all
  from commitRoles_frozen [OF ne, of "strOf (na_action ai) @ '':'' @ strOf (na_possession ai)"
      "na_attributes ai" g]
  show ?thesis
    using assms True by (auto simp: commitToGrants_def)
next
  case False
  then show ?thesis
    using assms commitRoles_errors by (auto simp: commitToGrants_def)
qed

lemma commit_error_normalization:
  assumes "commitToGrants fz g access all = (g', Raised e)"
      and "e \<in> {InvalidRoles, InvalidResources, InvalidAction, InvalidPossession}"
  shows "g' = g"
proof (cases "normalizeAccessInfo access all")
  case (Inl err)
  then show ?thesis using assms(1) by (simp add: commitToGrants_def)
next
  case (Inr ai)
  from commit_loop_errors [OF assms(1) Inr] assms(2) show ?thesis by auto
qed

lemma commit_error_first_role:
  assumes "commitToGrants fz g access all = (g', Raised e)"
      and "normalizeAccessInfo access all = Inr ai"
      and "na_role ai = role # rest"
      and "validName role True = Inl err"
  shows "g' = g"
  using assms by (simp add: commitToGrants_def)

lemma commit_error_plain:
  assumes "commitToGrants fz g access all = (g', Raised e)"
      and "validNames (toStringArray (a_role access))"
      and "validNames (toStringArray (a_resource access))"
      and "plainNames (toStringArray (a_role access))"
      and "plainNames (toStringArray (a_resource access))"
      and "unshadowed g"
  shows "g' = g"
proof (cases fz)
  case True
  then show ?thesis
    using assms(1) commit_frozen_same [of g access all g' "Raised e"] by simp
next
  case False
  show ?thesis
  proof (cases "normalizeAccessInfo access all")
    case (Inl err)
    then show ?thesis using assms(1) by (simp add: commitToGrants_def)
  next
    case (Inr ai)
    note n = normalizeAccessInfo_names [OF Inr]
    have "\<exists>g'. commitToGrants False g access all = (g', Returned)"
      using commit_succeeds [OF Inr, of g] assms(2-6) unfolding n [THEN conjunct1] n [THEN conjunct2]
      by blast
    then show ?thesis
      using assms(1) False by auto
  qed
qed

lemma extendRole_single_target:
  assumes "extendRole n fz g roles extenderRoles = Some (g', Raised e)"
      and "toStringArray roles = [roleName]"
  shows "g' = g"
  using assms
  by (auto simp: extendRole_def Let_def split: if_splits option.splits sum.splits)

lemma grantStmt_first: "commitToGrants False [] grantStmt True = (videoAny, Returned)"
  by code_simp

lemma grantStmt_overwrites: "commitToGrants False videoTitle grantStmt True = (videoAny, Returned)"
  by code_simp

lemma commitRoles_append:
  "commitRoles False ap attributes resource g (xs @ ys) =
     (case commitRoles False ap attributes resource g xs of
        (g1, out) \<Rightarrow>
          if out = Returned then commitRoles False ap attributes resource g1 ys else (g1, out))"
proof (induction xs arbitrary: g)
  case Nil
  then show ?case by simp
next
  case (Cons x xs)
  show ?case
  proof (cases "validName x True")
    case (Inl e)
    then show ?thesis by (simp del: commitRoles.simps(2) add: commitRoles_step)
  next
    case (Inr b)
    show ?thesis
    proof (cases "map_of g ''hasOwnProperty'' \<noteq> None \<or> (map_of g x = None \<and> x = ''__proto__'')")
      case True
      then show ?thesis
        using Inr by (auto simp del: commitRoles.simps(2) simp add: commitRoles_step)
    next
      case False
      obtain grantItem' o1 where
        r: "commitResources False ap attributes (itemOf g x) resource = (grantItem', o1)"
        by (cases "commitResources False ap attributes (itemOf g x) resource") auto
      show ?thesis
        using Inr False r Cons.IH [of "AList.update x grantItem' g"]
        by (auto simp del: commitRoles.simps(2) simp add: commitRoles_step)
    qed
  qed
qed

lemma normalizeAccessInfo_roles:
  assumes "normalizeAccessInfo access all = Inr ai"
      and "roles \<noteq> []" and "isFilledStringArray roles"
  shows "normalizeAccessInfo (access\<lparr>a_role := JArr roles\<rparr>) all = Inr (ai\<lparr>na_role := roles\<rparr>)"
  using assms
  by (auto simp: normalizeAccessInfo_def toStringArray_def Let_def split: if_splits sum.splits)

lemma commit_keeps_earlier_roles:
  assumes "normalizeAccessInfo access all = Inr ai"
      and "na_role ai = before @ bad # rest" and "before \<noteq> []"
      and "commitToGrants False g (access\<lparr>a_role := JArr before\<rparr>) all = (g1, Returned)"
      and "validName bad True = Inl err"
  shows "commitToGrants False g access all = (g1, Raised err)"
proof -
  let ?ap = "strOf (na_action ai) @ '':'' @ strOf (na_possession ai)"
  have "isFilledStringArray (na_role ai)"
    using assms(1) by (auto simp: normalizeAccessInfo_def Let_def split: if_splits sum.splits)
  then have "isFilledStringArray before"
    unfolding assms(2) by (simp add: isFilledStringArray_def)
  from normalizeAccessInfo_roles [OF assms(1,3) this]
  have 1: "commitRoles False ?ap (na_attributes ai) (na_resource ai) g before = (g1, Returned)"
    using assms(4) by (simp add: commitToGrants_def)
  have "commitRoles False ?ap (na_attributes ai) (na_resource ai) g (before @ bad # rest)
          = (g1, Raised err)"
    using 1 assms(5) by (simp del: commitRoles.simps(2) add: commitRoles_append commitRoles_step)
  then show ?thesis
    using assms(1,2) by (simp add: commitToGrants_def)
qed

lemma extendLoop_append:
  "extendLoop n False exts g (xs @ ys) =
     (case extendLoop n False exts g xs of
        None \<Rightarrow> None
      | Some (g1, out) \<Rightarrow>
          if out = Returned then extendLoop n False exts g1 ys else Some (g1, out))"
proof (induction xs arbitrary: g)
  case Nil
  then show ?case by simp
next
  case (Cons x xs)
  show ?case
  proof (cases "(map_of g x = None \<and> x \<notin> set protoNames) \<or> x \<in> set exts")
    case True
    then show ?thesis by auto
  next
    case False
    show ?thesis
    proof (cases "getCrossExtendingRole n g x exts")
      case None
      then show ?thesis using False by auto
    next
      case (Some c)
      show ?thesis
      proof (cases c)
        case (Inl e)
        then show ?thesis using False Some by auto
      next
        case (Inr crossInherited)
        show ?thesis
        proof (cases "truthyStr crossInherited")
          case True
          then show ?thesis using False Some Inr by auto
        next
          case nt: False
          show ?thesis
          proof (cases "validName x True")
            case (Inl e)
            then show ?thesis using False Some Inr nt by auto
          next
            case vn: (Inr b)
            show ?thesis
            proof (cases "map_of g x")
              case None
              then show ?thesis using False Some Inr nt vn by auto
            next
              case (Some r)
              let ?g2 = "AList.update x
                           (r\<lparr>r_extend := Some (case r_extend r of
                                                      Some old \<Rightarrow> uniqConcat old exts
                                                    | None \<Rightarrow> exts)\<rparr>) g"
              show ?thesis
                using False \<open>getCrossExtendingRole n g x exts = Some c\<close> Inr nt vn Some
                  Cons.IH [of ?g2]
                by auto
            qed
          qed
        qed
      qed
    qed
  qed
qed

lemma extendRole_keeps_earlier_targets:
  assumes "\<not> isEmptyArray extenderRoles" and "before \<noteq> []"
      and "extendRole n False g (JArr before) extenderRoles = Some (g1, Returned)"
      and "map_of g1 bad = None" and "bad \<notin> set protoNames"
  shows "extendRole n False g (JArr (before @ bad # rest)) extenderRoles
           = Some (g1, Raised RoleNotFound)"
proof -
  let ?exts = "toStringArray extenderRoles"
  have 1: "extendLoop n False ?exts g before = Some (g1, Returned)"
    and 2: "extendRole n False g (JArr (before @ bad # rest)) extenderRoles
              = extendLoop n False ?exts g (before @ bad # rest)"
    using assms(1,2,3)
    by (auto simp: extendRole_def toStringArray_def Let_def split: if_splits sum.splits)
  show ?thesis
    unfolding 2 using 1 assms(4,5) by (simp add: extendLoop_append)
qed

lemma extendRole_inherited_target:
  "extendRole 3 False forkTable (JStr ''constructor'') (JArr [''D'']) = Some (forkTable, OffTable)
   \<and> extendRole 3 False forkTable (JStr ''zz'') (JArr [''D'']) = Some (forkTable, Raised RoleNotFound)"
  by code_simp

lemma shadowed_second_commit:
  "commitToGrants False [] (grantStmt\<lparr>a_role := JStr ''hasOwnProperty''\<rparr>) True
     = (shadowTable, Returned)
   \<and> commitToGrants False shadowTable (grantStmt\<lparr>a_role := JStr ''hasOwnProperty''\<rparr>) True
     = (shadowTable, Raised TypeError)"
  by code_simp

lemma cleanName_filled: "cleanName n \<Longrightarrow> trim n \<noteq> []"
  using trim_padded [of n "[]" "[]"] by (simp add: cleanName_def)

lemma cleanNames_filled:
  assumes "cleanName n" and "list_all (\<lambda>(sep, m). isSeparator sep \<and> cleanName m) rest"
  shows "isFilledStringArray (n # map snd rest)"
  using assms by (auto simp: isFilledStringArray_def list_all_iff cleanName_filled)

lemma string_as_array:
  assumes "toStringArray (JStr s) = names"
  shows "normalizeAccessInfo (access\<lparr>a_role := JStr s\<rparr>) all
           = normalizeAccessInfo (access\<lparr>a_role := JArr names\<rparr>) all"
    and "normalizeAccessInfo (access\<lparr>a_resource := JStr s\<rparr>) all
           = normalizeAccessInfo (access\<lparr>a_resource := JArr names\<rparr>) all"
    and "commitToGrants fz g (access\<lparr>a_role := JStr s\<rparr>) all
           = commitToGrants fz g (access\<lparr>a_role := JArr names\<rparr>) all"
    and "commitToGrants fz g (access\<lparr>a_resource := JStr s\<rparr>) all
           = commitToGrants fz g (access\<lparr>a_resource := JArr names\<rparr>) all"
    and "normalizeQueryInfo (query\<lparr>q_role := JStr s\<rparr>)
           = normalizeQueryInfo (query\<lparr>q_role := JArr names\<rparr>)"
    and "getUnionAttrsOfRoles globUnion k g (query\<lparr>q_role := JStr s\<rparr>)
           = getUnionAttrsOfRoles globUnion k g (query\<lparr>q_role := JArr names\<rparr>)"
proof -
  have eq: "toStringArray (JStr s) = toStringArray (JArr names)"
    using assms by (simp add: toStringArray_def)
  show 1: "normalizeAccessInfo (access\<lparr>a_role := JStr s\<rparr>) all
           = normalizeAccessInfo (access\<lparr>a_role := JArr names\<rparr>) all"
    using eq by (rule normalizeAccessInfo_role_cong)
  show 2: "normalizeAccessInfo (access\<lparr>a_resource := JStr s\<rparr>) all
           = normalizeAccessInfo (access\<lparr>a_resource := JArr names\<rparr>) all"
    using eq by (rule normalizeAccessInfo_resource_cong)
  show "commitToGrants fz g (access\<lparr>a_role := JStr s\<rparr>) all
           = commitToGrants fz g (access\<lparr>a_role := JArr names\<rparr>) all"
    by (simp only: commitToGrants_def 1)
  show "commitToGrants fz g (access\<lparr>a_resource := JStr s\<rparr>) all
           = commitToGrants fz g (access\<lparr>a_resource := JArr names\<rparr>) all"
    by (simp only: commitToGrants_def 2)
  show 3: "normalizeQueryInfo (query\<lparr>q_role := JStr s\<rparr>)
           = normalizeQueryInfo (query\<lparr>q_role := JArr names\<rparr>)"
    using eq by (rule normalizeQueryInfo_role_cong)
  show "getUnionAttrsOfRoles globUnion k g (query\<lparr>q_role := JStr s\<rparr>)
           = getUnionAttrsOfRoles globUnion k g (query\<lparr>q_role := JArr names\<rparr>)"
    by (simp only: getUnionAttrsOfRoles_def 3)
qed

lemma splitSeps_nonempty: "splitSeps cur s \<noteq> []"
  by (induction cur s rule: splitSeps.induct) (auto split: option.splits)

lemma string_names_nonempty: "toStringArray (JStr s) \<noteq> []"
  by (simp add: toStringArray_def splitSeps_nonempty)

lemma access_names:
  assumes "toStringArray (JStr s) = names" and "isFilledStringArray names"
      and "toStringArray other = others" and "others \<noteq> []" and "isFilledStringArray others"
      and "all \<longrightarrow> normalizeActionPossession (a_action access) (a_possession access) = Inr ap"
  shows "\<exists>ai. normalizeAccessInfo (access\<lparr>a_role := JStr s, a_resource := other\<rparr>) all = Inr ai
              \<and> na_role ai = names \<and> na_resource ai = others"
    and "\<exists>ai. normalizeAccessInfo (access\<lparr>a_role := other, a_resource := JStr s\<rparr>) all = Inr ai
              \<and> na_role ai = others \<and> na_resource ai = names"
proof -
  have ne: "names \<noteq> []"
    using assms(1) string_names_nonempty by auto
  obtain act poss where ap: "ap = (act, poss)" by (cases ap)
  show "\<exists>ai. normalizeAccessInfo (access\<lparr>a_role := JStr s, a_resource := other\<rparr>) all = Inr ai
              \<and> na_role ai = names \<and> na_resource ai = others"
    using assms ne ap by (cases all) (simp_all add: normalizeAccessInfo_def Let_def)
  show "\<exists>ai. normalizeAccessInfo (access\<lparr>a_role := other, a_resource := JStr s\<rparr>) all = Inr ai
              \<and> na_role ai = others \<and> na_resource ai = names"
    using assms ne ap by (cases all) (simp_all add: normalizeAccessInfo_def Let_def)
qed

lemma query_names:
  assumes "toStringArray v = names" and "isFilledStringArray names" and "trim r \<noteq> []"
      and "normalizeActionPossession (q_action query) (q_possession query) = Inr (act, poss)"
  shows "normalizeQueryInfo (query\<lparr>q_role := v, q_resource := JStr r\<rparr>)
           = Inr \<lparr>nq_role = names, nq_resource = trim r, nq_action = act, nq_possession = poss\<rparr>"
  using assms by (simp add: normalizeQueryInfo_def Let_def)

lemma other_role_commit:
  "normalizeAccessInfo (access\<lparr>a_role := JOther b\<rparr>) all = Inl InvalidRoles"
  "commitToGrants fz g (access\<lparr>a_role := JOther b\<rparr>) all = (g, Raised InvalidRoles)"
  by (simp_all add: commitToGrants_def normalizeAccessInfo_def toStringArray_def Let_def)

lemma other_resource_commit:
  assumes "toStringArray (a_role access) \<noteq> []" and "isFilledStringArray (toStringArray (a_role access))"
  shows "normalizeAccessInfo (access\<lparr>a_resource := JOther b\<rparr>) all = Inl InvalidResources"
    and "commitToGrants fz g (access\<lparr>a_resource := JOther b\<rparr>) all = (g, Raised InvalidResources)"
  using assms by (simp_all add: commitToGrants_def normalizeAccessInfo_def toStringArray_def)

lemma other_role_passes:
  assumes "trim r \<noteq> []"
      and "normalizeActionPossession (q_action query) (q_possession query) = Inr (act, poss)"
  shows "normalizeQueryInfo (query\<lparr>q_role := JOther b, q_resource := JStr r\<rparr>)
           = Inr \<lparr>nq_role = [], nq_resource = trim r, nq_action = act, nq_possession = poss\<rparr>"
    and "getUnionAttrsOfRoles globUnion k g (query\<lparr>q_role := JOther b, q_resource := JStr r\<rparr>)
           = Some (Inl InvalidRoles)"
proof -
  have e: "toStringArray (JOther b) = []" "isFilledStringArray []"
    by (simp_all add: toStringArray_def isFilledStringArray_def)
  show 1: "normalizeQueryInfo (query\<lparr>q_role := JOther b, q_resource := JStr r\<rparr>)
           = Inr \<lparr>nq_role = [], nq_resource = trim r, nq_action = act, nq_possession = poss\<rparr>"
    using e assms by (rule query_names)
  show "getUnionAttrsOfRoles globUnion k g (query\<lparr>q_role := JOther b, q_resource := JStr r\<rparr>)
           = Some (Inl InvalidRoles)"
    by (simp add: getUnionAttrsOfRoles_def 1 flatRoles_empty)
qed

lemma adminUser_commit:
  "commitToGrants False [] (grantStmt\<lparr>a_role := JArr [''admin'', ''user'']\<rparr>) True
     = ([(''admin'', \<lparr>r_extend = None, r_resources = [(''video'', [(''create:any'', [''*''])])]\<rparr>),
         (''user'', \<lparr>r_extend = None, r_resources = [(''video'', [(''create:any'', [''*''])])]\<rparr>)],
        Returned)"
  by code_simp

section \<open>Query evaluation: a role without an entry for the resource\<close>

text \<open>
  C1. The specification has it that a role of the flattened closure without an entry
  for the queried resource contributes the empty attribute list, and that the query
  completes. In \<open>getUnionAttrsOfRoles\<close> the guard before the lookup tests
  \<^verbatim>\<open>query.resource\<close>, which is never empty after normalization, and not the entry
  \<^verbatim>\<open>role[query.resource]\<close> just read; on a role without the entry the next line
  reads a property of \<^verbatim>\<open>undefined\<close>. Role \<open>u\<close> has rules for \<open>video\<close> only; the
  query for \<open>photo\<close> ends in a \<^verbatim>\<open>TypeError\<close>.
\<close>

theorem missing_resource_entry_throws:
  "getUnionAttrsOfRoles (@) (Suc 0) videoAny (createQuery ''photo'' ''any'') = Some (Inl TypeError)"
proof -
  have "roleAttrs videoAny
          \<lparr>nq_role = [''u''], nq_resource = ''photo'', nq_action = ''create'', nq_possession = ''any''\<rparr>
          ''u'' = Inl TypeError"
    by (simp add: roleAttrs_def videoAny_def roleProperty_def)
  then show ?thesis
    using union_single [of "createQuery ''photo'' ''any''" _ "''u''" videoAny _ "(@)" 0]
    by (simp add: createQuery_norm videoAny_def)
qed

section \<open>Query evaluation: possession fallback\<close>

text \<open>
  C3. For a role whose entry for the queried resource defines \<open>action:any\<close> but not
  \<open>action:own\<close>, a query with possession "own" yields the \<open>action:any\<close> list; for a
  role that defines only \<open>action:own\<close>, a query with possession "any" yields the
  empty list; when both keys are absent the role contributes the empty list. Stated
  for the contribution of any role (\<open>roleAttrs\<close>) and for the result of the query
  when it names that role alone and the role extends no other.
\<close>

theorem any_grant_answers_own_query:
  assumes norm: "normalizeQueryInfo query = Inr nq"
      and role: "map_of g roleName = Some role"
      and entry: "roleProperty role (nq_resource nq) = Resource resource"
  shows "(nq_possession nq = ''own''
            \<and> map_of resource (nq_action nq @ '':own'') = None
            \<and> map_of resource (nq_action nq @ '':any'') = Some a
          \<longrightarrow> roleAttrs g nq roleName = Inr (Some a)
              \<and> (nq_role nq = [roleName] \<and> r_extend role = None
                  \<longrightarrow> getUnionAttrsOfRoles globUnion (Suc n) g query = Some (Inr a)))
       \<and> (nq_possession nq = ''any''
            \<and> map_of resource (nq_action nq @ '':own'') = Some b
            \<and> map_of resource (nq_action nq @ '':any'') = None
          \<longrightarrow> roleAttrs g nq roleName = Inr (Some [])
              \<and> (nq_role nq = [roleName] \<and> r_extend role = None
                  \<longrightarrow> getUnionAttrsOfRoles globUnion (Suc n) g query = Some (Inr [])))
       \<and> (map_of resource (nq_action nq @ '':own'') = None
            \<and> map_of resource (nq_action nq @ '':any'') = None
          \<longrightarrow> roleAttrs g nq roleName = Inr (Some [])
              \<and> (nq_role nq = [roleName] \<and> r_extend role = None
                  \<longrightarrow> getUnionAttrsOfRoles globUnion (Suc n) g query = Some (Inr [])))"
proof -
  have ne: "nq_resource nq \<noteq> []"
    using norm by (rule normalized_resource_nonempty)
  have poss: "nq_possession nq = ''own'' \<or> nq_possession nq = ''any''"
    using norm by (rule normalized_query_possession)
  have u: "getUnionAttrsOfRoles globUnion (Suc n) g query =
             Some (case roleAttrs g nq roleName of
                     Inl e \<Rightarrow> Inl e | Inr None \<Rightarrow> Inr [] | Inr (Some a) \<Rightarrow> Inr a)"
    if "nq_role nq = [roleName]" "r_extend role = None"
    using norm that role by (intro union_single) auto
  have r: "roleAttrs g nq roleName =
             (case map_of resource (nq_action nq @ '':'' @ nq_possession nq) of
                Some a \<Rightarrow> Inr (Some a)
              | None \<Rightarrow> (case map_of resource (nq_action nq @ '':any'') of
                           Some a \<Rightarrow> Inr (Some a) | None \<Rightarrow> Inr (Some [])))"
    using role entry ne by (simp add: roleAttrs_def)
  show ?thesis
    using poss by (auto simp: u r)
qed

theorem any_grant_answers_own_query_witness:
  "getUnionAttrsOfRoles (@) (Suc 0) videoAny (createQuery ''video'' ''own'') = Some (Inr [''*''])
   \<and> getUnionAttrsOfRoles (@) (Suc 0) videoOwn (createQuery ''video'' ''any'') = Some (Inr [])
   \<and> getUnionAttrsOfRoles (@) (Suc 0) videoNone (createQuery ''video'' ''own'') = Some (Inr [])"
proof -
  let ?role = "\<lambda>re. \<lparr>r_extend = None, r_resources = [(''video'', re)]\<rparr>"
  let ?nq = "\<lambda>poss. \<lparr>nq_role = [''u''], nq_resource = ''video'', nq_action = ''create'',
                     nq_possession = poss\<rparr>"
  have n: "normalizeQueryInfo (createQuery ''video'' ''own'') = Inr (?nq ''own'')"
    "normalizeQueryInfo (createQuery ''video'' ''any'') = Inr (?nq ''any'')"
    by (simp_all add: createQuery_norm)
  have l: "map_of videoAny ''u'' = Some (?role [(''create:any'', [''*''])])"
    "map_of videoOwn ''u'' = Some (?role [(''create:own'', [''*''])])"
    "map_of videoNone ''u'' = Some (?role [])"
    by (simp_all add: videoAny_def videoOwn_def videoNone_def)
  have p: "\<And>re poss. roleProperty (?role re) (nq_resource (?nq poss)) = Resource re"
    by (simp add: roleProperty_def)
  note t1 = any_grant_answers_own_query [OF n(1) l(1) p, where a = "[''*'']" and globUnion = "(@)"
      and n = 0, THEN conjunct1, THEN mp, THEN conjunct2, THEN mp]
  note t2 = any_grant_answers_own_query [OF n(2) l(2) p, where b = "[''*'']" and globUnion = "(@)"
      and n = 0, THEN conjunct2, THEN conjunct1, THEN mp, THEN conjunct2, THEN mp]
  note t3 = any_grant_answers_own_query [OF n(1) l(3) p, where globUnion = "(@)"
      and n = 0, THEN conjunct2, THEN conjunct2, THEN mp, THEN conjunct2, THEN mp]
  have 1: "getUnionAttrsOfRoles (@) (Suc 0) videoAny (createQuery ''video'' ''own'') = Some (Inr [''*''])"
    by (rule t1) simp_all
  have 2: "getUnionAttrsOfRoles (@) (Suc 0) videoOwn (createQuery ''video'' ''any'') = Some (Inr [])"
    by (rule t2) simp_all
  have 3: "getUnionAttrsOfRoles (@) (Suc 0) videoNone (createQuery ''video'' ''own'') = Some (Inr [])"
    by (rule t3) simp_all
  from 1 2 3 show ?thesis by simp
qed

section \<open>Hierarchy resolution: the order of the result\<close>

text \<open>
  C4, as the specification has it: the hierarchy of a role lists the role and then the
  closure of its extenders in breadth order. On \<open>forkTable\<close> the extender \<open>D\<close> of
  \<open>B\<close> is listed before the direct extender \<open>C\<close>, while breadth order puts \<open>C\<close>
  first.
\<close>

theorem hierarchy_not_breadth_order:
  "getRoleHierarchyOf 3 forkTable ''A'' None = Some (Inr [''A'', ''B'', ''D'', ''C''])
   \<and> spec_breadthOrder 3 forkTable [''A''] [''A''] = [''A'', ''B'', ''C'', ''D'']"
  by code_simp

text \<open>
  C4, amended. A role of the table without an extension list resolves to itself alone;
  a chain \<open>a\<close>, \<open>b\<close>, \<open>c\<close> of three different roles, the last without an extension list,
  resolves to \<open>[a, b, c]\<close>; and whenever resolution succeeds, the result is the
  depth-first listing, starts with the role, has no duplicates and consists of exactly
  the roles reachable along \<^verbatim>\<open>$extend\<close>.
\<close>

theorem hierarchy_self_first_depth_first:
  "(map_of g r = Some role \<and> r_extend role = None
      \<longrightarrow> getRoleHierarchyOf (Suc n) g r None = Some (Inr [r]))
   \<and> (map_of g a = Some ra \<and> r_extend ra = Some [b] \<and> map_of g b = Some rb
        \<and> r_extend rb = Some [c] \<and> map_of g c = Some rc \<and> r_extend rc = None
        \<and> a \<noteq> b \<and> b \<noteq> c \<and> c \<noteq> a
      \<longrightarrow> getRoleHierarchyOf (Suc (Suc (Suc n))) g a None = Some (Inr [a, b, c]))
   \<and> (getRoleHierarchyOf m g r None = Some (Inr xs)
      \<longrightarrow> xs = depthFirstOrder m g r \<and> (\<exists>ys. xs = r # ys) \<and> distinct xs
          \<and> set xs = (extendsRel g)\<^sup>* `` {r})"
proof (intro conjI impI)
  assume "map_of g r = Some role \<and> r_extend role = None"
  then show "getRoleHierarchyOf (Suc n) g r None = Some (Inr [r])"
    by (intro hierarchy_no_extend [of g r role]) auto
next
  assume "map_of g a = Some ra \<and> r_extend ra = Some [b] \<and> map_of g b = Some rb
        \<and> r_extend rb = Some [c] \<and> map_of g c = Some rc \<and> r_extend rc = None
        \<and> a \<noteq> b \<and> b \<noteq> c \<and> c \<noteq> a"
  then show "getRoleHierarchyOf (Suc (Suc (Suc n))) g a None = Some (Inr [a, b, c])"
    by (intro chain_hierarchy [of g a ra b rb c rc]) auto
next
  assume h: "getRoleHierarchyOf m g r None = Some (Inr xs)"
  show "xs = depthFirstOrder m g r" using h by (rule hierarchy_is_depthFirstOrder)
  show "\<exists>ys. xs = r # ys" using hierarchy_head_distinct [OF h] by simp
  show "distinct xs" using hierarchy_head_distinct [OF h] by simp
  show "set xs = (extendsRel g)\<^sup>* `` {r}" using h by (rule hierarchy_closure)
qed

theorem hierarchy_self_first_depth_first_witness:
  "getRoleHierarchyOf (Suc 0) chainTable ''C'' None = Some (Inr [''C''])
   \<and> getRoleHierarchyOf (Suc (Suc (Suc 0))) chainTable ''A'' None = Some (Inr [''A'', ''B'', ''C''])
   \<and> [''A'', ''B'', ''D'', ''C''] = depthFirstOrder 3 forkTable ''A''
   \<and> set [''A'', ''B'', ''D'', ''C''] = (extendsRel forkTable)\<^sup>* `` {''A''}"
proof -
  have c: "map_of chainTable ''C'' = Some emptyRole \<and> r_extend emptyRole = None"
    by (simp add: chainTable_def emptyRole_def)
  have ch: "map_of chainTable ''A'' = Some \<lparr>r_extend = Some [''B''], r_resources = []\<rparr>
      \<and> r_extend \<lparr>r_extend = Some [''B''], r_resources = []\<rparr> = Some [''B'']
      \<and> map_of chainTable ''B'' = Some \<lparr>r_extend = Some [''C''], r_resources = []\<rparr>
      \<and> r_extend \<lparr>r_extend = Some [''C''], r_resources = []\<rparr> = Some [''C'']
      \<and> map_of chainTable ''C'' = Some emptyRole \<and> r_extend emptyRole = None
      \<and> ''A'' \<noteq> ''B'' \<and> ''B'' \<noteq> ''C'' \<and> ''C'' \<noteq> ''A''"
    by (simp add: chainTable_def emptyRole_def)
  note t1 = hierarchy_self_first_depth_first [where g = chainTable and r = "''C''"
      and role = emptyRole and n = 0 and a = "''A''" and b = "''B''" and c = "''C''"
      and ra = "\<lparr>r_extend = Some [''B''], r_resources = []\<rparr>"
      and rb = "\<lparr>r_extend = Some [''C''], r_resources = []\<rparr>" and rc = emptyRole]
  note t2 = hierarchy_self_first_depth_first [where g = forkTable and r = "''A''" and m = 3
      and xs = "[''A'', ''B'', ''D'', ''C'']"]
  have p1: "getRoleHierarchyOf (Suc 0) chainTable ''C'' None = Some (Inr [''C''])"
    by (rule t1 [THEN conjunct1, THEN mp, OF c])
  have p2: "getRoleHierarchyOf (Suc (Suc (Suc 0))) chainTable ''A'' None
              = Some (Inr [''A'', ''B'', ''C''])"
    by (rule t1 [THEN conjunct2, THEN conjunct1, THEN mp, OF ch])
  have p3: "[''A'', ''B'', ''D'', ''C''] = depthFirstOrder 3 forkTable ''A''
      \<and> (\<exists>ys. [''A'', ''B'', ''D'', ''C''] = ''A'' # ys) \<and> distinct [''A'', ''B'', ''D'', ''C'']
      \<and> set [''A'', ''B'', ''D'', ''C''] = (extendsRel forkTable)\<^sup>* `` {''A''}"
    by (rule t2 [THEN conjunct2, THEN conjunct2, THEN mp, OF fork_hierarchy])
  show ?thesis
    using p1 p2 p3 by blast
qed

section \<open>Hierarchy resolution returns\<close>



section \<open>Query evaluation is read-only\<close>

text \<open>
  C10. Whatever \<open>getUnionAttrsOfRoles\<close> returns, a list or an error, every object that
  was in the store before the call is the same after it: the grants table with its
  role entries, resource entries and attribute arrays, and the caller's query object
  with its role array. All writes go to the clone of the query and to arrays made
  during the call, and the list returned is one of those new arrays.
\<close>

theorem query_evaluation_writes_new_objects_only:
  assumes "st_getUnionAttrsOfRoles globUnion n grants query h = Some (res, h')"
  shows "take (length h) h' = h
       \<and> (\<forall>a < length h. cellAt h' a = cellAt h a)
       \<and> (\<forall>attrs. res = Inr attrs \<longrightarrow> length h \<le> attrs)"
proof -
  have f: "fresh (length h) h (res, h')"
    using assms by (intro pres_getUnionAttrsOfRoles) simp_all
  then have t: "take (length h) h' = h" and l: "length h \<le> length h'"
    by (simp_all add: fresh_def pres_def)
  have "cellAt h' a = cellAt h a" if "a < length h" for a
  proof -
    have "h' ! a = take (length h) h' ! a" using that by simp
    then show ?thesis using that l t by (simp add: cellAt_def)
  qed
  then show ?thesis
    using t f by (auto simp: fresh_def)
qed

theorem query_evaluation_writes_new_objects_only_witness:
  "st_getUnionAttrsOfRoles (@) 1 3 4 videoStore =
     Some (Inr 11, videoStore @
       [Query \<lparr>hq_role = HRef 6, hq_resource = HStr ''video'', hq_action = Some ''create'',
               hq_possession = Some ''own''\<rparr>,
        Arr [''u''], Arr [], Arr [''u''], Arr [''u''], Arr [''u''], Arr [''*'']])
   \<and> take (length videoStore) (videoStore @
       [Query \<lparr>hq_role = HRef 6, hq_resource = HStr ''video'', hq_action = Some ''create'',
               hq_possession = Some ''own''\<rparr>,
        Arr [''u''], Arr [], Arr [''u''], Arr [''u''], Arr [''u''], Arr [''*'']]) = videoStore
   \<and> length videoStore \<le> 11"
proof -
  note t = query_evaluation_writes_new_objects_only [OF videoStore_query]
  have 1: "take (length videoStore) (videoStore @
       [Query \<lparr>hq_role = HRef 6, hq_resource = HStr ''video'', hq_action = Some ''create'',
               hq_possession = Some ''own''\<rparr>,
        Arr [''u''], Arr [], Arr [''u''], Arr [''u''], Arr [''u''], Arr [''*'']]) = videoStore"
    by (rule t [THEN conjunct1])
  have 2: "length videoStore \<le> 11"
    using t [THEN conjunct2, THEN conjunct2] by blast
  show ?thesis
    by (intro conjI videoStore_query 1 2)
qed

section \<open>Locking\<close>

text \<open>
  C7, as the specification has it: after a successful lock every commit fails with the
  Locked error. \<open>commitToGrants\<close> does not test any lock; on the frozen table its
  first write throws a \<^verbatim>\<open>TypeError\<close>.
\<close>

theorem commit_after_lock_is_type_error:
  "lockAC unlockedAC = Inr \<lparr>ac_grants = videoAny, ac_frozen = True, ac_isLocked = True\<rparr>
   \<and> commitToGrants True videoAny grantStmt True = (videoAny, Raised TypeError)"
  by code_simp

text \<open>
  C7, amended. \<open>lockAC\<close> fails with EmptyOrInvalidGrants exactly when the table has
  no role; on any other table it succeeds, freezes the table and sets the flag, and
  locking again changes nothing. On the locked table every \<open>commitToGrants\<close> fails
  and leaves the table as it is; the error is that of the statement's validation or
  the \<^verbatim>\<open>TypeError\<close> of the first write, never the Locked error, which is left to
  the callers.
\<close>

theorem lock_freezes_table:
  "(lockAC ac = Inl EmptyOrInvalidGrants \<longleftrightarrow> ac_grants ac = [])
   \<and> (ac_grants ac \<noteq> [] \<longrightarrow> lockAC ac = Inr (ac\<lparr>ac_frozen := True, ac_isLocked := True\<rparr>))
   \<and> (lockAC ac = Inr ac' \<longrightarrow>
        lockAC ac' = Inr ac' \<and> ac_frozen ac' \<and> ac_isLocked ac' \<and> ac_grants ac' = ac_grants ac
        \<and> (\<exists>e. commitToGrants (ac_frozen ac') (ac_grants ac') access normalizeAll
                   = (ac_grants ac', Raised e)
               \<and> e \<in> commitErrors \<and> e \<noteq> Locked))"
proof (intro conjI impI)
  show "lockAC ac = Inl EmptyOrInvalidGrants \<longleftrightarrow> ac_grants ac = []"
    by (simp add: lockAC_result)
next
  assume "ac_grants ac \<noteq> []"
  then show "lockAC ac = Inr (ac\<lparr>ac_frozen := True, ac_isLocked := True\<rparr>)"
    by (simp add: lockAC_result)
next
  assume l: "lockAC ac = Inr ac'"
  then have ac': "ac' = ac\<lparr>ac_frozen := True, ac_isLocked := True\<rparr>" and ne: "ac_grants ac \<noteq> []"
    by (auto simp: lockAC_result split: if_splits)
  show "lockAC ac' = Inr ac'" using ne by (simp add: ac' lockAC_result)
  show "ac_frozen ac'" by (simp add: ac')
  show "ac_isLocked ac'" by (simp add: ac')
  show "ac_grants ac' = ac_grants ac" by (simp add: ac')
  have fz: "ac_frozen ac' = True" by (simp add: ac')
  from commit_frozen [of "ac_grants ac'" access normalizeAll]
  show "\<exists>e. commitToGrants (ac_frozen ac') (ac_grants ac') access normalizeAll
               = (ac_grants ac', Raised e) \<and> e \<in> commitErrors \<and> e \<noteq> Locked"
    unfolding fz by (auto simp: commitErrors_def)
qed

theorem lock_freezes_table_witness:
  "lockAC \<lparr>ac_grants = [], ac_frozen = False, ac_isLocked = False\<rparr> = Inl EmptyOrInvalidGrants
   \<and> lockAC unlockedAC = Inr (unlockedAC\<lparr>ac_frozen := True, ac_isLocked := True\<rparr>)
   \<and> lockAC (unlockedAC\<lparr>ac_frozen := True, ac_isLocked := True\<rparr>)
       = Inr (unlockedAC\<lparr>ac_frozen := True, ac_isLocked := True\<rparr>)
   \<and> (\<exists>e. commitToGrants True videoAny grantStmt True = (videoAny, Raised e) \<and> e \<noteq> Locked)"
proof -
  let ?l = "unlockedAC\<lparr>ac_frozen := True, ac_isLocked := True\<rparr>"
  have ne: "ac_grants unlockedAC \<noteq> []"
    by (simp add: unlockedAC_def videoAny_def)
  have g: "ac_grants ?l = videoAny" "ac_frozen ?l = True"
    by (simp_all add: unlockedAC_def)
  note t0 = lock_freezes_table [where ac = "\<lparr>ac_grants = [], ac_frozen = False, ac_isLocked = False\<rparr>"]
  note t1 = lock_freezes_table [where ac = unlockedAC and ac' = ?l and access = grantStmt
      and normalizeAll = True]
  have p0: "lockAC \<lparr>ac_grants = [], ac_frozen = False, ac_isLocked = False\<rparr> = Inl EmptyOrInvalidGrants"
    using t0 [THEN conjunct1] by simp
  have p1: "lockAC unlockedAC = Inr ?l"
    by (rule t1 [THEN conjunct2, THEN conjunct1, THEN mp, OF ne])
  note p2 = t1 [THEN conjunct2, THEN conjunct2, THEN mp, OF p1]
  show ?thesis
    using p0 p1 p2 unfolding g by blast
qed

section \<open>Committing a statement\<close>

text \<open>
  C6. Committing a statement again to the table the first commit left behind leaves
  that table as it is, however the first commit ended (short of an assignment to
  \<^verbatim>\<open>__proto__\<close>); the second commit ends like the first, or, when the statement
  names a role or resource \<^verbatim>\<open>hasOwnProperty\<close>, with the \<^verbatim>\<open>TypeError\<close> of
  the shadowed method. A statement that normalizes, with valid and plain names, on an
  unshadowed table that is not frozen, is committed: the call returns, its repetition
  returns with the same table, and in that table the rule \<open>action:possession\<close> of
  every role and resource of the statement holds the normalized attributes, whatever
  it held before, while every other rule is as it was.
\<close>

theorem commit_twice_is_commit_once:
  "(commitToGrants fz g access normalizeAll = (g', out) \<and> out \<noteq> OffTable
      \<longrightarrow> (\<exists>out'. commitToGrants fz g' access normalizeAll = (g', out')
              \<and> (out' = out \<or> out' = Raised TypeError)
              \<and> (''hasOwnProperty'' \<notin> set (toStringArray (a_role access))
                   \<and> ''hasOwnProperty'' \<notin> set (toStringArray (a_resource access))
                 \<longrightarrow> out' = out)))
   \<and> (normalizeAccessInfo access normalizeAll = Inr ai
        \<and> validNames (na_role ai) \<and> validNames (na_resource ai)
        \<and> plainNames (na_role ai) \<and> plainNames (na_resource ai) \<and> unshadowed g
      \<longrightarrow> (\<exists>g1. commitToGrants False g access normalizeAll = (g1, Returned)
             \<and> commitToGrants False g1 access normalizeAll = (g1, Returned)
             \<and> (\<forall>role res ap.
                   ruleOf g1 role res ap
                     = (if role \<in> set (na_role ai) \<and> res \<in> set (na_resource ai)
                           \<and> ap = strOf (na_action ai) @ '':'' @ strOf (na_possession ai)
                        then Some (na_attributes ai) else ruleOf g role res ap))))"
proof (intro conjI impI)
  assume "commitToGrants fz g access normalizeAll = (g', out) \<and> out \<noteq> OffTable"
  then have "commitToGrants fz g access normalizeAll = (g', out)" by simp
  then show "\<exists>out'. commitToGrants fz g' access normalizeAll = (g', out')
              \<and> (out' = out \<or> out' = Raised TypeError)
              \<and> (''hasOwnProperty'' \<notin> set (toStringArray (a_role access))
                   \<and> ''hasOwnProperty'' \<notin> set (toStringArray (a_resource access))
                 \<longrightarrow> out' = out)"
    by (rule commit_again)
next
  assume a: "normalizeAccessInfo access normalizeAll = Inr ai
        \<and> validNames (na_role ai) \<and> validNames (na_resource ai)
        \<and> plainNames (na_role ai) \<and> plainNames (na_resource ai) \<and> unshadowed g"
  note b = a [THEN conjunct2]
  note c = b [THEN conjunct2]
  note d = c [THEN conjunct2]
  note e = d [THEN conjunct2]
  from commit_succeeds [OF a [THEN conjunct1] b [THEN conjunct1] c [THEN conjunct1]
      d [THEN conjunct1] e [THEN conjunct1] e [THEN conjunct2]]
  show "\<exists>g1. commitToGrants False g access normalizeAll = (g1, Returned)
             \<and> commitToGrants False g1 access normalizeAll = (g1, Returned)
             \<and> (\<forall>role res ap.
                   ruleOf g1 role res ap
                     = (if role \<in> set (na_role ai) \<and> res \<in> set (na_resource ai)
                           \<and> ap = strOf (na_action ai) @ '':'' @ strOf (na_possession ai)
                        then Some (na_attributes ai) else ruleOf g role res ap))"
    by blast
qed

theorem commit_twice_is_commit_once_witness:
  "commitToGrants False videoAny grantStmt True = (videoAny, Returned)
   \<and> commitToGrants False shadowTable (grantStmt\<lparr>a_role := JStr ''hasOwnProperty''\<rparr>) True
       = (shadowTable, Raised TypeError)
   \<and> (\<exists>g1. commitToGrants False videoTitle grantStmt True = (g1, Returned)
          \<and> commitToGrants False g1 grantStmt True = (g1, Returned)
          \<and> ruleOf videoTitle ''u'' ''video'' ''create:any'' = Some [''title'']
          \<and> ruleOf g1 ''u'' ''video'' ''create:any'' = Some [''*'']
          \<and> ruleOf g1 ''u'' ''video'' ''read:any'' = None)"
proof -
  let ?s = "grantStmt\<lparr>a_role := JStr ''hasOwnProperty''\<rparr>"
  note t1 = commit_twice_is_commit_once [where fz = False and g = "[]" and access = grantStmt
      and normalizeAll = True and g' = videoAny and out = Returned, THEN conjunct1, THEN mp]
  note t2 = commit_twice_is_commit_once [where fz = False and g = "[]" and access = ?s
      and normalizeAll = True and g' = shadowTable and out = Returned, THEN conjunct1, THEN mp]
  note t3 = commit_twice_is_commit_once [where g = videoTitle and access = grantStmt
      and normalizeAll = True and ai = grantStmtN, THEN conjunct2, THEN mp]
  have h1: "commitToGrants False [] grantStmt True = (videoAny, Returned) \<and> Returned \<noteq> OffTable"
    by (simp add: grantStmt_first)
  have n1: "''hasOwnProperty'' \<notin> set (toStringArray (a_role grantStmt))
        \<and> ''hasOwnProperty'' \<notin> set (toStringArray (a_resource grantStmt))"
    by code_simp
  have p1: "commitToGrants False videoAny grantStmt True = (videoAny, Returned)"
    using t1 [OF h1] n1 by blast
  have h2: "commitToGrants False [] ?s True = (shadowTable, Returned) \<and> Returned \<noteq> OffTable"
    using shadowed_second_commit by simp
  have n2: "commitToGrants False shadowTable ?s True \<noteq> (shadowTable, Returned)"
    using shadowed_second_commit by simp
  have p2: "commitToGrants False shadowTable ?s True = (shadowTable, Raised TypeError)"
    using t2 [OF h2] n2 by auto
  have h3: "normalizeAccessInfo grantStmt True = Inr grantStmtN
        \<and> validNames (na_role grantStmtN) \<and> validNames (na_resource grantStmtN)
        \<and> plainNames (na_role grantStmtN) \<and> plainNames (na_resource grantStmtN)
        \<and> unshadowed videoTitle"
    by code_simp
  have r: "ruleOf videoTitle ''u'' ''video'' ''create:any'' = Some [''title'']"
    "ruleOf videoTitle ''u'' ''video'' ''read:any'' = None"
    by code_simp+
  obtain g1 where g1: "commitToGrants False videoTitle grantStmt True = (g1, Returned)"
    "commitToGrants False g1 grantStmt True = (g1, Returned)"
    and rules: "\<And>role res ap. ruleOf g1 role res ap
           = (if role \<in> set (na_role grantStmtN) \<and> res \<in> set (na_resource grantStmtN)
                 \<and> ap = strOf (na_action grantStmtN) @ '':'' @ strOf (na_possession grantStmtN)
              then Some (na_attributes grantStmtN) else ruleOf videoTitle role res ap)"
    using t3 [OF h3] by blast
  have "ruleOf g1 ''u'' ''video'' ''create:any'' = Some [''*'']"
    "ruleOf g1 ''u'' ''video'' ''read:any'' = None"
    using r(2) by (simp_all add: rules grantStmtN_def strOf_def)
  then show ?thesis
    using p1 p2 g1 r(1) by blast
qed

section \<open>Failing writes\<close>

text \<open>
  C2, as the specification has it: a call of \<open>commitToGrants\<close> or \<open>extendRole\<close>
  that raises an error leaves the table unchanged. Both validate names inside their
  loops. Committing for the roles \<open>u\<close> and \<^verbatim>\<open>$\<close> writes the rule of \<open>u\<close> before
  \<^verbatim>\<open>$\<close> is rejected; committing for the roles \<^verbatim>\<open>hasOwnProperty\<close> and \<open>u\<close>,
  both valid names, writes the first role, which then stands in the way of the method
  the test for \<open>u\<close> calls; extending \<open>C\<close> and the unknown \<open>zz\<close> extends \<open>C\<close>
  before \<open>zz\<close> is missed.
\<close>

theorem rejected_statement_keeps_earlier_writes:
  "commitToGrants False [] twoRoleStmt True = (videoAny, Raised ReservedName)
   \<and> videoAny \<noteq> []
   \<and> commitToGrants False [] shadowStmt True = (shadowTable, Raised TypeError)
   \<and> shadowTable \<noteq> []
   \<and> extendRole 3 False forkTable (JArr [''C'', ''zz'']) (JArr [''D''])
       = Some (forkPartly, Raised RoleNotFound)
   \<and> forkPartly \<noteq> forkTable"
  by code_simp

text \<open>
  C2, amended. A \<open>commitToGrants\<close> that raises an error leaves the table unchanged
  when the error is one of normalization or the table is frozen; when its first role
  is rejected by \<open>validName\<close>; and when all role and resource names of the statement
  are valid and plain and the table is unshadowed. An \<open>extendRole\<close> that raises an
  error leaves the table unchanged when the call names one target role. Otherwise the
  writes made before the error stay: when the roles before a role that \<open>validName\<close>
  rejects have been committed, the failed call leaves the table that committing those
  roles alone leaves; and when the targets before a target that the table does not
  have (nor inherits) have been extended, the failed call leaves the table that
  extending those targets alone leaves.
\<close>

theorem rejected_statement_unchanged_table:
  "(commitToGrants fz g access normalizeAll = (g', Raised e)
        \<and> (fz \<or> e \<in> normalizationErrors)
      \<longrightarrow> g' = g)
   \<and> (commitToGrants fz g access normalizeAll = (g', Raised e)
        \<and> normalizeAccessInfo access normalizeAll = Inr ai
        \<and> na_role ai = role # rest \<and> validName role True = Inl err
      \<longrightarrow> g' = g)
   \<and> (commitToGrants fz g access normalizeAll = (g', Raised e)
        \<and> validNames (toStringArray (a_role access))
        \<and> validNames (toStringArray (a_resource access))
        \<and> plainNames (toStringArray (a_role access))
        \<and> plainNames (toStringArray (a_resource access))
        \<and> unshadowed g
      \<longrightarrow> g' = g)
   \<and> (extendRole n fz g roles extenderRoles = Some (g', Raised e)
        \<and> toStringArray roles = [roleName]
      \<longrightarrow> g' = g)
   \<and> (normalizeAccessInfo access normalizeAll = Inr ai
        \<and> na_role ai = before @ bad # rest \<and> before \<noteq> []
        \<and> commitToGrants False g (access\<lparr>a_role := JArr before\<rparr>) normalizeAll = (g1, Returned)
        \<and> validName bad True = Inl err
      \<longrightarrow> commitToGrants False g access normalizeAll = (g1, Raised err))
   \<and> (\<not> isEmptyArray extenderRoles \<and> before \<noteq> []
        \<and> extendRole n False g (JArr before) extenderRoles = Some (g1, Returned)
        \<and> map_of g1 bad = None \<and> bad \<notin> set protoNames
      \<longrightarrow> extendRole n False g (JArr (before @ bad # rest)) extenderRoles
            = Some (g1, Raised RoleNotFound))"
proof (intro conjI impI)
  assume a: "commitToGrants fz g access normalizeAll = (g', Raised e)
        \<and> (fz \<or> e \<in> normalizationErrors)"
  show "g' = g"
  proof (cases fz)
    case True
    then show ?thesis
      using a commit_frozen_same [of g access normalizeAll g' "Raised e"] by simp
  next
    case False
    then have "e \<in> {InvalidRoles, InvalidResources, InvalidAction, InvalidPossession}"
      using a by (simp add: normalizationErrors_def)
    with a [THEN conjunct1] show ?thesis by (rule commit_error_normalization)
  qed
next
  assume "commitToGrants fz g access normalizeAll = (g', Raised e)
        \<and> normalizeAccessInfo access normalizeAll = Inr ai
        \<and> na_role ai = role # rest \<and> validName role True = Inl err"
  then show "g' = g"
    using commit_error_first_role [of fz g access normalizeAll g' e ai role rest err] by simp
next
  assume "commitToGrants fz g access normalizeAll = (g', Raised e)
        \<and> validNames (toStringArray (a_role access))
        \<and> validNames (toStringArray (a_resource access))
        \<and> plainNames (toStringArray (a_role access))
        \<and> plainNames (toStringArray (a_resource access))
        \<and> unshadowed g"
  then show "g' = g"
    using commit_error_plain [of fz g access normalizeAll g' e] by simp
next
  assume "extendRole n fz g roles extenderRoles = Some (g', Raised e)
        \<and> toStringArray roles = [roleName]"
  then show "g' = g"
    using extendRole_single_target [of n fz g roles extenderRoles g' e roleName] by simp
next
  assume a: "normalizeAccessInfo access normalizeAll = Inr ai
        \<and> na_role ai = before @ bad # rest \<and> before \<noteq> []
        \<and> commitToGrants False g (access\<lparr>a_role := JArr before\<rparr>) normalizeAll = (g1, Returned)
        \<and> validName bad True = Inl err"
  note b = a [THEN conjunct2]
  note c = b [THEN conjunct2]
  note d = c [THEN conjunct2]
  show "commitToGrants False g access normalizeAll = (g1, Raised err)"
    by (rule commit_keeps_earlier_roles [OF a [THEN conjunct1] b [THEN conjunct1]
          c [THEN conjunct1] d [THEN conjunct1] d [THEN conjunct2]])
next
  assume a: "\<not> isEmptyArray extenderRoles \<and> before \<noteq> []
        \<and> extendRole n False g (JArr before) extenderRoles = Some (g1, Returned)
        \<and> map_of g1 bad = None \<and> bad \<notin> set protoNames"
  note b = a [THEN conjunct2]
  note c = b [THEN conjunct2]
  note d = c [THEN conjunct2]
  show "extendRole n False g (JArr (before @ bad # rest)) extenderRoles
            = Some (g1, Raised RoleNotFound)"
    by (rule extendRole_keeps_earlier_targets [OF a [THEN conjunct1] b [THEN conjunct1]
          c [THEN conjunct1] d [THEN conjunct1] d [THEN conjunct2]])
qed

theorem rejected_statement_unchanged_table_witness:
  "commitToGrants True videoAny grantStmt True = (videoAny, Raised TypeError)
   \<and> commitToGrants False videoOwn (grantStmt\<lparr>a_role := JOther False\<rparr>) True
       = (videoOwn, Raised InvalidRoles)
   \<and> commitToGrants False videoOwn reservedFirstStmt True = (videoOwn, Raised ReservedName)
   \<and> commitToGrants False videoOwn flyStmt True = (videoOwn, Raised InvalidAction)
   \<and> extendRole 3 False forkTable (JStr ''D'') (JArr [''A''])
       = Some (forkTable, Raised CrossInheritance)
   \<and> commitToGrants False [] twoRoleStmt True = (videoAny, Raised ReservedName)
   \<and> extendRole 3 False forkTable (JArr [''C'', ''zz'']) (JArr [''D''])
       = Some (forkPartly, Raised RoleNotFound)"
proof -
  let ?c0 = "commitToGrants True videoAny grantStmt True"
  let ?c1 = "commitToGrants False videoOwn flyStmt True"
  let ?c2 = "commitToGrants False videoOwn reservedFirstStmt True"
  let ?c4 = "commitToGrants False videoOwn (grantStmt\<lparr>a_role := JOther False\<rparr>) True"
  let ?x = "extendRole 3 False forkTable (JStr ''D'') (JArr [''A''])"
  note t = rejected_statement_unchanged_table
  note t5 = t [where access = twoRoleStmt and normalizeAll = True
      and ai = "grantStmtN\<lparr>na_role := [''u'', ''$'']\<rparr>" and before = "[''u'']" and bad = "''$''"
      and rest = "[]" and g = "[]" and ?g1.0 = videoAny and err = ReservedName,
      THEN conjunct2, THEN conjunct2, THEN conjunct2, THEN conjunct2, THEN conjunct1, THEN mp]
  note t6 = t [where extenderRoles = "JArr [''D'']" and before = "[''C'']" and bad = "''zz''"
      and rest = "[]" and g = forkTable and ?g1.0 = forkPartly and n = 3,
      THEN conjunct2, THEN conjunct2, THEN conjunct2, THEN conjunct2, THEN conjunct2, THEN mp]
  have h0: "?c0 = (fst ?c0, Raised TypeError) \<and> (True \<or> TypeError \<in> normalizationErrors)"
    by code_simp
  have h4: "?c4 = (fst ?c4, Raised InvalidRoles) \<and> (False \<or> InvalidRoles \<in> normalizationErrors)"
    by code_simp
  have h1: "?c1 = (fst ?c1, Raised InvalidAction)
        \<and> validNames (toStringArray (a_role flyStmt))
        \<and> validNames (toStringArray (a_resource flyStmt))
        \<and> plainNames (toStringArray (a_role flyStmt))
        \<and> plainNames (toStringArray (a_resource flyStmt))
        \<and> unshadowed videoOwn"
    by code_simp
  have h2: "?c2 = (fst ?c2, Raised ReservedName)
        \<and> normalizeAccessInfo reservedFirstStmt True = Inr (grantStmtN\<lparr>na_role := [''$'', ''u'']\<rparr>)
        \<and> na_role (grantStmtN\<lparr>na_role := [''$'', ''u'']\<rparr>) = ''$'' # [''u'']
        \<and> validName ''$'' True = Inl ReservedName"
    by code_simp
  have h3: "?x = Some (fst (the ?x), Raised CrossInheritance)
        \<and> toStringArray (JStr ''D'') = [''D'']"
    by code_simp
  have h5: "normalizeAccessInfo twoRoleStmt True = Inr (grantStmtN\<lparr>na_role := [''u'', ''$'']\<rparr>)
        \<and> na_role (grantStmtN\<lparr>na_role := [''u'', ''$'']\<rparr>) = [''u''] @ ''$'' # []
        \<and> [''u''] \<noteq> []
        \<and> commitToGrants False [] (twoRoleStmt\<lparr>a_role := JArr [''u'']\<rparr>) True = (videoAny, Returned)
        \<and> validName ''$'' True = Inl ReservedName"
    by code_simp
  have h6: "\<not> isEmptyArray (JArr [''D'']) \<and> [''C''] \<noteq> []
        \<and> extendRole 3 False forkTable (JArr [''C'']) (JArr [''D'']) = Some (forkPartly, Returned)
        \<and> map_of forkPartly ''zz'' = None \<and> ''zz'' \<notin> set protoNames"
    by code_simp
  have p0: "fst ?c0 = videoAny"
    by (rule t [THEN conjunct1, THEN mp, OF h0])
  have p4: "fst ?c4 = videoOwn"
    by (rule t [THEN conjunct1, THEN mp, OF h4])
  have p2: "fst ?c2 = videoOwn"
    by (rule t [THEN conjunct2, THEN conjunct1, THEN mp, OF h2])
  have p1: "fst ?c1 = videoOwn"
    by (rule t [THEN conjunct2, THEN conjunct2, THEN conjunct1, THEN mp, OF h1])
  have p3: "fst (the ?x) = forkTable"
    by (rule t [THEN conjunct2, THEN conjunct2, THEN conjunct2, THEN conjunct1, THEN mp, OF h3])
  note p5 = t5 [OF h5]
  note p6 = t6 [OF h6]
  show ?thesis
    using h0 h1 h2 h3 h4 p0 p1 p2 p3 p4 p5 p6 by simp
qed

section \<open>Extending a role\<close>

text \<open>
  C5. The specification has the extenders merged into the role's list, de-duplicated.
  \<open>extendRole\<close> de-duplicates only when the role already has a list, where it goes
  through \<open>uniqConcat\<close>; to a role without a list it assigns the extenders as they
  are given. \<open>C\<close> of \<open>forkTable\<close> has no list: extended by \<open>D\<close> named twice, it
  ends with the list \<open>D\<close>, \<open>D\<close>.
\<close>

theorem extendRole_keeps_input_duplicates:
  "extendRole 3 False forkTable (JStr ''C'') (JArr [''D'', ''D'']) = Some (forkDup, Returned)
   \<and> map_option r_extend (map_of forkDup ''C'') = Some (Some [''D'', ''D''])
   \<and> \<not> distinct [''D'', ''D'']"
  by code_simp

section \<open>Roles and resources given as strings\<close>

text \<open>
  C9, as the specification has it: in commit and in query normalization a role that is
  neither a string nor an array becomes the empty list and is rejected as invalid
  roles. \<open>normalizeQueryInfo\<close> does not reject it: \<open>isFilledStringArray\<close> holds of
  the empty list, and the query comes back normalized, with no role.
\<close>

theorem untyped_query_role_passes_normalization:
  "normalizeQueryInfo ((createQuery ''video'' ''any'')\<lparr>q_role := JOther False\<rparr>)
     = Inr \<lparr>nq_role = [], nq_resource = ''video'', nq_action = ''create'', nq_possession = ''any''\<rparr>"
  using normalize_create [of "''any''"]
  by (simp add: normalizeQueryInfo_def createQuery_def toStringArray_def isFilledStringArray_def
        trim_video)

text \<open>
  C9, amended. A string given for a role or resource is trimmed and split at \<^verbatim>\<open>;\<close>
  and \<^verbatim>\<open>,\<close> with the white space around them: names written one after the other
  with such separators, with white space around the whole, come back as the list of
  the names, none of them blank. A string therefore normalizes, commits and queries
  like the array of its names, and \<open>normalizeAccessInfo\<close> and \<open>normalizeQueryInfo\<close>
  return these names as the roles (or resources) of the normalized statement or
  query. A value that is neither a string nor an array becomes the empty list.
  \<open>normalizeAccessInfo\<close>, and with it \<open>commitToGrants\<close>, rejects it as invalid roles
  or resources. \<open>normalizeQueryInfo\<close> lets the empty role list pass; the query is
  rejected as invalid roles by \<open>getFlatRoles\<close> when \<open>getUnionAttrsOfRoles\<close>
  evaluates it. Neither ends in a \<^verbatim>\<open>TypeError\<close>.
\<close>

theorem names_split_and_others_rejected:
  "(cleanName n \<and> list_all (\<lambda>(sep, m). isSeparator sep \<and> cleanName m) rest
        \<and> list_all isSpace pad1 \<and> list_all isSpace pad2
      \<longrightarrow> toStringArray (JStr (pad1 @ joinNames n rest @ pad2)) = n # map snd rest
          \<and> isFilledStringArray (n # map snd rest))
   \<and> (toStringArray (JStr s) = names
      \<longrightarrow> normalizeAccessInfo (access\<lparr>a_role := JStr s\<rparr>) all
            = normalizeAccessInfo (access\<lparr>a_role := JArr names\<rparr>) all
          \<and> normalizeAccessInfo (access\<lparr>a_resource := JStr s\<rparr>) all
            = normalizeAccessInfo (access\<lparr>a_resource := JArr names\<rparr>) all
          \<and> commitToGrants fz g (access\<lparr>a_role := JStr s\<rparr>) all
            = commitToGrants fz g (access\<lparr>a_role := JArr names\<rparr>) all
          \<and> commitToGrants fz g (access\<lparr>a_resource := JStr s\<rparr>) all
            = commitToGrants fz g (access\<lparr>a_resource := JArr names\<rparr>) all
          \<and> normalizeQueryInfo (query\<lparr>q_role := JStr s\<rparr>)
            = normalizeQueryInfo (query\<lparr>q_role := JArr names\<rparr>)
          \<and> getUnionAttrsOfRoles globUnion k g (query\<lparr>q_role := JStr s\<rparr>)
            = getUnionAttrsOfRoles globUnion k g (query\<lparr>q_role := JArr names\<rparr>))
   \<and> (toStringArray (JStr s) = names \<and> isFilledStringArray names
        \<and> toStringArray other = others \<and> others \<noteq> [] \<and> isFilledStringArray others
        \<and> (all \<longrightarrow> normalizeActionPossession (a_action access) (a_possession access) = Inr ap)
      \<longrightarrow> (\<exists>ai. normalizeAccessInfo (access\<lparr>a_role := JStr s, a_resource := other\<rparr>) all = Inr ai
                \<and> na_role ai = names \<and> na_resource ai = others)
          \<and> (\<exists>ai. normalizeAccessInfo (access\<lparr>a_role := other, a_resource := JStr s\<rparr>) all = Inr ai
                \<and> na_role ai = others \<and> na_resource ai = names))
   \<and> (toStringArray (JStr s) = names \<and> isFilledStringArray names \<and> trim r \<noteq> []
        \<and> normalizeActionPossession (q_action query) (q_possession query) = Inr (act, poss)
      \<longrightarrow> normalizeQueryInfo (query\<lparr>q_role := JStr s, q_resource := JStr r\<rparr>)
            = Inr \<lparr>nq_role = names, nq_resource = trim r, nq_action = act, nq_possession = poss\<rparr>)
   \<and> toStringArray (JOther b) = []
   \<and> normalizeAccessInfo (access\<lparr>a_role := JOther b\<rparr>) all = Inl InvalidRoles
   \<and> commitToGrants fz g (access\<lparr>a_role := JOther b\<rparr>) all = (g, Raised InvalidRoles)
   \<and> (toStringArray (a_role access) \<noteq> [] \<and> isFilledStringArray (toStringArray (a_role access))
      \<longrightarrow> normalizeAccessInfo (access\<lparr>a_resource := JOther b\<rparr>) all = Inl InvalidResources
          \<and> commitToGrants fz g (access\<lparr>a_resource := JOther b\<rparr>) all
            = (g, Raised InvalidResources))
   \<and> (trim r \<noteq> []
        \<and> normalizeActionPossession (q_action query) (q_possession query) = Inr (act, poss)
      \<longrightarrow> normalizeQueryInfo (query\<lparr>q_role := JOther b, q_resource := JStr r\<rparr>)
            = Inr \<lparr>nq_role = [], nq_resource = trim r, nq_action = act, nq_possession = poss\<rparr>
          \<and> getUnionAttrsOfRoles globUnion k g (query\<lparr>q_role := JOther b, q_resource := JStr r\<rparr>)
            = Some (Inl InvalidRoles))
   \<and> (\<exists>e. getUnionAttrsOfRoles globUnion k g (query\<lparr>q_role := JOther b\<rparr>) = Some (Inl e)
          \<and> e \<in> queryErrors)"
proof (intro conjI impI)
  assume a: "cleanName n \<and> list_all (\<lambda>(sep, m). isSeparator sep \<and> cleanName m) rest
        \<and> list_all isSpace pad1 \<and> list_all isSpace pad2"
  then show "toStringArray (JStr (pad1 @ joinNames n rest @ pad2)) = n # map snd rest"
    by (intro toStringArray_joinNames) simp_all
  from a show "isFilledStringArray (n # map snd rest)"
    by (intro cleanNames_filled) simp_all
next
  assume a: "toStringArray (JStr s) = names \<and> isFilledStringArray names
        \<and> toStringArray other = others \<and> others \<noteq> [] \<and> isFilledStringArray others
        \<and> (all \<longrightarrow> normalizeActionPossession (a_action access) (a_possession access) = Inr ap)"
  note b = a [THEN conjunct2]
  note c = b [THEN conjunct2]
  note d = c [THEN conjunct2]
  note e = d [THEN conjunct2]
  note l = access_names [OF a [THEN conjunct1] b [THEN conjunct1] c [THEN conjunct1]
      d [THEN conjunct1] e [THEN conjunct1] e [THEN conjunct2]]
  show "\<exists>ai. normalizeAccessInfo (access\<lparr>a_role := JStr s, a_resource := other\<rparr>) all = Inr ai
                \<and> na_role ai = names \<and> na_resource ai = others"
    by (rule l(1))
  show "\<exists>ai. normalizeAccessInfo (access\<lparr>a_role := other, a_resource := JStr s\<rparr>) all = Inr ai
                \<and> na_role ai = others \<and> na_resource ai = names"
    by (rule l(2))
next
  assume a: "toStringArray (JStr s) = names \<and> isFilledStringArray names \<and> trim r \<noteq> []
        \<and> normalizeActionPossession (q_action query) (q_possession query) = Inr (act, poss)"
  note b = a [THEN conjunct2]
  note c = b [THEN conjunct2]
  show "normalizeQueryInfo (query\<lparr>q_role := JStr s, q_resource := JStr r\<rparr>)
            = Inr \<lparr>nq_role = names, nq_resource = trim r, nq_action = act, nq_possession = poss\<rparr>"
    by (rule query_names [OF a [THEN conjunct1] b [THEN conjunct1] c [THEN conjunct1]
          c [THEN conjunct2]])
next
  show "toStringArray (JOther b) = []"
    by (simp add: toStringArray_def)
next
  assume a: "trim r \<noteq> []
        \<and> normalizeActionPossession (q_action query) (q_possession query) = Inr (act, poss)"
  note l = other_role_passes [OF a [THEN conjunct1] a [THEN conjunct2]]
  show "normalizeQueryInfo (query\<lparr>q_role := JOther b, q_resource := JStr r\<rparr>)
            = Inr \<lparr>nq_role = [], nq_resource = trim r, nq_action = act, nq_possession = poss\<rparr>"
    by (rule l(1))
  show "getUnionAttrsOfRoles globUnion k g (query\<lparr>q_role := JOther b, q_resource := JStr r\<rparr>)
            = Some (Inl InvalidRoles)"
    by (rule l(2))
next
  show "\<exists>e. getUnionAttrsOfRoles globUnion k g (query\<lparr>q_role := JOther b\<rparr>) = Some (Inl e)
          \<and> e \<in> queryErrors"
    using other_role_query [where globUnion = globUnion and k = k and g = g and query = query and b = b]
    by blast
qed (simp_all add: string_as_array other_role_commit other_resource_commit)

theorem names_split_and_others_rejected_witness:
  "toStringArray (JStr '' admin, user '') = [''admin'', ''user'']
   \<and> commitToGrants False [] (grantStmt\<lparr>a_role := JStr ''admin, user''\<rparr>) True
       = ([(''admin'', \<lparr>r_extend = None, r_resources = [(''video'', [(''create:any'', [''*''])])]\<rparr>),
           (''user'', \<lparr>r_extend = None, r_resources = [(''video'', [(''create:any'', [''*''])])]\<rparr>)],
          Returned)
   \<and> (\<exists>ai. normalizeAccessInfo (grantStmt\<lparr>a_role := JStr ''admin, user'', a_resource := JStr ''video''\<rparr>) True
               = Inr ai
           \<and> na_role ai = [''admin'', ''user''] \<and> na_resource ai = [''video''])
   \<and> normalizeQueryInfo ((createQuery ''photo'' ''any'')\<lparr>q_role := JStr ''admin, user'', q_resource := JStr ''video''\<rparr>)
       = Inr \<lparr>nq_role = [''admin'', ''user''], nq_resource = ''video'', nq_action = ''create'',
              nq_possession = ''any''\<rparr>
   \<and> normalizeAccessInfo (grantStmt\<lparr>a_resource := JOther False\<rparr>) True = Inl InvalidResources
   \<and> getUnionAttrsOfRoles (@) 1 videoAny
        ((createQuery ''photo'' ''any'')\<lparr>q_role := JOther False, q_resource := JStr ''video''\<rparr>)
       = Some (Inl InvalidRoles)"
proof -
  let ?q = "createQuery ''photo'' ''any''"
  note t0 = names_split_and_others_rejected [where n = "''admin''" and rest = "[('', '', ''user'')]"
      and ?pad1.0 = "'' ''" and ?pad2.0 = "'' ''", THEN conjunct1, THEN mp]
  note t = names_split_and_others_rejected [where n = "''admin''" and rest = "[('', '', ''user'')]"
      and ?pad1.0 = "[]" and ?pad2.0 = "[]" and s = "''admin, user''"
      and names = "[''admin'', ''user'']" and access = grantStmt and all = True and fz = False
      and g = "[]" and query = ?q and globUnion = "(@)"
      and other = "JStr ''video''" and others = "[''video'']" and ap = "(''create'', ''any'')"
      and r = "''video''" and act = "''create''" and poss = "''any''" and b = False]
  note u = names_split_and_others_rejected [where query = ?q and globUnion = "(@)" and k = 1
      and g = videoAny and r = "''video''" and act = "''create''" and poss = "''any''" and b = False]
  have h0: "cleanName ''admin'' \<and> list_all (\<lambda>(sep, m). isSeparator sep \<and> cleanName m) [('', '', ''user'')]
        \<and> list_all isSpace '' '' \<and> list_all isSpace '' ''"
    by (simp add: cleanName_def isSeparator_def isSpace_def isSep_def)
  have h1: "cleanName ''admin'' \<and> list_all (\<lambda>(sep, m). isSeparator sep \<and> cleanName m) [('', '', ''user'')]
        \<and> list_all isSpace [] \<and> list_all isSpace []"
    by (simp add: cleanName_def isSeparator_def isSpace_def isSep_def)
  have p0: "toStringArray (JStr '' admin, user '') = [''admin'', ''user'']"
    using t0 [OF h0, THEN conjunct1] by simp
  have p1: "toStringArray (JStr ''admin, user'') = [''admin'', ''user'']"
    and f1: "isFilledStringArray [''admin'', ''user'']"
    using t [THEN conjunct1, THEN mp, OF h1] by simp_all
  note c2 = t [THEN conjunct2, THEN conjunct1, THEN mp, OF p1]
  have p2: "commitToGrants False [] (grantStmt\<lparr>a_role := JStr ''admin, user''\<rparr>) True
       = commitToGrants False [] (grantStmt\<lparr>a_role := JArr [''admin'', ''user'']\<rparr>) True"
    by (rule c2 [THEN conjunct2, THEN conjunct2, THEN conjunct1])
  have v: "toStringArray (JStr ''video'') = [''video'']" "isFilledStringArray [''video'']"
    by (simp_all add: string_eval isFilledStringArray_def)
  have na: "normalizeActionPossession (a_action grantStmt) (a_possession grantStmt)
              = Inr (''create'', ''any'')"
    by code_simp
  have h3: "toStringArray (JStr ''admin, user'') = [''admin'', ''user'']
        \<and> isFilledStringArray [''admin'', ''user'']
        \<and> toStringArray (JStr ''video'') = [''video''] \<and> [''video''] \<noteq> []
        \<and> isFilledStringArray [''video'']
        \<and> (True \<longrightarrow> normalizeActionPossession (a_action grantStmt) (a_possession grantStmt)
                       = Inr (''create'', ''any''))"
    using p1 f1 v na by simp
  note r3 = t [THEN conjunct2, THEN conjunct2]
  have p3: "\<exists>ai. normalizeAccessInfo (grantStmt\<lparr>a_role := JStr ''admin, user'', a_resource := JStr ''video''\<rparr>) True
               = Inr ai
           \<and> na_role ai = [''admin'', ''user''] \<and> na_resource ai = [''video'']"
    by (rule r3 [THEN conjunct1, THEN mp, OF h3, THEN conjunct1])
  have nq: "normalizeActionPossession (q_action ?q) (q_possession ?q) = Inr (''create'', ''any'')"
    using normalize_create [of "''any''"] by (simp add: createQuery_def)
  have h4: "toStringArray (JStr ''admin, user'') = [''admin'', ''user'']
        \<and> isFilledStringArray [''admin'', ''user''] \<and> trim ''video'' \<noteq> []
        \<and> normalizeActionPossession (q_action ?q) (q_possession ?q) = Inr (''create'', ''any'')"
    using p1 f1 nq by (simp add: trim_video)
  note r4 = r3 [THEN conjunct2]
  have p4: "normalizeQueryInfo (?q\<lparr>q_role := JStr ''admin, user'', q_resource := JStr ''video''\<rparr>)
       = Inr \<lparr>nq_role = [''admin'', ''user''], nq_resource = trim ''video'', nq_action = ''create'',
              nq_possession = ''any''\<rparr>"
    by (rule r4 [THEN conjunct1, THEN mp, OF h4])
  note r5 = r4 [THEN conjunct2, THEN conjunct2, THEN conjunct2, THEN conjunct2]
  have h5: "toStringArray (a_role grantStmt) \<noteq> []
        \<and> isFilledStringArray (toStringArray (a_role grantStmt))"
    by (simp add: grantStmt_role isFilledStringArray_def trim_u)
  have p5: "normalizeAccessInfo (grantStmt\<lparr>a_resource := JOther False\<rparr>) True = Inl InvalidResources"
    by (rule r5 [THEN conjunct1, THEN mp, OF h5, THEN conjunct1])
  have h6: "trim ''video'' \<noteq> []
        \<and> normalizeActionPossession (q_action ?q) (q_possession ?q) = Inr (''create'', ''any'')"
    using nq by (simp add: trim_video)
  note u6 = u [THEN conjunct2, THEN conjunct2, THEN conjunct2, THEN conjunct2, THEN conjunct2,
      THEN conjunct2, THEN conjunct2, THEN conjunct2]
  have p6: "getUnionAttrsOfRoles (@) 1 videoAny (?q\<lparr>q_role := JOther False, q_resource := JStr ''video''\<rparr>)
       = Some (Inl InvalidRoles)"
    by (rule u6 [THEN conjunct1, THEN mp, OF h6, THEN conjunct2])
  show ?thesis
    using p0 p2 p3 p4 p5 p6 by (simp add: adminUser_commit trim_video)
qed

end
